(* ===== verification/Huffman_Prelude.thy ===== *)
theory Huffman_Prelude
  imports Complex_Main "HOL-Library.Multiset" "HOL-Library.Sublist"
begin

text \<open>
  Shared vocabulary of the Huffman development.
  \<^item> \<open>py_error\<close>: the Python exceptions the modelled code can raise. A function that
    may raise returns \<open>py_error + 'a\<close>, \<open>Inl\<close> carrying the exception.
  \<^item> \<open>('k, 'v) dict\<close>: a Python \<open>dict\<close> as an association list in insertion order,
    with distinct keys. \<open>dict_set d k v\<close> is \<open>d[k] = v\<close>: it overwrites the value of
    an existing key in place and appends a new key at the end, as CPython dicts do;
    \<open>map_of d k\<close> is \<open>d.get(k)\<close>.
  \<^item> \<open>code\<close>: a code word as the source builds it, a Python string of the
    characters \<open>'0'\<close> and \<open>'1'\<close>.
  \<^item> \<open>first_occurrences xs\<close>: the distinct elements of \<open>xs\<close> in order of first
    occurrence (the library's \<open>remdups\<close> keeps the last occurrence instead), the key
    order of a dict filled from \<open>xs\<close>.
  \<^item> \<open>prefix_free ws\<close>: the words of \<open>ws\<close> are pairwise distinct and none is a
    prefix of another; the abstract form of the prefix property of a code table.
  The lemmas on \<open>dict_set\<close> are collected in \<open>dict_ops\<close>, those on
  \<open>prefix_free\<close> in \<open>prefix_free_ops\<close>.
\<close>

datatype py_error = IndexError | KeyError | ValueError | AttributeError | ZeroDivisionError | AssertionError
  | FileNotFoundError | UnicodeDecodeError | TypeError

type_synonym ('k, 'v) dict = "('k \<times> 'v) list"

type_synonym code = string

named_theorems dict_ops "lemmas on the association-list model of Python dicts"
named_theorems prefix_free_ops "lemmas on prefix-free lists of words"

fun dict_set :: "('k, 'v) dict \<Rightarrow> 'k \<Rightarrow> 'v \<Rightarrow> ('k, 'v) dict" where
  "dict_set [] k v = [(k, v)]"
| "dict_set ((k', v') # d) k v = (if k' = k then (k, v) # d else (k', v') # dict_set d k v)"

definition dict_keys :: "('k, 'v) dict \<Rightarrow> 'k list" where
  "dict_keys d = map fst d"

definition first_occurrences :: "'a list \<Rightarrow> 'a list" where
  "first_occurrences xs = rev (remdups (rev xs))"

definition prefix_free :: "'a list list \<Rightarrow> bool" where
  "prefix_free xs = (distinct xs \<and> (\<forall>x \<in> set xs. \<forall>y \<in> set xs. x \<noteq> y \<longrightarrow> \<not> prefix x y))"

lemma map_of_dict_set [simp, dict_ops]: "map_of (dict_set d k v) = (map_of d)(k \<mapsto> v)"
  by (induction d) (auto simp: fun_eq_iff)

lemma dict_keys_dict_set [dict_ops]:
  "dict_keys (dict_set d k v) = (if k \<in> set (dict_keys d) then dict_keys d else dict_keys d @ [k])"
  by (induction d) (force simp: dict_keys_def)+

lemma set_dict_keys_dict_set [simp, dict_ops]:
  "set (dict_keys (dict_set d k v)) = insert k (set (dict_keys d))"
  by (auto simp: dict_keys_dict_set)

lemma distinct_dict_keys_dict_set [simp, dict_ops]:
  "distinct (dict_keys d) \<Longrightarrow> distinct (dict_keys (dict_set d k v))"
  by (simp add: dict_keys_dict_set)

lemma length_dict_set [dict_ops]:
  "length (dict_set d k v) = (if k \<in> set (dict_keys d) then length d else Suc (length d))"
  by (induction d) (force simp: dict_keys_def)+

lemma dict_set_values [dict_ops]:
  "set (map snd (dict_set d k v)) \<subseteq> insert v (set (map snd d))"
  by (induction d k v rule: dict_set.induct) auto

lemma dict_set_mem [dict_ops]:
  "(a, b) \<in> set (dict_set d k v) \<Longrightarrow> (a, b) = (k, v) \<or> (a, b) \<in> set d"
  by (induction d) (auto split: if_splits)

lemma dict_set_absent [dict_ops]:
  "k \<notin> set (dict_keys d) \<Longrightarrow> dict_set d k v = d @ [(k, v)]"
  by (induction d) (auto simp: dict_keys_def)

lemma foldl_dict_set_fresh [dict_ops]:
  "distinct (map fst xs) \<Longrightarrow> set (map fst xs) \<inter> set (dict_keys d) = {} \<Longrightarrow>
   foldl (\<lambda>d (k, v). dict_set d k v) d xs = d @ xs"
proof (induction xs arbitrary: d)
  case (Cons x xs)
  obtain k v where x: "x = (k, v)" by (cases x)
  with Cons.prems have "dict_set d k v = d @ [(k, v)]"
    by (simp add: dict_set_absent)
  moreover from Cons.prems x have "set (map fst xs) \<inter> set (dict_keys (d @ [(k, v)])) = {}"
    by (auto simp: dict_keys_def)
  ultimately show ?case using Cons x by simp
qed simp

lemma dict_keys_eq_dom [dict_ops]: "set (dict_keys d) = dom (map_of d)"
  by (simp add: dict_keys_def dom_map_of_conv_image_fst)

lemma map_of_Some_distinct_keys [dict_ops]:
  "distinct (dict_keys d) \<Longrightarrow> (map_of d k = Some v) = ((k, v) \<in> set d)"
  by (simp add: dict_keys_def)

lemma dict_rebuild [dict_ops]:
  "distinct (dict_keys d) \<Longrightarrow> map (\<lambda>k. (k, the (map_of d k))) (dict_keys d) = d"
proof (induction d)
  case (Cons x d)
  obtain a b where x: "x = (a, b)" by (cases x)
  from Cons.prems x have a: "a \<notin> set (dict_keys d)" and dd: "distinct (dict_keys d)"
    by (simp_all add: dict_keys_def)
  have "map (\<lambda>k. (k, the (map_of (x # d) k))) (dict_keys d) = map (\<lambda>k. (k, the (map_of d k))) (dict_keys d)"
    using a x by (intro map_cong) auto
  with Cons.IH [OF dd] x show ?case by (simp add: dict_keys_def)
qed (simp add: dict_keys_def)

lemma first_occurrences_Nil [simp]: "first_occurrences [] = []"
  by (simp add: first_occurrences_def)

lemma first_occurrences_snoc [simp]:
  "first_occurrences (xs @ [x]) =
     (if x \<in> set xs then first_occurrences xs else first_occurrences xs @ [x])"
  by (simp add: first_occurrences_def)

lemma set_first_occurrences [simp]: "set (first_occurrences xs) = set xs"
  by (simp add: first_occurrences_def)

lemma distinct_first_occurrences [simp]: "distinct (first_occurrences xs)"
  by (simp add: first_occurrences_def)

lemma dict_set_map_present [dict_ops]:
  "distinct ks \<Longrightarrow> k \<in> set ks \<Longrightarrow>
   dict_set (map (\<lambda>c. (c, g c)) ks) k v = map (\<lambda>c. (c, if c = k then v else g c)) ks"
  by (induction ks) auto

lemma dict_set_map_absent [dict_ops]:
  "k \<notin> set ks \<Longrightarrow> dict_set (map (\<lambda>c. (c, g c)) ks) k v = map (\<lambda>c. (c, g c)) ks @ [(k, v)]"
  by (induction ks) auto

lemma prefix_free_Nil [simp, prefix_free_ops]: "prefix_free []"
  by (simp add: prefix_free_def)

lemma prefix_free_single [simp, prefix_free_ops]: "prefix_free [w]"
  by (simp add: prefix_free_def)

lemma prefix_free_map_Cons [simp, prefix_free_ops]:
  "prefix_free (map ((#) b) ws) = prefix_free ws"
  by (auto simp: prefix_free_def distinct_map)

lemma prefix_free_append [prefix_free_ops]:
  "prefix_free (xs @ ys) =
     (prefix_free xs \<and> prefix_free ys \<and>
      (\<forall>x \<in> set xs. \<forall>y \<in> set ys. \<not> prefix x y \<and> \<not> prefix y x))"
proof
  assume h: "prefix_free (xs @ ys)"
  have "\<not> prefix x y \<and> \<not> prefix y x" if "x \<in> set xs" "y \<in> set ys" for x y
  proof -
    from h that have "x \<noteq> y" by (auto simp: prefix_free_def)
    with h that show ?thesis by (auto simp: prefix_free_def)
  qed
  with h show "prefix_free xs \<and> prefix_free ys \<and>
      (\<forall>x \<in> set xs. \<forall>y \<in> set ys. \<not> prefix x y \<and> \<not> prefix y x)"
    by (auto simp: prefix_free_def)
next
  assume h: "prefix_free xs \<and> prefix_free ys \<and>
      (\<forall>x \<in> set xs. \<forall>y \<in> set ys. \<not> prefix x y \<and> \<not> prefix y x)"
  then have "set xs \<inter> set ys = {}" by auto
  with h show "prefix_free (xs @ ys)" by (auto simp: prefix_free_def)
qed

lemma prefix_free_Cons_branches [prefix_free_ops]:
  assumes "a \<noteq> b"
  shows "prefix_free (map ((#) a) xs @ map ((#) b) ys) = (prefix_free xs \<and> prefix_free ys)"
  using assms by (auto simp: prefix_free_append)

text \<open>
  The index form, as the source's double loop states it: no word at a position is a
  prefix of the word at another position.
\<close>

lemma prefix_free_nth [prefix_free_ops]:
  "prefix_free ws =
     (\<forall>i < length ws. \<forall>j < length ws. i \<noteq> j \<longrightarrow> \<not> prefix (ws ! i) (ws ! j))"
proof
  assume pf: "prefix_free ws"
  show "\<forall>i < length ws. \<forall>j < length ws. i \<noteq> j \<longrightarrow> \<not> prefix (ws ! i) (ws ! j)"
  proof (intro allI impI)
    fix i j assume i: "i < length ws" and j: "j < length ws" and ij: "i \<noteq> j"
    from pf have "distinct ws" by (simp add: prefix_free_def)
    with i j ij have "ws ! i \<noteq> ws ! j" by (simp add: nth_eq_iff_index_eq)
    with pf i j show "\<not> prefix (ws ! i) (ws ! j)" by (auto simp: prefix_free_def)
  qed
next
  assume h: "\<forall>i < length ws. \<forall>j < length ws. i \<noteq> j \<longrightarrow> \<not> prefix (ws ! i) (ws ! j)"
  then have "distinct ws" unfolding distinct_conv_nth by (metis prefix_order.refl)
  moreover have "\<not> prefix x y" if "x \<in> set ws" "y \<in> set ws" "x \<noteq> y" for x y
    using that h by (metis in_set_conv_nth)
  ultimately show "prefix_free ws" by (simp add: prefix_free_def)
qed

text \<open>
  A list of lengths whose Kraft sum is 1 has at least \<open>2 ^ min\<close> and at most
  \<open>2 ^ max\<close> entries.
\<close>

lemma kraft_bornes:
  fixes L :: "nat list"
  assumes "L \<noteq> []" and "(\<Sum>l\<leftarrow>L. (1/2 :: rat) ^ l) = 1"
  shows "2 ^ Min (set L) \<le> length L \<and> length L \<le> 2 ^ Max (set L)"
proof -
  have "(\<Sum>l\<leftarrow>L. (1/2 :: rat) ^ Max (set L)) \<le> (\<Sum>l\<leftarrow>L. (1/2) ^ l)"
    by (rule sum_list_mono) (simp add: power_decreasing)
  then have "of_nat (length L) * (1/2 :: rat) ^ Max (set L) \<le> 1"
    using assms(2) by (simp add: sum_list_triv)
  then have "of_nat (length L) \<le> (2 :: rat) ^ Max (set L)"
    by (simp add: power_one_over field_simps)
  then have hi: "length L \<le> 2 ^ Max (set L)"
    by (metis of_nat_le_iff of_nat_numeral of_nat_power)
  have "(\<Sum>l\<leftarrow>L. (1/2 :: rat) ^ l) \<le> (\<Sum>l\<leftarrow>L. (1/2) ^ Min (set L))"
    by (rule sum_list_mono) (simp add: power_decreasing)
  then have "1 \<le> of_nat (length L) * (1/2 :: rat) ^ Min (set L)"
    using assms(2) by (simp add: sum_list_triv)
  then have "(2 :: rat) ^ Min (set L) \<le> of_nat (length L)"
    by (simp add: power_one_over field_simps)
  then have lo: "2 ^ Min (set L) \<le> length L"
    by (metis of_nat_le_iff of_nat_numeral of_nat_power)
  from lo hi show ?thesis ..
qed

end
