(* ===== verification/Noeud.thy ===== *)
theory Noeud
  imports Huffman_Prelude
begin

text \<open>
  The tree node of both Python packages. \<^verbatim>\<open>src/analyse_frequences.py\<close> declares
  \<^verbatim>\<open>class Noeud\<close> with the fields \<^verbatim>\<open>caractere\<close>, \<^verbatim>\<open>frequence\<close>, \<^verbatim>\<open>gauche\<close>,
  \<^verbatim>\<open>droit\<close>; \<^verbatim>\<open>src/huffman/construction_arbre.py\<close> declares the same class with
  the fields \<^verbatim>\<open>char\<close>, \<^verbatim>\<open>freq\<close>, \<^verbatim>\<open>gauche\<close>, \<^verbatim>\<open>droite\<close>. Every field may be
  \<^verbatim>\<open>None\<close>, so the datatype keeps the source's nullable shape (symbol and children
  are options) rather than a tagged leaf/inner variant: the structural validator
  \<open>verifier_arbre_huffman\<close> of \<^verbatim>\<open>src/encodage.py\<close> is then a real check.

  The abstractions used by the proofs are defined here as well: \<open>arbre_plein\<close> (every
  node is either a leaf with a symbol and no child, or an inner node with no symbol and two
  children), \<open>feuilles\<close> (the leaves, left to right, with their frequencies),
  \<open>chemins\<close> (each leaf with its root-to-leaf path, \<open>'0'\<close> for left and \<open>'1'\<close> for
  right), \<open>coherent\<close> (every inner frequency is the sum of its children's) and
  \<open>internes\<close> (the number of inner nodes).
\<close>

datatype 'c noeud =
  Noeud (caractere: "'c option") (frequence: int) (gauche: "'c noeud option") (droit: "'c noeud option")

definition est_feuille :: "'c noeud \<Rightarrow> bool" where
  "est_feuille n = (gauche n = None \<and> droit n = None)"

definition noeud_lt :: "'c noeud \<Rightarrow> 'c noeud \<Rightarrow> bool" where
  "noeud_lt a b = (frequence a < frequence b)"

fun verifier_arbre_huffman :: "'c noeud option \<Rightarrow> bool" where
  "verifier_arbre_huffman None = False"
| "verifier_arbre_huffman (Some (Noeud c f g d)) =
     (if est_feuille (Noeud c f g d) then c \<noteq> None \<and> 0 < f \<and> g = None \<and> d = None
      else if c = None then
        (if g = None \<or> d = None then False
         else if f \<le> 0 then False
         else verifier_arbre_huffman g \<and> verifier_arbre_huffman d)
      else False)"

subsection \<open>Abstractions of a tree\<close>

fun arbre_plein :: "'c noeud \<Rightarrow> bool" where
  "arbre_plein (Noeud (Some c) f None None) = True"
| "arbre_plein (Noeud None f (Some g) (Some d)) = (arbre_plein g \<and> arbre_plein d)"
| "arbre_plein _ = False"

fun freq_positives :: "'c noeud \<Rightarrow> bool" where
  "freq_positives (Noeud c f g d) =
     (0 < f \<and> (case g of None \<Rightarrow> True | Some t \<Rightarrow> freq_positives t)
            \<and> (case d of None \<Rightarrow> True | Some t \<Rightarrow> freq_positives t))"

fun feuilles :: "'c noeud \<Rightarrow> ('c \<times> int) list" where
  "feuilles (Noeud (Some c) f g d) = [(c, f)]"
| "feuilles (Noeud None f (Some g) (Some d)) = feuilles g @ feuilles d"
| "feuilles _ = []"

fun chemins :: "'c noeud \<Rightarrow> code \<Rightarrow> ('c \<times> code) list" where
  "chemins (Noeud (Some c) f g d) code = [(c, code)]"
| "chemins (Noeud None f (Some g) (Some d)) code =
     chemins g (code @ ''0'') @ chemins d (code @ ''1'')"
| "chemins _ code = []"

fun coherent :: "'c noeud \<Rightarrow> bool" where
  "coherent (Noeud None f (Some g) (Some d)) =
     (f = frequence g + frequence d \<and> coherent g \<and> coherent d)"
| "coherent _ = True"

fun internes :: "'c noeud \<Rightarrow> nat" where
  "internes (Noeud None f (Some g) (Some d)) = Suc (internes g + internes d)"
| "internes _ = 0"

definition symboles :: "'c noeud \<Rightarrow> 'c list" where
  "symboles t = map fst (feuilles t)"

definition poids :: "'c noeud \<Rightarrow> int" where
  "poids t = sum_list (map snd (feuilles t))"

subsection \<open>The validator against the abstractions\<close>

text \<open>
  \<open>verifier_arbre_huffman\<close> accepts a tree exactly when it is full and all its
  frequencies are positive.
\<close>

lemma verifier_arbre_huffman_iff:
  "verifier_arbre_huffman (Some t) = (arbre_plein t \<and> freq_positives t)"
proof (induction t)
  case (Noeud c f g d)
  then show ?case by (cases c; cases g; cases d) (auto simp: est_feuille_def)
qed

lemma verifier_arbre_huffman_None [simp]: "\<not> verifier_arbre_huffman None"
  by simp

subsection \<open>Shape of full trees\<close>

lemma internes_feuilles: "arbre_plein t \<Longrightarrow> Suc (internes t) = length (feuilles t)"
  by (induction t rule: arbre_plein.induct) auto

lemma feuilles_non_vides: "arbre_plein t \<Longrightarrow> feuilles t \<noteq> []"
  using internes_feuilles [of t] by auto

lemma arbre_plein_feuille [simp]: "arbre_plein (Noeud (Some c) f g d) = (g = None \<and> d = None)"
  by (cases g; cases d) auto

lemma arbre_plein_interne [simp]:
  "arbre_plein (Noeud None f g d) = (\<exists>l r. g = Some l \<and> d = Some r \<and> arbre_plein l \<and> arbre_plein r)"
  by (cases g; cases d) auto

lemma coherent_poids: "arbre_plein t \<Longrightarrow> coherent t \<Longrightarrow> frequence t = poids t"
  by (induction t rule: arbre_plein.induct) (auto simp: poids_def)

subsection \<open>Root-to-leaf paths\<close>

text \<open>
  The path accumulated so far is a prefix of every path below: \<open>chemins t q\<close> is
  \<open>chemins t []\<close> with \<open>q\<close> put in front of each path.
\<close>

lemma chemins_append: "chemins t (q @ r) = map (\<lambda>(c, p). (c, q @ p)) (chemins t r)"
proof (induction t arbitrary: r)
  case (Noeud c f g d)
  then show ?case by (cases c; cases g; cases d) auto
qed

lemma chemins_prefixe: "chemins t q = map (\<lambda>(c, p). (c, q @ p)) (chemins t [])"
  using chemins_append [of t q "[]"] by simp

lemma chemins_interne:
  "chemins (Noeud None f (Some g) (Some d)) [] =
     map (\<lambda>(c, p). (c, CHR ''0'' # p)) (chemins g []) @
     map (\<lambda>(c, p). (c, CHR ''1'' # p)) (chemins d [])"
  by (simp add: chemins_prefixe [of g "''0''"] chemins_prefixe [of d "''1''"])

lemma map_fst_chemins: "map fst (chemins t q) = symboles t"
proof (induction t arbitrary: q)
  case (Noeud c f g d)
  then show ?case by (cases c; cases g; cases d) (auto simp: symboles_def)
qed

lemma map_snd_chemins_Cons:
  "map snd (map (\<lambda>(c, p). (c, b # p)) xs) = map ((#) b) (map snd xs)"
  by (induction xs) auto

lemma prefix_free_chemins: "arbre_plein t \<Longrightarrow> prefix_free (map snd (chemins t []))"
proof (induction t rule: arbre_plein.induct)
  case (2 f g d)
  then show ?case
    using prefix_free_Cons_branches [of "CHR ''0''" "CHR ''1''"
        "map snd (chemins g [])" "map snd (chemins d [])"]
    unfolding chemins_interne map_append map_snd_chemins_Cons by simp
qed auto

lemma chemins_feuille_racine:
  "(x, p) \<in> set (chemins (Noeud (Some c) f g d) q) \<Longrightarrow> x = c \<and> p = q"
  by simp

text \<open>
  The paths of a full tree satisfy Kraft's equality, and none is longer than the number
  of leaves minus one.
\<close>

lemma kraft_chemins:
  "arbre_plein t \<Longrightarrow> (\<Sum>(c, p)\<leftarrow>chemins t q. (1/2 :: rat) ^ length p) = (1/2) ^ length q"
  by (induction t q rule: chemins.induct) auto

lemma longueur_chemins_feuilles:
  "arbre_plein t \<Longrightarrow> (c, p) \<in> set (chemins t q) \<Longrightarrow> length p < length q + length (feuilles t)"
proof (induction t q rule: chemins.induct)
  case (2 f g d code)
  from "2.prems"(1) have pg: "arbre_plein g" and pd: "arbre_plein d" by simp_all
  have ng: "0 < length (feuilles g)" and nd: "0 < length (feuilles d)"
    using feuilles_non_vides [OF pg] feuilles_non_vides [OF pd] by simp_all
  from "2.prems"(2) have "(c, p) \<in> set (chemins g (code @ ''0'')) \<or> (c, p) \<in> set (chemins d (code @ ''1''))"
    by simp
  then show ?case
  proof
    assume "(c, p) \<in> set (chemins g (code @ ''0''))"
    from "2.IH"(1) [OF pg this] have "length p < Suc (length code + length (feuilles g))" by simp
    with nd show ?thesis by (simp only: feuilles.simps length_append)
  next
    assume "(c, p) \<in> set (chemins d (code @ ''1''))"
    from "2.IH"(2) [OF pd this] have "length p < Suc (length code + length (feuilles d))" by simp
    with ng show ?thesis by (simp only: feuilles.simps length_append)
  qed
qed auto

end
