(* ===== verification/Frequences.thy ===== *)
theory Frequences
  imports Noeud
begin

text \<open>
  The frequency table. \<^verbatim>\<open>calculer_frequences\<close> (\<^verbatim>\<open>src/analyse_frequences.py\<close>)
  counts with an explicit loop over the text and a dict; \<open>calculer_frequences_boucle\<close>
  is that loop with the dict threaded through. \<^verbatim>\<open>analyser_frequences\<close>
  (\<^verbatim>\<open>src/huffman/analyse_frequences.py\<close>) is \<^verbatim>\<open>dict(Counter(texte))\<close>: the
  library's \<^verbatim>\<open>Counter\<close> maps each distinct element, in order of first occurrence, to
  its number of occurrences, which is what the definition below states.
  \<^verbatim>\<open>creer_noeuds_feuilles\<close> turns the table into one leaf per entry, in table order.

  Shown here: the two tables are equal (keys in order of first occurrence, so both
  packages feed the heap the same list), each count is the number of occurrences,
  every count is at least 1 and the counts add up to the length of the text.
\<close>

fun calculer_frequences_boucle :: "'c list \<Rightarrow> ('c, int) dict \<Rightarrow> ('c, int) dict" where
  "calculer_frequences_boucle [] frequences = frequences"
| "calculer_frequences_boucle (car # texte) frequences =
     calculer_frequences_boucle texte
       (case map_of frequences car of
          Some n \<Rightarrow> dict_set frequences car (n + 1)
        | None \<Rightarrow> dict_set frequences car 1)"

definition calculer_frequences :: "'c list \<Rightarrow> ('c, int) dict" where
  "calculer_frequences texte = calculer_frequences_boucle texte []"

definition analyser_frequences :: "'c list \<Rightarrow> ('c, int) dict" where
  "analyser_frequences texte = map (\<lambda>c. (c, int (count_list texte c))) (first_occurrences texte)"

definition creer_noeuds_feuilles :: "('c, int) dict \<Rightarrow> 'c noeud list" where
  "creer_noeuds_feuilles frequences =
     map (\<lambda>(car, freq). Noeud (Some car) freq None None) frequences"

subsection \<open>The counting loop\<close>

text \<open>
  One step of the loop on the table of a prefix \<open>p\<close> of the text gives the table of
  \<open>p @ [x]\<close>.
\<close>

lemma analyser_frequences_snoc:
  "(case map_of (analyser_frequences p) x of
      Some n \<Rightarrow> dict_set (analyser_frequences p) x (n + 1)
    | None \<Rightarrow> dict_set (analyser_frequences p) x 1) = analyser_frequences (p @ [x])"
proof (cases "x \<in> set p")
  case True
  then have "map_of (analyser_frequences p) x = Some (int (count_list p x))"
    by (simp add: analyser_frequences_def map_of_map_restrict restrict_map_def)
  moreover have "(if c = x then int (count_list p x) + 1 else int (count_list p c)) =
      int (count_list (p @ [x]) c)" for c
    by simp
  ultimately show ?thesis
    using True by (simp add: analyser_frequences_def dict_set_map_present)
next
  case False
  then have "map_of (analyser_frequences p) x = None"
    by (simp add: analyser_frequences_def map_of_map_restrict restrict_map_def)
  moreover have "dict_set (analyser_frequences p) x 1 = analyser_frequences p @ [(x, 1)]"
    using False by (simp add: analyser_frequences_def dict_set_map_absent)
  moreover have "analyser_frequences (p @ [x]) = analyser_frequences p @ [(x, 1)]"
  proof -
    have "count_list (p @ [x]) c = count_list p c" if "c \<in> set (first_occurrences p)" for c
      using that False by auto
    then have "map (\<lambda>c. (c, int (count_list (p @ [x]) c))) (first_occurrences p) =
        map (\<lambda>c. (c, int (count_list p c))) (first_occurrences p)"
      by simp
    then show ?thesis using False by (simp add: analyser_frequences_def)
  qed
  ultimately show ?thesis by simp
qed

lemma calculer_frequences_boucle_analyser:
  "calculer_frequences_boucle texte (analyser_frequences p) = analyser_frequences (p @ texte)"
proof (induction texte arbitrary: p)
  case Nil
  then show ?case by simp
next
  case (Cons x texte)
  then show ?case
    using analyser_frequences_snoc [of p x] Cons.IH [of "p @ [x]"] by simp
qed

lemma calculer_frequences_analyser_form:
  "calculer_frequences texte = map (\<lambda>c. (c, int (count_list texte c))) (first_occurrences texte)"
  using calculer_frequences_boucle_analyser [of texte "[]"]
  by (simp add: calculer_frequences_def analyser_frequences_def)

subsection \<open>The table\<close>

lemma dict_keys_analyser_frequences [simp]:
  "dict_keys (analyser_frequences texte) = first_occurrences texte"
  by (simp add: dict_keys_def analyser_frequences_def comp_def)

lemma map_of_analyser_frequences:
  "map_of (analyser_frequences texte) =
     (\<lambda>c. if c \<in> set texte then Some (int (count_list texte c)) else None)"
  by (auto simp: analyser_frequences_def map_of_map_restrict restrict_map_def fun_eq_iff)

lemma analyser_frequences_positive:
  "(c, n) \<in> set (analyser_frequences texte) \<Longrightarrow> 1 \<le> n"
  using count_list_0_iff [of texte c] by (auto simp: analyser_frequences_def)

lemma sum_analyser_frequences:
  "sum_list (map snd (analyser_frequences texte)) = int (length texte)"
proof -
  have "sum_list (map snd (analyser_frequences texte)) =
      (\<Sum>c \<in> set texte. int (count_list texte c))"
    by (simp add: analyser_frequences_def comp_def sum_list_distinct_conv_sum_set)
  also have "\<dots> = int (\<Sum>c \<in> set texte. count_list texte c)"
    by simp
  also have "\<dots> = int (length texte)"
    using sum_count_set [of texte "set texte"] by simp
  finally show ?thesis .
qed

subsection \<open>Leaves\<close>

lemma feuilles_creer_noeuds_feuilles [simp]:
  "concat (map feuilles (creer_noeuds_feuilles frequences)) = frequences"
  by (induction frequences) (auto simp: creer_noeuds_feuilles_def)

lemma creer_noeuds_feuilles_valides:
  "(\<And>c n. (c, n) \<in> set frequences \<Longrightarrow> 0 < n) \<Longrightarrow>
   t \<in> set (creer_noeuds_feuilles frequences) \<Longrightarrow>
   arbre_plein t \<and> freq_positives t \<and> coherent t"
  by (auto simp: creer_noeuds_feuilles_def)

lemma creer_noeuds_feuilles_Nil [simp]:
  "(creer_noeuds_feuilles frequences = []) = (frequences = [])"
  by (simp add: creer_noeuds_feuilles_def)

lemma length_creer_noeuds_feuilles [simp]:
  "length (creer_noeuds_feuilles frequences) = length frequences"
  by (simp add: creer_noeuds_feuilles_def)

subsection \<open>Properties of the frequency table\<close>

text \<open>
  C2. The table of \<^verbatim>\<open>calculer_frequences\<close> has the distinct symbols of the text as
  keys, in order of first occurrence; each symbol's value is its number of occurrences;
  the values add up to the length of the text.
\<close>

theorem calculer_frequences_table:
  "dict_keys (calculer_frequences texte) = first_occurrences texte \<and>
   map_of (calculer_frequences texte) =
     (\<lambda>c. if c \<in> set texte then Some (int (count_list texte c)) else None) \<and>
   sum_list (map snd (calculer_frequences texte)) = int (length texte)"
  using dict_keys_analyser_frequences [of texte] map_of_analyser_frequences [of texte]
    sum_analyser_frequences [of texte]
  unfolding calculer_frequences_analyser_form analyser_frequences_def by simp

end
