(* ===== verification/Heapq.thy ===== *)
theory Heapq
  imports Huffman_Prelude
begin

text \<open>
  Python's \<^verbatim>\<open>heapq\<close> module, which both tree builders call (\<^verbatim>\<open>heapify\<close>,
  \<^verbatim>\<open>heappop\<close>, \<^verbatim>\<open>heappush\<close>). It is part of the Python library, not of the
  repository; it is modelled after CPython's algorithm (\<^verbatim>\<open>Lib/heapq.py\<close>, which the C
  accelerator follows comparison for comparison), because the tie-breaking of the
  Huffman builders, and so the trees and codes they produce, depend on it.

  The heap is a Python list; comparisons use the elements' \<^verbatim>\<open>__lt__\<close>, here the
  parameter \<open>lt\<close>. \<^verbatim>\<open>_siftdown(heap, startpos, pos)\<close> lifts the item at \<open>pos\<close>
  towards \<open>startpos\<close> while it is smaller than its parent; \<^verbatim>\<open>_siftup(heap, pos)\<close>
  moves the hole at \<open>pos\<close> down to a leaf, always to the smaller child (the right one
  unless the left is strictly smaller), puts the item there and sifts it down again.
  Both are loops that keep the moving item out of the list and write it back at the end;
  \<open>siftdown_boucle\<close> and \<open>siftup_boucle\<close> are those loops, with a \<open>measure\<close> as
  termination argument. \<open>heappop\<close> raises \<^verbatim>\<open>IndexError\<close> on an empty list.

  Shown here: every operation keeps the length (push adds one, pop removes one) and
  permutes the multiset of elements (push adds the item, pop removes the item it returns).
\<close>

function siftdown_boucle :: "('a \<Rightarrow> 'a \<Rightarrow> bool) \<Rightarrow> 'a \<Rightarrow> 'a list \<Rightarrow> nat \<Rightarrow> nat \<Rightarrow> 'a list \<times> nat" where
  "siftdown_boucle lt newitem heap startpos pos =
     (if startpos < pos then
        (let parentpos = (pos - 1) div 2; parent = heap ! parentpos in
         if lt newitem parent
         then siftdown_boucle lt newitem (heap[pos := parent]) startpos parentpos
         else (heap, pos))
      else (heap, pos))"
  by pat_completeness auto
termination
  by (relation "measure (\<lambda>(lt, newitem, heap, startpos, pos). pos)") auto

definition siftdown :: "('a \<Rightarrow> 'a \<Rightarrow> bool) \<Rightarrow> 'a list \<Rightarrow> nat \<Rightarrow> nat \<Rightarrow> 'a list" where
  "siftdown lt heap startpos pos =
     (let newitem = heap ! pos;
          (heap', pos') = siftdown_boucle lt newitem heap startpos pos
      in heap'[pos' := newitem])"

function siftup_boucle :: "('a \<Rightarrow> 'a \<Rightarrow> bool) \<Rightarrow> 'a list \<Rightarrow> nat \<Rightarrow> nat \<Rightarrow> nat \<Rightarrow> 'a list \<times> nat" where
  "siftup_boucle lt heap endpos pos childpos =
     (if childpos < endpos then
        (let rightpos = childpos + 1;
             childpos' = (if rightpos < endpos \<and> \<not> lt (heap ! childpos) (heap ! rightpos)
                          then rightpos else childpos)
         in siftup_boucle lt (heap[pos := heap ! childpos']) endpos childpos' (2 * childpos' + 1))
      else (heap, pos))"
  by pat_completeness auto
termination
  by (relation "measure (\<lambda>(lt, heap, endpos, pos, childpos). endpos - childpos)") auto

definition siftup :: "('a \<Rightarrow> 'a \<Rightarrow> bool) \<Rightarrow> 'a list \<Rightarrow> nat \<Rightarrow> 'a list" where
  "siftup lt heap pos =
     (let endpos = length heap; startpos = pos; newitem = heap ! pos;
          (heap', pos') = siftup_boucle lt heap endpos pos (2 * pos + 1)
      in siftdown lt (heap'[pos' := newitem]) startpos pos')"

definition heappush :: "('a \<Rightarrow> 'a \<Rightarrow> bool) \<Rightarrow> 'a list \<Rightarrow> 'a \<Rightarrow> 'a list" where
  "heappush lt heap item = siftdown lt (heap @ [item]) 0 (length heap)"

definition heappop :: "('a \<Rightarrow> 'a \<Rightarrow> bool) \<Rightarrow> 'a list \<Rightarrow> py_error + ('a \<times> 'a list)" where
  "heappop lt heap =
     (if heap = [] then Inl IndexError
      else
        (let lastelt = last heap; heap' = butlast heap in
         if heap' \<noteq> []
         then (let returnitem = heap' ! 0 in Inr (returnitem, siftup lt (heap'[0 := lastelt]) 0))
         else Inr (lastelt, heap')))"

definition heapify :: "('a \<Rightarrow> 'a \<Rightarrow> bool) \<Rightarrow> 'a list \<Rightarrow> 'a list" where
  "heapify lt x = foldl (\<lambda>heap i. siftup lt heap i) x (rev [0..<length x div 2])"

declare siftdown_boucle.simps [simp del] siftup_boucle.simps [simp del]

subsection \<open>Moving the hole keeps the multiset\<close>

lemma mset_hole_move:
  assumes "i < length h" "j < length h" "i \<noteq> j"
  shows "mset (h[i := h ! j, j := x]) = mset (h[i := x])"
proof -
  have "h[i := h ! j, j := x] = (h[i := x])[j := (h[i := x]) ! i, i := (h[i := x]) ! j]"
    using assms by (auto intro!: nth_equalityI simp: nth_list_update)
  also have "mset \<dots> = mset (h[i := x])"
    using assms by (intro mset_swap) simp_all
  finally show ?thesis .
qed

lemma siftdown_boucle_mset:
  "pos < length heap \<Longrightarrow> siftdown_boucle lt x heap s pos = (h', p') \<Longrightarrow>
   length h' = length heap \<and> p' \<le> pos \<and> mset (h'[p' := x]) = mset (heap[pos := x])"
proof (induction lt x heap s pos rule: siftdown_boucle.induct)
  case (1 lt x heap s pos)
  let ?pp = "(pos - 1) div 2"
  show ?case
  proof (cases "s < pos \<and> lt x (heap ! ?pp)")
    case True
    then have pp: "?pp < pos" by auto
    from True "1.prems"(2) have rec: "siftdown_boucle lt x (heap[pos := heap ! ?pp]) s ?pp = (h', p')"
      by (simp add: siftdown_boucle.simps [of lt x heap s pos] Let_def)
    from "1.prems"(1) pp have "?pp < length (heap[pos := heap ! ?pp])" by simp
    from "1.IH" [OF _ refl refl _ this rec] True
    have ih: "length h' = length heap \<and> p' \<le> ?pp \<and>
        mset (h'[p' := x]) = mset (heap[pos := heap ! ?pp, ?pp := x])"
      by simp
    moreover have "mset (heap[pos := heap ! ?pp, ?pp := x]) = mset (heap[pos := x])"
      using "1.prems"(1) pp by (intro mset_hole_move) auto
    ultimately show ?thesis using pp by simp
  next
    case False
    with "1.prems"(2) have "h' = heap \<and> p' = pos"
      by (auto simp: siftdown_boucle.simps [of lt x heap s pos] Let_def split: if_splits)
    then show ?thesis by simp
  qed
qed

lemma siftup_boucle_mset:
  "pos < endpos \<Longrightarrow> endpos = length heap \<Longrightarrow> pos < childpos \<Longrightarrow>
   siftup_boucle lt heap endpos pos childpos = (h', p') \<Longrightarrow>
   length h' = length heap \<and> p' < endpos \<and> mset (h'[p' := x]) = mset (heap[pos := x])"
proof (induction lt heap endpos pos childpos rule: siftup_boucle.induct)
  case (1 lt heap endpos pos childpos)
  let ?c = "if childpos + 1 < endpos \<and> \<not> lt (heap ! childpos) (heap ! (childpos + 1))
            then childpos + 1 else childpos"
  show ?case
  proof (cases "childpos < endpos")
    case True
    then have c: "?c < endpos" "pos < ?c" using "1.prems"(3) by auto
    from True "1.prems"(4)
    have rec: "siftup_boucle lt (heap[pos := heap ! ?c]) endpos ?c (2 * ?c + 1) = (h', p')"
      by (simp only: siftup_boucle.simps [of lt heap endpos pos childpos] Let_def if_True)
    from "1.IH" [OF True refl refl _ _ _ rec] c "1.prems"(2)
    have "length h' = length heap \<and> p' < endpos \<and>
        mset (h'[p' := x]) = mset (heap[pos := heap ! ?c, ?c := x])"
      by simp
    moreover have "mset (heap[pos := heap ! ?c, ?c := x]) = mset (heap[pos := x])"
      using "1.prems"(1,2) c by (intro mset_hole_move) auto
    ultimately show ?thesis by simp
  next
    case False
    from False "1.prems"(4) have "h' = heap \<and> p' = pos"
      by (simp add: siftup_boucle.simps [of lt heap endpos pos childpos])
    with "1.prems" show ?thesis by simp
  qed
qed

subsection \<open>Length and multiset of every operation\<close>

lemma siftdown_mset:
  assumes "pos < length heap"
  shows "length (siftdown lt heap s pos) = length heap \<and> mset (siftdown lt heap s pos) = mset heap"
proof -
  obtain h' p' where eq: "siftdown_boucle lt (heap ! pos) heap s pos = (h', p')"
    by (cases "siftdown_boucle lt (heap ! pos) heap s pos")
  from siftdown_boucle_mset [OF assms eq] assms
  have "length h' = length heap" "mset (h'[p' := heap ! pos]) = mset heap"
    by simp_all
  then show ?thesis by (simp add: siftdown_def eq)
qed

lemma siftup_mset:
  assumes "pos < length heap"
  shows "length (siftup lt heap pos) = length heap \<and> mset (siftup lt heap pos) = mset heap"
proof -
  obtain h' p' where eq: "siftup_boucle lt heap (length heap) pos (Suc (2 * pos)) = (h', p')"
    by (cases "siftup_boucle lt heap (length heap) pos (Suc (2 * pos))")
  from siftup_boucle_mset [OF assms refl _ eq, of "heap ! pos"] assms
  have h': "length h' = length heap" "p' < length heap" "mset (h'[p' := heap ! pos]) = mset heap"
    by simp_all
  then have "length (siftdown lt (h'[p' := heap ! pos]) pos p') = length heap \<and>
      mset (siftdown lt (h'[p' := heap ! pos]) pos p') = mset heap"
    using siftdown_mset [of p' "h'[p' := heap ! pos]" lt pos] by simp
  then show ?thesis by (simp add: siftup_def eq)
qed

lemma heappush_mset:
  "length (heappush lt heap item) = Suc (length heap) \<and>
   mset (heappush lt heap item) = add_mset item (mset heap)"
  using siftdown_mset [of "length heap" "heap @ [item]" lt 0] by (simp add: heappush_def)

lemma heappop_Nil [simp]: "heappop lt [] = Inl IndexError"
  by (simp add: heappop_def)

lemma heappop_mset:
  assumes "heappop lt heap = Inr (y, heap')"
  shows "mset heap = add_mset y (mset heap') \<and> Suc (length heap') = length heap"
proof -
  from assms have ne: "heap \<noteq> []" by (auto simp: heappop_def)
  let ?b = "butlast heap" and ?l = "last heap"
  have split: "heap = ?b @ [?l]" using ne by simp
  show ?thesis
  proof (cases "?b = []")
    case True
    from True split obtain l where hl: "heap = [l]" by (metis append_Nil)
    with assms show ?thesis by (simp add: heappop_def)
  next
    case False
    with assms ne have y: "y = ?b ! 0" and h': "heap' = siftup lt (?b[0 := ?l]) 0"
      by (auto simp: heappop_def Let_def)
    from False have b0: "0 < length ?b" by (simp only: length_greater_0_conv not_False_eq_True)
    then have "0 < length (?b[0 := ?l])" by simp
    from siftup_mset [OF this, of lt] h'
    have m: "mset heap' = mset (?b[0 := ?l])" and len: "length heap' = length ?b" by simp_all
    have "add_mset y (mset heap') = add_mset (?b ! 0) (add_mset ?l (mset ?b - {#?b ! 0#}))"
      by (simp add: y m mset_update [OF b0])
    also have "\<dots> = add_mset ?l (add_mset (?b ! 0) (mset ?b - {#?b ! 0#}))"
      by (rule add_mset_commute)
    also have "\<dots> = add_mset ?l (mset ?b)"
      using nth_mem_mset [OF b0] by (simp add: insert_DiffM)
    also have "\<dots> = mset heap"
      by (subst (2) split) simp
    finally show ?thesis using len ne by simp
  qed
qed

lemma heappop_ok: "heap \<noteq> [] \<Longrightarrow> \<exists>y heap'. heappop lt heap = Inr (y, heap')"
  by (auto simp: heappop_def Let_def)

lemma heapify_fold_mset:
  "\<forall>i \<in> set is. i < length x \<Longrightarrow>
   length (foldl (\<lambda>heap i. siftup lt heap i) x is) = length x \<and>
   mset (foldl (\<lambda>heap i. siftup lt heap i) x is) = mset x"
proof (induction "is" arbitrary: x)
  case (Cons i "is")
  from Cons.prems have "i < length x" by simp
  from siftup_mset [OF this, of lt] Cons.prems show ?case
    using Cons.IH [of "siftup lt x i"] by simp
qed simp

lemma heapify_mset: "length (heapify lt x) = length x \<and> mset (heapify lt x) = mset x"
  unfolding heapify_def by (rule heapify_fold_mset) auto

end
