(* ===== verification/Heapq_Ordre.thy ===== *)
theory Heapq_Ordre
  imports Heapq
begin

text \<open>
  The heap order of \<^verbatim>\<open>heapq\<close> and the priority queue it implements. The comparison
  is \<open>\<lambda>a b. key a < key b\<close> for a key into a linear order; \<open>noeud_lt\<close> is of
  that form with the key \<open>frequence\<close>. \<open>tas key h\<close> is the invariant the module
  documents (\<^verbatim>\<open>heap[k] <= heap[2*k+1]\<close> and \<^verbatim>\<open>heap[k] <= heap[2*k+2]\<close>),
  stated through the parent \<open>(i - 1) div 2\<close> of each position \<open>i > 0\<close>.

  The proofs follow the hole through the two sift loops. \<open>ancetre a i\<close> says that
  position \<open>a\<close> lies on the path from \<open>i\<close> to the root. \<open>ordonne_sauf key h s X\<close>
  says that the order holds between each position of the subtree of \<open>s\<close> and its
  parent, except at the positions \<open>X\<close> excludes. \<open>siftdown_boucle_tas\<close>
  (the item climbs) and \<open>siftup_boucle_tas\<close> (the hole descends to a leaf along the
  smaller children) carry that invariant through the loops, and show that only positions
  in the subtree of the start position change. From them: \<open>heapify\<close> builds a heap,
  \<open>heappush\<close> keeps one, and \<open>heappop\<close> keeps one and returns its smallest
  element. Together with the multiset lemmas of \<open>Heapq\<close>, this makes the module a
  priority queue on multisets; theory \<open>Construction\<close> states that contract for the
  heaps of the tree builders.
\<close>

fun ancetre :: "nat \<Rightarrow> nat \<Rightarrow> bool" where
  "ancetre a i = (if i \<le> a then i = a else ancetre a ((i - 1) div 2))"

definition tas :: "('a \<Rightarrow> 'b::linorder) \<Rightarrow> 'a list \<Rightarrow> bool" where
  "tas key h = (\<forall>i \<in> {1..<length h}. key (h ! ((i - 1) div 2)) \<le> key (h ! i))"

definition ordonne_sauf :: "('a \<Rightarrow> 'b::linorder) \<Rightarrow> 'a list \<Rightarrow> nat \<Rightarrow> (nat \<Rightarrow> bool) \<Rightarrow> bool" where
  "ordonne_sauf key h s X =
     (\<forall>i. 0 < i \<longrightarrow> i < length h \<longrightarrow> ancetre s ((i - 1) div 2) \<longrightarrow> \<not> X i \<longrightarrow>
        key (h ! ((i - 1) div 2)) \<le> key (h ! i))"

declare ancetre.simps [simp del]

subsection \<open>Positions and ancestors\<close>

lemma ancetre_refl [simp]: "ancetre a a"
  by (simp add: ancetre.simps)

lemma ancetre_le: "ancetre a i \<Longrightarrow> a \<le> i"
  by (induction a i rule: ancetre.induct) (metis ancetre.simps le_refl nat_le_linear order_trans)

lemma ancetre_parent: "ancetre a i \<Longrightarrow> i \<noteq> a \<Longrightarrow> ancetre a ((i - 1) div 2)"
  by (metis ancetre.simps ancetre_le le_antisym)

lemma ancetre_enfant: "ancetre a ((i - 1) div 2) \<Longrightarrow> 0 < i \<Longrightarrow> ancetre a i"
proof -
  assume h: "ancetre a ((i - 1) div 2)" and i: "0 < i"
  from ancetre_le [OF h] i have "a < i" by linarith
  with h show ?thesis by (simp add: ancetre.simps [of a i])
qed

lemma ancetre_parent_strict: "ancetre a ((i - 1) div 2) \<Longrightarrow> 0 < i \<Longrightarrow> a < i"
  using ancetre_le by fastforce

lemma parent_lt: "0 < i \<Longrightarrow> (i - 1) div 2 < (i::nat)"
  by arith

lemma enfants: "0 < (i::nat) \<Longrightarrow> (i - 1) div 2 = q \<Longrightarrow> i = 2 * q + 1 \<or> i = 2 * q + 2"
  by arith

subsection \<open>The invariant through the sift loops\<close>

lemma ordonne_sauf_D:
  "ordonne_sauf key h s X \<Longrightarrow> 0 < i \<Longrightarrow> i < length h \<Longrightarrow> (i - 1) div 2 = p \<Longrightarrow>
   ancetre s p \<Longrightarrow> \<not> X i \<Longrightarrow> key (h ! p) \<le> key (h ! i)"
  by (auto simp: ordonne_sauf_def)

lemma siftdown_boucle_tas:
  assumes "siftdown_boucle (\<lambda>a b. key a < key b) x h s q = (h', q')"
    and "q < length h" and "ancetre s q"
    and "ordonne_sauf key h s (\<lambda>i. i = q)"
    and "\<forall>i. 0 < i \<longrightarrow> i < length h \<longrightarrow> (i - 1) div 2 = q \<longrightarrow> key x \<le> key (h ! i)"
    and "q \<noteq> s \<longrightarrow> (\<forall>i. 0 < i \<longrightarrow> i < length h \<longrightarrow> (i - 1) div 2 = q \<longrightarrow>
           key (h ! ((q - 1) div 2)) \<le> key (h ! i))"
  shows "length h' = length h \<and> q' < length h \<and> ancetre s q' \<and>
    ordonne_sauf key (h'[q' := x]) s (\<lambda>i. False) \<and> (\<forall>j. \<not> ancetre s j \<longrightarrow> h' ! j = h ! j)"
  using assms
proof (induction "\<lambda>a b. key a < key b" x h s q arbitrary: h' q' rule: siftdown_boucle.induct)
  case (1 x h s q)
  let ?p = "(q - 1) div 2"
  show ?case
  proof (cases "s < q \<and> key x < key (h ! ?p)")
    case True
    then have p: "?p < q" "q \<noteq> s" by auto
    have ap: "ancetre s ?p" using ancetre_parent "1.prems"(3) p(2) .
    let ?h = "h[q := h ! ?p]"
    from True "1.prems"(1) have rec: "siftdown_boucle (\<lambda>a b. key a < key b) x ?h s ?p = (h', q')"
      by (simp add: siftdown_boucle.simps [of _ x h s q] Let_def)
    have o: "ordonne_sauf key ?h s (\<lambda>i. i = ?p)"
      unfolding ordonne_sauf_def
    proof (intro allI impI)
      fix i assume i: "0 < i" "i < length ?h" "ancetre s ((i - 1) div 2)" "\<not> i = ?p"
      show "key (?h ! ((i - 1) div 2)) \<le> key (?h ! i)"
      proof (cases "i = q")
        case True
        then show ?thesis using p "1.prems"(2) by simp
      next
        case False
        show ?thesis
        proof (cases "(i - 1) div 2 = q")
          case True
          with "1.prems"(6) p(2) i False show ?thesis by simp
        next
          case c2: False
          with "1.prems"(4) i False show ?thesis by (simp add: ordonne_sauf_def)
        qed
      qed
    qed
    have u3: "\<forall>i. 0 < i \<longrightarrow> i < length ?h \<longrightarrow> (i - 1) div 2 = ?p \<longrightarrow> key x \<le> key (?h ! i)"
    proof (intro allI impI)
      fix i assume i: "0 < i" "i < length ?h" "(i - 1) div 2 = ?p"
      show "key x \<le> key (?h ! i)"
      proof (cases "i = q")
        case False
        have "key (h ! ?p) \<le> key (h ! i)"
          using ordonne_sauf_D [OF "1.prems"(4) i(1) _ i(3) ap] i(2) False by simp
        with True False show ?thesis by simp (meson less_le_trans less_imp_le)
      qed (use True "1.prems"(2) in \<open>simp add: less_imp_le\<close>)
    qed
    have u4: "?p \<noteq> s \<longrightarrow> (\<forall>i. 0 < i \<longrightarrow> i < length ?h \<longrightarrow> (i - 1) div 2 = ?p \<longrightarrow>
           key (?h ! ((?p - 1) div 2)) \<le> key (?h ! i))"
    proof (intro allI impI)
      fix i assume ps: "?p \<noteq> s" and i: "0 < i" "i < length ?h" "(i - 1) div 2 = ?p"
      have pp0: "0 < ?p" using ps ancetre_le [OF ap] by auto
      have pp: "(?p - 1) div 2 < ?p" "0 < ?p" using parent_lt [OF pp0] pp0 by auto
      have "key (h ! ((?p - 1) div 2)) \<le> key (h ! ?p)"
        using "1.prems"(4) pp p "1.prems"(2) ancetre_parent [OF ap ps] by (simp add: ordonne_sauf_def)
      moreover have "key (h ! ?p) \<le> key (?h ! i)"
      proof (cases "i = q")
        case False
        then show ?thesis using ordonne_sauf_D [OF "1.prems"(4) i(1) _ i(3) ap] i(2) by simp
      qed (use "1.prems"(2) in simp)
      ultimately show "key (?h ! ((?p - 1) div 2)) \<le> key (?h ! i)" using pp p by simp
    qed
    have "length h' = length ?h \<and> q' < length ?h \<and> ancetre s q' \<and>
        ordonne_sauf key (h'[q' := x]) s (\<lambda>i. False) \<and> (\<forall>j. \<not> ancetre s j \<longrightarrow> h' ! j = ?h ! j)"
      using "1.hyps" [OF _ refl refl _ rec _ ap o u3 u4] True "1.prems"(2) p by simp
    moreover have "\<forall>j. \<not> ancetre s j \<longrightarrow> ?h ! j = h ! j"
      using "1.prems"(3) by (metis nth_list_update_neq)
    ultimately show ?thesis by simp
  next
    case False
    with "1.prems"(1) have r: "h' = h" "q' = q"
      by (auto simp: siftdown_boucle.simps [of _ x h s q] Let_def split: if_splits)
    have "ordonne_sauf key (h[q := x]) s (\<lambda>i. False)"
      unfolding ordonne_sauf_def
    proof (intro allI impI)
      fix i assume i: "0 < i" "i < length (h[q := x])" "ancetre s ((i - 1) div 2)"
      show "key (h[q := x] ! ((i - 1) div 2)) \<le> key (h[q := x] ! i)"
      proof (cases "i = q")
        case True
        with i have "s < q" "(i - 1) div 2 < i" using ancetre_parent_strict by auto
        with False True "1.prems"(2) show ?thesis by simp
      next
        case iq: False
        show ?thesis
        proof (cases "(i - 1) div 2 = q")
          case True
          with "1.prems"(5) i iq show ?thesis by simp
        next
          case False
          with "1.prems"(4) i iq show ?thesis by (simp add: ordonne_sauf_def)
        qed
      qed
    qed
    with r "1.prems"(2,3) show ?thesis by simp
  qed
qed

lemma enfant_min:
  fixes key :: "'a \<Rightarrow> 'b::linorder"
  assumes "c = 2 * q + 1" and "c < length h"
    and "c' = (if c + 1 < length h \<and> \<not> key (h ! c) < key (h ! (c + 1)) then c + 1 else c)"
  shows "(c' - 1) div 2 = q \<and> q < c' \<and> c' < length h \<and>
    (\<forall>i. 0 < i \<longrightarrow> i < length h \<longrightarrow> (i - 1) div 2 = q \<longrightarrow> key (h ! c') \<le> key (h ! i))"
proof -
  have "key (h ! c') \<le> key (h ! i)" if "0 < i" "i < length h" "(i - 1) div 2 = q" for i
  proof -
    from enfants [OF that(1,3)] assms(1) have "i = c \<or> i = c + 1" by simp
    then show ?thesis using assms that(2) by (auto simp: not_less less_imp_le)
  qed
  then show ?thesis using assms by auto
qed

lemma siftup_boucle_tas:
  assumes "siftup_boucle (\<lambda>a b. key a < key b) h endpos q c = (h', q')"
    and "endpos = length h" and "c = 2 * q + 1" and "q < length h" and "ancetre s q"
    and "ordonne_sauf key h s (\<lambda>i. i = q \<or> (i - 1) div 2 = q)"
    and "q \<noteq> s \<longrightarrow> (\<forall>i. 0 < i \<longrightarrow> i < length h \<longrightarrow> (i - 1) div 2 = q \<longrightarrow>
           key (h ! ((q - 1) div 2)) \<le> key (h ! i))"
  shows "length h' = length h \<and> q' < length h \<and> length h \<le> 2 * q' + 1 \<and> ancetre s q' \<and>
    ordonne_sauf key h' s (\<lambda>i. i = q' \<or> (i - 1) div 2 = q') \<and> (\<forall>j. \<not> ancetre s j \<longrightarrow> h' ! j = h ! j)"
  using assms
proof (induction "\<lambda>a b. key a < key b" h endpos q c arbitrary: h' q' rule: siftup_boucle.induct)
  case (1 h endpos q c)
  show ?case
  proof (cases "c < endpos")
    case True
    define c' where "c' = (if c + 1 < endpos \<and> \<not> key (h ! c) < key (h ! (c + 1)) then c + 1 else c)"
    have m: "(c' - 1) div 2 = q" "q < c'" "c' < length h"
      "\<forall>i. 0 < i \<longrightarrow> i < length h \<longrightarrow> (i - 1) div 2 = q \<longrightarrow> key (h ! c') \<le> key (h ! i)"
      using enfant_min [OF "1.prems"(3) _ c'_def [unfolded "1.prems"(2)]] True "1.prems"(2) by auto
    let ?h = "h[q := h ! c']"
    from True "1.prems"(1) have rec: "siftup_boucle (\<lambda>a b. key a < key b) ?h endpos c' (2 * c' + 1) = (h', q')"
      by (simp only: siftup_boucle.simps [of _ h endpos q c] Let_def if_True c'_def)
    have ac: "ancetre s c'" using ancetre_enfant [of s c'] m(1,2) "1.prems"(5) by simp
    have o: "ordonne_sauf key ?h s (\<lambda>i. i = c' \<or> (i - 1) div 2 = c')"
      unfolding ordonne_sauf_def
    proof (intro allI impI)
      fix i assume i: "0 < i" "i < length ?h" "ancetre s ((i - 1) div 2)" "\<not> (i = c' \<or> (i - 1) div 2 = c')"
      show "key (?h ! ((i - 1) div 2)) \<le> key (?h ! i)"
      proof (cases "i = q")
        case True
        then have "q \<noteq> s" "(q - 1) div 2 < q" using i(1,3) ancetre_parent_strict parent_lt by auto
        with "1.prems"(7) m True "1.prems"(4) show ?thesis by simp
      next
        case iq: False
        show ?thesis
        proof (cases "(i - 1) div 2 = q")
          case True
          with m(4) i iq "1.prems"(4) show ?thesis by simp
        next
          case False
          then show ?thesis
            using ordonne_sauf_D [OF "1.prems"(6) i(1) _ refl i(3)] i(2,4) iq by simp
        qed
      qed
    qed
    have u: "c' \<noteq> s \<longrightarrow> (\<forall>i. 0 < i \<longrightarrow> i < length ?h \<longrightarrow> (i - 1) div 2 = c' \<longrightarrow>
           key (?h ! ((c' - 1) div 2)) \<le> key (?h ! i))"
    proof (intro allI impI)
      fix i assume i: "0 < i" "i < length ?h" "(i - 1) div 2 = c'"
      then have "q < i" using m(2) parent_lt [OF i(1)] by simp
      moreover have "(i - 1) div 2 \<noteq> q" using i(3) m(2) by simp
      moreover have "key (h ! c') \<le> key (h ! i)"
        using ordonne_sauf_D [OF "1.prems"(6) i(1) _ i(3) ac] i(2) calculation by simp
      ultimately show "key (?h ! ((c' - 1) div 2)) \<le> key (?h ! i)" using m(1) "1.prems"(4) by simp
    qed
    have "length h' = length ?h \<and> q' < length ?h \<and> length ?h \<le> 2 * q' + 1 \<and> ancetre s q' \<and>
        ordonne_sauf key h' s (\<lambda>i. i = q' \<or> (i - 1) div 2 = q') \<and> (\<forall>j. \<not> ancetre s j \<longrightarrow> h' ! j = ?h ! j)"
      using "1.hyps" [OF True refl refl, folded c'_def, OF rec] "1.prems"(2) m(3) ac o u by simp
    moreover have "\<forall>j. \<not> ancetre s j \<longrightarrow> ?h ! j = h ! j"
      using "1.prems"(5) by (metis nth_list_update_neq)
    ultimately show ?thesis by simp
  next
    case False
    with "1.prems"(1) have "h' = h \<and> q' = q" by (simp add: siftup_boucle.simps [of _ h endpos q c])
    with False "1.prems" show ?thesis by simp
  qed
qed

subsection \<open>The operations keep the heap order\<close>

lemma ancetre_0 [simp]: "ancetre 0 i"
  by (induction i rule: less_induct) (metis ancetre.simps le_0_eq parent_lt gr0I)

lemma tas_ordonne_sauf: "tas key h = ordonne_sauf key h 0 (\<lambda>i. False)"
  by (auto simp: tas_def ordonne_sauf_def)

lemma ordonne_sauf_mono:
  "ordonne_sauf key h s X \<Longrightarrow> (\<And>i. X i \<Longrightarrow> Y i) \<Longrightarrow> ordonne_sauf key h s Y"
  by (auto simp: ordonne_sauf_def)

lemma ordonne_sauf_feuille:
  assumes "ordonne_sauf key h s (\<lambda>i. i = q \<or> (i - 1) div 2 = q)" and "length h \<le> 2 * q + 1"
  shows "ordonne_sauf key (h[q := x]) s (\<lambda>i. i = q)"
  unfolding ordonne_sauf_def
proof (intro allI impI)
  fix i assume i: "0 < i" "i < length (h[q := x])" "ancetre s ((i - 1) div 2)" "\<not> i = q"
  have "(i - 1) div 2 \<noteq> q" using i(1,2) assms(2) by auto
  with ordonne_sauf_D [OF assms(1) i(1) _ refl i(3)] i(2,4) show "key (h[q := x] ! ((i - 1) div 2)) \<le> key (h[q := x] ! i)"
    by simp
qed

lemma siftup_tas:
  fixes key :: "'a \<Rightarrow> 'b::linorder"
  assumes "pos < length h" and "ordonne_sauf key h pos (\<lambda>i. (i - 1) div 2 = pos)"
  shows "length (siftup (\<lambda>a b. key a < key b) h pos) = length h \<and>
    ordonne_sauf key (siftup (\<lambda>a b. key a < key b) h pos) pos (\<lambda>i. False) \<and>
    (\<forall>j. \<not> ancetre pos j \<longrightarrow> siftup (\<lambda>a b. key a < key b) h pos ! j = h ! j)"
proof -
  let ?lt = "\<lambda>a b. key a < key b" and ?x = "h ! pos"
  obtain h' q' where b: "siftup_boucle ?lt h (length h) pos (Suc (2 * pos)) = (h', q')"
    by (cases "siftup_boucle ?lt h (length h) pos (Suc (2 * pos))")
  have o: "ordonne_sauf key h pos (\<lambda>i. i = pos \<or> (i - 1) div 2 = pos)"
    using assms(2) by (rule ordonne_sauf_mono) simp
  from siftup_boucle_tas [OF b refl _ assms(1) ancetre_refl o] 
  have h': "length h' = length h" "q' < length h" "length h \<le> 2 * q' + 1" "ancetre pos q'"
    "ordonne_sauf key h' pos (\<lambda>i. i = q' \<or> (i - 1) div 2 = q')" "\<forall>j. \<not> ancetre pos j \<longrightarrow> h' ! j = h ! j"
    by simp_all
  let ?h0 = "h'[q' := ?x]"
  obtain h2 q2 where b2: "siftdown_boucle ?lt ?x ?h0 pos q' = (h2, q2)"
    by (cases "siftdown_boucle ?lt ?x ?h0 pos q'")
  have u3: "\<forall>i. 0 < i \<longrightarrow> i < length ?h0 \<longrightarrow> (i - 1) div 2 = q' \<longrightarrow> key ?x \<le> key (?h0 ! i)"
    using h'(1,3) by auto
  have u4: "q' \<noteq> pos \<longrightarrow> (\<forall>i. 0 < i \<longrightarrow> i < length ?h0 \<longrightarrow> (i - 1) div 2 = q' \<longrightarrow>
      key (?h0 ! ((q' - 1) div 2)) \<le> key (?h0 ! i))"
    using h'(1,3) by auto
  from siftdown_boucle_tas [OF b2 _ h'(4) ordonne_sauf_feuille [OF h'(5)] u3 u4] h'(1,2,3)
  have r: "length h2 = length h" "ordonne_sauf key (h2[q2 := ?x]) pos (\<lambda>i. False)" "ancetre pos q2"
    "\<forall>j. \<not> ancetre pos j \<longrightarrow> h2 ! j = ?h0 ! j"
    by simp_all
  have s: "siftup ?lt h pos = h2[q2 := ?x]"
    using h'(1,2) by (simp add: siftup_def b siftdown_def b2)
  have "\<forall>j. \<not> ancetre pos j \<longrightarrow> h2[q2 := ?x] ! j = h ! j"
    using r(3,4) h'(4,6) by (metis nth_list_update_neq)
  with r s show ?thesis by simp
qed

lemma tas_min:
  fixes key :: "'a \<Rightarrow> 'b::linorder"
  shows "tas key h \<Longrightarrow> i < length h \<Longrightarrow> key (h ! 0) \<le> key (h ! i)"
proof (induction i rule: less_induct)
  case (less i)
  show ?case
  proof (cases "i = 0")
    case False
    then have "(i - 1) div 2 < i" "0 < i" by (simp_all add: parent_lt)
    with less have "key (h ! 0) \<le> key (h ! ((i - 1) div 2))" by simp
    also have "\<dots> \<le> key (h ! i)" using less.prems \<open>0 < i\<close> by (simp add: tas_def)
    finally show ?thesis .
  qed simp
qed

lemma heappush_tas:
  fixes key :: "'a \<Rightarrow> 'b::linorder"
  assumes "tas key h"
  shows "tas key (heappush (\<lambda>a b. key a < key b) h x)"
proof -
  let ?lt = "\<lambda>a b. key a < key b" and ?h0 = "h @ [x]" and ?n = "length h"
  obtain h2 q2 where b: "siftdown_boucle ?lt x ?h0 0 ?n = (h2, q2)"
    by (cases "siftdown_boucle ?lt x ?h0 0 ?n")
  have o: "ordonne_sauf key ?h0 0 (\<lambda>i. i = ?n)"
    unfolding ordonne_sauf_def
  proof (intro allI impI)
    fix i assume i: "0 < i" "i < length ?h0" "ancetre 0 ((i - 1) div 2)" "\<not> i = ?n"
    then have "i < ?n" "(i - 1) div 2 < ?n" using parent_lt [OF i(1)] by auto
    with assms i(1) show "key (?h0 ! ((i - 1) div 2)) \<le> key (?h0 ! i)"
      by (simp add: tas_def nth_append)
  qed
  have u3: "\<forall>i. 0 < i \<longrightarrow> i < length ?h0 \<longrightarrow> (i - 1) div 2 = ?n \<longrightarrow> key x \<le> key (?h0 ! i)"
    by auto
  have u4: "?n \<noteq> 0 \<longrightarrow> (\<forall>i. 0 < i \<longrightarrow> i < length ?h0 \<longrightarrow> (i - 1) div 2 = ?n \<longrightarrow>
      key (?h0 ! ((?n - 1) div 2)) \<le> key (?h0 ! i))"
    by auto
  from siftdown_boucle_tas [OF b _ ancetre_0 o u3 u4]
  have "ordonne_sauf key (h2[q2 := x]) 0 (\<lambda>i. False)" by simp
  then show ?thesis by (simp add: heappush_def siftdown_def b tas_ordonne_sauf)
qed

lemma heappop_tas:
  fixes key :: "'a \<Rightarrow> 'b::linorder"
  assumes "tas key h" and "heappop (\<lambda>a b. key a < key b) h = Inr (y, h')"
  shows "tas key h' \<and> (\<forall>z \<in> set h. key y \<le> key z)"
proof -
  from assms(2) have ne: "h \<noteq> []" by (auto simp: heappop_def)
  have y0: "y = h ! 0"
  proof (cases "butlast h = []")
    case True
    with ne obtain l where "h = [l]" by (metis append_butlast_last_id append_Nil)
    with assms(2) show ?thesis by (simp add: heappop_def)
  next
    case False
    then have "butlast h ! 0 = h ! 0" by (simp add: nth_butlast length_greater_0_conv [symmetric] del: length_greater_0_conv)
    with assms(2) ne False show ?thesis by (auto simp: heappop_def Let_def)
  qed
  have "key y \<le> key z" if "z \<in> set h" for z
    using tas_min [OF assms(1)] that y0 by (metis in_set_conv_nth)
  moreover have "tas key h'"
  proof (cases "butlast h = []")
    case True
    with assms(2) ne show ?thesis by (auto simp: heappop_def tas_def)
  next
    case False
    let ?b = "butlast h"
    from assms(2) ne False have h': "h' = siftup (\<lambda>a b. key a < key b) (?b[0 := last h]) 0"
      by (auto simp: heappop_def Let_def)
    have o: "ordonne_sauf key (?b[0 := last h]) 0 (\<lambda>i. (i - 1) div 2 = 0)"
      unfolding ordonne_sauf_def
    proof (intro allI impI)
      fix i assume i: "0 < i" "i < length (?b[0 := last h])" "ancetre 0 ((i - 1) div 2)"
        "\<not> (i - 1) div 2 = 0"
      then have "key (h ! ((i - 1) div 2)) \<le> key (h ! i)"
        using assms(1) by (auto simp: tas_def)
      with i show "key (?b[0 := last h] ! ((i - 1) div 2)) \<le> key (?b[0 := last h] ! i)"
        using parent_lt [OF i(1)] by (simp add: nth_butlast)
    qed
    from False have "0 < length (?b[0 := last h])" by (simp only: length_list_update length_greater_0_conv not_False_eq_True)
    from siftup_tas [OF this o] h' show ?thesis by (simp add: tas_ordonne_sauf)
  qed
  ultimately show ?thesis by blast
qed

lemma heapify_pas:
  fixes key :: "'a \<Rightarrow> 'b::linorder"
  assumes "k < length h"
    and "\<forall>i. 0 < i \<longrightarrow> i < length h \<longrightarrow> Suc k \<le> (i - 1) div 2 \<longrightarrow> key (h ! ((i - 1) div 2)) \<le> key (h ! i)"
  shows "\<forall>i. 0 < i \<longrightarrow> i < length h \<longrightarrow> k \<le> (i - 1) div 2 \<longrightarrow>
    key (siftup (\<lambda>a b. key a < key b) h k ! ((i - 1) div 2)) \<le> key (siftup (\<lambda>a b. key a < key b) h k ! i)"
proof (intro allI impI)
  let ?h = "siftup (\<lambda>a b. key a < key b) h k"
  fix i assume i: "0 < i" "i < length h" "k \<le> (i - 1) div 2"
  have o: "ordonne_sauf key h k (\<lambda>i. (i - 1) div 2 = k)"
    unfolding ordonne_sauf_def using assms(2) ancetre_le by (metis le_neq_implies_less Suc_leI)
  from siftup_tas [OF assms(1) o]
  have r: "length ?h = length h" "ordonne_sauf key ?h k (\<lambda>i. False)" "\<forall>j. \<not> ancetre k j \<longrightarrow> ?h ! j = h ! j"
    by simp_all
  show "key (?h ! ((i - 1) div 2)) \<le> key (?h ! i)"
  proof (cases "ancetre k ((i - 1) div 2)")
    case True
    with r(1,2) i show ?thesis by (simp add: ordonne_sauf_def)
  next
    case False
    then have "\<not> ancetre k i" using ancetre_parent [of k i] i(1,3) parent_lt [OF i(1)] by auto
    moreover have "Suc k \<le> (i - 1) div 2" using False i(3) by (metis ancetre_refl le_neq_implies_less Suc_leI)
    ultimately show ?thesis using r(3) False assms(2) i(1,2) by simp
  qed
qed

lemma heapify_fold_tas:
  fixes key :: "'a \<Rightarrow> 'b::linorder"
  assumes "k \<le> length h"
    and "\<forall>i. 0 < i \<longrightarrow> i < length h \<longrightarrow> k \<le> (i - 1) div 2 \<longrightarrow> key (h ! ((i - 1) div 2)) \<le> key (h ! i)"
  shows "tas key (foldl (\<lambda>heap i. siftup (\<lambda>a b. key a < key b) heap i) h (rev [0..<k]))"
  using assms
proof (induction k arbitrary: h)
  case 0
  then show ?case by (simp add: tas_def)
next
  case (Suc k)
  let ?h = "siftup (\<lambda>a b. key a < key b) h k"
  from Suc.prems(1) have k: "k < length h" by simp
  have "length ?h = length h" using siftup_mset [OF k] by simp
  with heapify_pas [OF k Suc.prems(2)] k Suc.IH [of ?h] show ?case by simp
qed

lemma heapify_tas:
  fixes key :: "'a \<Rightarrow> 'b::linorder"
  shows "tas key (heapify (\<lambda>a b. key a < key b) h)"
  unfolding heapify_def by (rule heapify_fold_tas) auto


end
