(* ===== verification/Construction.thy ===== *)
theory Construction
  imports Frequences Heapq_Ordre
begin

text \<open>
  The Huffman tree builders (the popped nodes \<^verbatim>\<open>gauche\<close> and \<^verbatim>\<open>droit\<close> are
  \<open>g\<close> and \<open>d\<close> here, the field selectors of \<open>noeud\<close> having those names). Both packages run the same loop:
  \<^verbatim>\<open>while len(heap) > 1\<close>, pop the two nodes of least frequency, push a parent node
  with no symbol, their frequency sum and the two as children (\<^verbatim>\<open>src/construction_arbre.py\<close>,
  \<^verbatim>\<open>construire_arbre_huffman\<close>; \<^verbatim>\<open>src/huffman/construction_arbre.py\<close>,
  \<^verbatim>\<open>construire_arbre\<close>). \<open>boucle_fusion\<close> is that loop; each iteration shortens the
  heap by one, which is its termination measure. The two pops sit under the loop guard, so
  their \<^verbatim>\<open>IndexError\<close> branch is modelled but never taken (\<open>boucle_fusion_termine\<close>).
  The builders differ on empty input: \<open>construire_arbre_huffman\<close> returns \<^verbatim>\<open>None\<close>,
  \<open>construire_arbre\<close> reads \<^verbatim>\<open>heap[0]\<close> of an empty list and raises
  \<^verbatim>\<open>IndexError\<close>.

  The loop invariant: every tree of the heap is full, coherent (inner frequency = sum of
  the children's) and has positive frequencies (\<open>inv_noeud\<close>), and the multiset of all
  leaves of the heap (\<open>feuilles_tas\<close>) does not change.

  The abstract algorithm: \<open>fusion_minimale F F'\<close> is one step of Huffman's algorithm on a
  multiset of trees. It takes out a tree \<open>g\<close> of least frequency, then a tree \<open>d\<close>
  of least frequency among the rest, and puts back their parent. Because the heap keeps
  the heap order (theory \<open>Heapq_Ordre\<close>), every iteration of \<open>boucle_fusion\<close> is
  such a step (\<open>boucle_fusion_glouton\<close>). Ties are left open by the relation and
  settled in the code by the positions in the heap.
\<close>

function boucle_fusion :: "'c noeud list \<Rightarrow> py_error + 'c noeud list" where
  "boucle_fusion heap =
     (if 1 < length heap then
        (case heappop noeud_lt heap of
           Inl e \<Rightarrow> Inl e
         | Inr (g, heap1) \<Rightarrow>
             (case heappop noeud_lt heap1 of
                Inl e \<Rightarrow> Inl e
              | Inr (d, heap2) \<Rightarrow>
                  boucle_fusion (heappush noeud_lt heap2
                    (Noeud None (frequence g + frequence d) (Some g) (Some d)))))
      else Inr heap)"
  by pat_completeness auto
termination
proof (relation "measure length")
  fix heap :: "'c noeud list" and x2 g heap1 x2a d heap2
  assume p1: "heappop noeud_lt heap = Inr x2" "(g, heap1) = x2"
    and p2: "heappop noeud_lt heap1 = Inr x2a" "(d, heap2) = x2a"
  from p1 have "Suc (length heap1) = length heap" using heappop_mset by fastforce
  moreover from p2 have "Suc (length heap2) = length heap1" using heappop_mset by fastforce
  ultimately
  show "(heappush noeud_lt heap2
      (Noeud None (frequence g + frequence d) (Some g) (Some d)), heap)
    \<in> measure length"
    by (simp add: heappush_mset)
qed simp

definition construire_arbre_huffman :: "'c noeud list \<Rightarrow> py_error + 'c noeud option" where
  "construire_arbre_huffman noeuds_feuilles =
     (if noeuds_feuilles = [] then Inr None
      else
        (case boucle_fusion (heapify noeud_lt noeuds_feuilles) of
           Inl e \<Rightarrow> Inl e
         | Inr heap \<Rightarrow> (case heap of [] \<Rightarrow> Inl IndexError | racine # _ \<Rightarrow> Inr (Some racine))))"

definition construire_arbre :: "('c, int) dict \<Rightarrow> py_error + 'c noeud" where
  "construire_arbre frequences =
     (case boucle_fusion (heapify noeud_lt (map (\<lambda>(c, f). Noeud (Some c) f None None) frequences)) of
        Inl e \<Rightarrow> Inl e
      | Inr heap \<Rightarrow> (case heap of [] \<Rightarrow> Inl IndexError | racine # _ \<Rightarrow> Inr racine))"

definition inv_noeud :: "'c noeud \<Rightarrow> bool" where
  "inv_noeud t = (arbre_plein t \<and> coherent t \<and> freq_positives t)"

definition feuilles_tas :: "'c noeud list \<Rightarrow> ('c \<times> int) multiset" where
  "feuilles_tas heap = \<Sum>\<^sub># (image_mset (\<lambda>t. mset (feuilles t)) (mset heap))"

inductive fusion_minimale :: "'c noeud multiset \<Rightarrow> 'c noeud multiset \<Rightarrow> bool" where
  etape: "F = add_mset g (add_mset d R) \<Longrightarrow>
    (\<forall>t \<in># add_mset d R. frequence g \<le> frequence t) \<Longrightarrow> (\<forall>t \<in># R. frequence d \<le> frequence t) \<Longrightarrow>
    fusion_minimale F (add_mset (Noeud None (frequence g + frequence d) (Some g) (Some d)) R)"

declare boucle_fusion.simps [simp del]

lemma noeud_lt_cle: "noeud_lt = (\<lambda>a b. frequence a < frequence b)"
  by (simp add: noeud_lt_def fun_eq_iff)

text \<open>
  One iteration of the loop on a heap of two trees or more: both pops succeed, and the
  loop goes on with the parent of the two popped trees pushed onto the rest.
\<close>

lemma boucle_fusion_pas:
  assumes "1 < length heap"
  obtains g h1 d h2 where "heappop noeud_lt heap = Inr (g, h1)" "heappop noeud_lt h1 = Inr (d, h2)"
    "mset heap = add_mset g (mset h1)" "mset h1 = add_mset d (mset h2)"
    "boucle_fusion heap =
       boucle_fusion (heappush noeud_lt h2 (Noeud None (frequence g + frequence d) (Some g) (Some d)))"
proof -
  from assms have "heap \<noteq> []" by auto
  then obtain g h1 where p1: "heappop noeud_lt heap = Inr (g, h1)"
    using heappop_ok [of heap noeud_lt] by blast
  from heappop_mset [OF p1] assms have "h1 \<noteq> []" by auto
  then obtain d h2 where p2: "heappop noeud_lt h1 = Inr (d, h2)"
    using heappop_ok [of h1 noeud_lt] by blast
  have "boucle_fusion heap =
      boucle_fusion (heappush noeud_lt h2 (Noeud None (frequence g + frequence d) (Some g) (Some d)))"
    using assms p1 p2 by (simp add: boucle_fusion.simps [of heap])
  with p1 p2 heappop_mset [OF p1] heappop_mset [OF p2] that show ?thesis by blast
qed

subsection \<open>The loop invariant\<close>

lemma freq_positives_frequence: "freq_positives t \<Longrightarrow> 0 < frequence t"
  by (cases t) auto

lemma inv_noeud_fusion:
  "inv_noeud g \<Longrightarrow> inv_noeud d \<Longrightarrow>
   inv_noeud (Noeud None (frequence g + frequence d) (Some g) (Some d))"
  using freq_positives_frequence [of g] freq_positives_frequence [of d]
  by (auto simp: inv_noeud_def)

lemma feuilles_tas_list: "feuilles_tas heap = mset (concat (map feuilles heap))"
  by (induction heap) (auto simp: feuilles_tas_def)

lemma feuilles_tas_perm: "mset heap = mset heap' \<Longrightarrow> feuilles_tas heap = feuilles_tas heap'"
  by (simp add: feuilles_tas_def)

lemma feuilles_tas_add: "mset heap = add_mset y (mset heap') \<Longrightarrow>
   feuilles_tas heap = mset (feuilles y) + feuilles_tas heap'"
  by (simp add: feuilles_tas_def)

lemma set_heappop: "heappop lt heap = Inr (y, heap') \<Longrightarrow> set heap = insert y (set heap')"
  by (metis heappop_mset set_mset_add_mset_insert set_mset_mset)

lemma set_heappush: "set (heappush lt heap x) = insert x (set heap)"
  by (metis heappush_mset set_mset_add_mset_insert set_mset_mset)

text \<open>
  One run of the loop from a non-empty heap of valid trees ends with a single valid tree
  whose leaves are all the leaves of the heap; no pop of the loop fails.
\<close>

lemma boucle_fusion_inv:
  "\<forall>t \<in> set heap. inv_noeud t \<Longrightarrow> heap \<noteq> [] \<Longrightarrow>
   \<exists>r. boucle_fusion heap = Inr [r] \<and> inv_noeud r \<and> mset (feuilles r) = feuilles_tas heap"
proof (induction heap rule: boucle_fusion.induct)
  case (1 heap)
  show ?case
  proof (cases "1 < length heap")
    case False
    with "1.prems"(2) obtain r where r: "heap = [r]"
      by (cases heap) auto
    with "1.prems"(1) show ?thesis
      by (simp add: boucle_fusion.simps [of "[r]"] feuilles_tas_def)
  next
    case True
    then obtain g h1 d h2 where p1: "heappop noeud_lt heap = Inr (g, h1)"
      and p2: "heappop noeud_lt h1 = Inr (d, h2)"
      and m1: "mset heap = add_mset g (mset h1)" and m2: "mset h1 = add_mset d (mset h2)"
      and step: "boucle_fusion heap =
        boucle_fusion (heappush noeud_lt h2 (Noeud None (frequence g + frequence d) (Some g) (Some d)))"
      by (rule boucle_fusion_pas)
    let ?m = "Noeud None (frequence g + frequence d) (Some g) (Some d)"
    let ?h = "heappush noeud_lt h2 ?m"
    have sets: "set heap = insert g (insert d (set h2))"
      using set_heappop [OF p1] set_heappop [OF p2] by simp
    with "1.prems"(1) have "inv_noeud ?m"
      by (simp add: inv_noeud_fusion)
    with "1.prems"(1) sets have inv: "\<forall>t \<in> set ?h. inv_noeud t"
      by (simp add: set_heappush)
    have ne: "?h \<noteq> []" by (simp add: set_heappush flip: set_empty)
    from "1.IH" [OF True p1 refl p2 refl inv ne]
    obtain r where r: "boucle_fusion ?h = Inr [r]" "inv_noeud r"
      "mset (feuilles r) = feuilles_tas ?h" by blast
    have "feuilles_tas ?h = mset (feuilles ?m) + feuilles_tas h2"
      using heappush_mset [of noeud_lt h2 ?m] by (simp add: feuilles_tas_add)
    also have "\<dots> = feuilles_tas heap"
      using feuilles_tas_add [OF m1] feuilles_tas_add [OF m2] by simp
    finally show ?thesis using r step by simp
  qed
qed

text \<open>
  On a heap ordered by frequency, the loop is a run of the abstract algorithm: the
  multiset of its final heap is reached from the multiset of the initial heap by steps of
  \<open>fusion_minimale\<close>.
\<close>

lemma boucle_fusion_glouton:
  "tas frequence heap \<Longrightarrow>
   \<exists>heap'. boucle_fusion heap = Inr heap' \<and> fusion_minimale\<^sup>*\<^sup>* (mset heap) (mset heap') \<and>
     length heap' = min 1 (length heap)"
proof (induction heap rule: boucle_fusion.induct)
  case (1 heap)
  show ?case
  proof (cases "1 < length heap")
    case False
    then show ?thesis by (auto simp: boucle_fusion.simps [of heap] min_def)
  next
    case True
    then obtain g h1 d h2 where p1: "heappop noeud_lt heap = Inr (g, h1)"
      and p2: "heappop noeud_lt h1 = Inr (d, h2)"
      and m1: "mset heap = add_mset g (mset h1)" and m2: "mset h1 = add_mset d (mset h2)"
      and step: "boucle_fusion heap =
        boucle_fusion (heappush noeud_lt h2 (Noeud None (frequence g + frequence d) (Some g) (Some d)))"
      by (rule boucle_fusion_pas)
    let ?m = "Noeud None (frequence g + frequence d) (Some g) (Some d)"
    from heappop_tas [OF "1.prems" p1 [unfolded noeud_lt_cle]]
    have t1: "tas frequence h1" and g: "\<forall>z \<in> set heap. frequence g \<le> frequence z" by simp_all
    from heappop_tas [OF t1 p2 [unfolded noeud_lt_cle]]
    have t2: "tas frequence h2" and d: "\<forall>z \<in> set h1. frequence d \<le> frequence z" by simp_all
    have "fusion_minimale (mset heap) (add_mset ?m (mset h2))"
    proof (rule fusion_minimale.etape)
      show "mset heap = add_mset g (add_mset d (mset h2))" using m1 m2 by simp
      show "\<forall>t \<in># add_mset d (mset h2). frequence g \<le> frequence t"
        using g m1 m2 by (metis set_mset_mset union_single_eq_member mset_subset_eq_single
            set_mset_add_mset_insert insert_iff)
      show "\<forall>t \<in># mset h2. frequence d \<le> frequence t"
        using d m2 by (metis set_mset_mset set_mset_add_mset_insert insert_iff)
    qed
    moreover have "mset (heappush noeud_lt h2 ?m) = add_mset ?m (mset h2)"
      by (simp add: heappush_mset)
    moreover from heappush_tas [OF t2, of ?m] have "tas frequence (heappush noeud_lt h2 ?m)"
      by (simp add: noeud_lt_cle)
    with "1.IH" [OF True p1 refl p2 refl] obtain heap' where
      r: "boucle_fusion (heappush noeud_lt h2 ?m) = Inr heap'"
      "fusion_minimale\<^sup>*\<^sup>* (mset (heappush noeud_lt h2 ?m)) (mset heap')"
      "length heap' = min 1 (length (heappush noeud_lt h2 ?m))" by blast
    ultimately have "fusion_minimale\<^sup>*\<^sup>* (mset heap) (mset heap')"
      by (metis converse_rtranclp_into_rtranclp)
    moreover have "length heap' = min 1 (length heap)"
      using r(3) True by (simp add: heappush_mset min_def)
    ultimately show ?thesis using step r(1) by simp
  qed
qed

lemma boucle_fusion_Nil: "boucle_fusion [] = Inr []"
  by (simp add: boucle_fusion.simps)

subsection \<open>From a frequency table to one tree\<close>

lemma construction_ok:
  assumes "frequences \<noteq> []" and "\<And>c n. (c, n) \<in> set frequences \<Longrightarrow> 0 < n"
  shows "\<exists>r. boucle_fusion (heapify noeud_lt (creer_noeuds_feuilles frequences)) = Inr [r] \<and>
     inv_noeud r \<and> mset (feuilles r) = mset frequences"
proof -
  let ?h = "heapify noeud_lt (creer_noeuds_feuilles frequences)"
  have m: "mset ?h = mset (creer_noeuds_feuilles frequences)"
    using heapify_mset by blast
  then have "set ?h = set (creer_noeuds_feuilles frequences)"
    by (metis set_mset_mset)
  have "inv_noeud t" if "t \<in> set (creer_noeuds_feuilles frequences)" for t
    using creer_noeuds_feuilles_valides [of frequences t, OF assms(2) that]
    by (simp add: inv_noeud_def)
  with \<open>set ?h = set (creer_noeuds_feuilles frequences)\<close>
  have inv: "\<forall>t \<in> set ?h. inv_noeud t" by simp
  from m assms(1) have ne: "?h \<noteq> []"
    by (metis creer_noeuds_feuilles_Nil mset_zero_iff)
  have "feuilles_tas ?h = mset frequences"
    using feuilles_tas_perm [OF m] by (simp add: feuilles_tas_list)
  with boucle_fusion_inv [OF inv ne] show ?thesis by auto
qed

lemma construire_arbre_creer: 
  "construire_arbre frequences =
     (case boucle_fusion (heapify noeud_lt (creer_noeuds_feuilles frequences)) of
        Inl e \<Rightarrow> Inl e
      | Inr heap \<Rightarrow> (case heap of [] \<Rightarrow> Inl IndexError | racine # _ \<Rightarrow> Inr racine))"
  by (simp add: construire_arbre_def creer_noeuds_feuilles_def)

lemma sum_list_snd_mset:
  "mset xs = mset ys \<Longrightarrow> sum_list (map snd xs) = sum_list (map snd (ys :: ('c \<times> int) list))"
proof -
  assume "mset xs = mset ys"
  then have "mset (map snd xs) = mset (map snd ys)" by simp
  have "sum_list (map snd xs) = sum_mset (mset (map snd xs))"
    by (rule sum_mset_sum_list [symmetric])
  also have "\<dots> = sum_mset (mset (map snd ys))"
    using \<open>mset (map snd xs) = mset (map snd ys)\<close> by (rule arg_cong)
  also have "\<dots> = sum_list (map snd ys)"
    by (rule sum_mset_sum_list)
  finally show ?thesis .
qed

lemma inv_noeud_racine:
  assumes "inv_noeud r" "mset (feuilles r) = mset frequences"
  shows "verifier_arbre_huffman (Some r) \<and> frequence r = sum_list (map snd frequences) \<and>
     Suc (internes r) = length frequences"
proof -
  from assms(1) have "arbre_plein r" "coherent r" "freq_positives r"
    by (simp_all add: inv_noeud_def)
  moreover have "length (feuilles r) = length frequences"
    using assms(2) by (metis size_mset)
  ultimately show ?thesis
    using internes_feuilles [of r] coherent_poids [of r] sum_list_snd_mset [OF assms(2)]
    by (simp add: verifier_arbre_huffman_iff poids_def)
qed

subsection \<open>The builders\<close>

text \<open>
  C3. On a non-empty frequency table with positive counts, \<^verbatim>\<open>construire_arbre_huffman\<close>
  returns a tree that the validator \<^verbatim>\<open>verifier_arbre_huffman\<close> accepts, whose leaves
  are exactly the table's entries, whose root frequency is the sum of the counts and which
  has one inner node less than it has leaves.
\<close>

theorem construire_arbre_huffman_correct:
  assumes "frequences \<noteq> []" and "\<forall>(c, n) \<in> set frequences. 0 < n"
  shows "\<exists>r. construire_arbre_huffman (creer_noeuds_feuilles frequences) = Inr (Some r) \<and>
     verifier_arbre_huffman (Some r) \<and> mset (feuilles r) = mset frequences \<and>
     frequence r = sum_list (map snd frequences) \<and> Suc (internes r) = length frequences"
proof -
  from assms obtain r where r: "boucle_fusion (heapify noeud_lt (creer_noeuds_feuilles frequences)) = Inr [r]"
    "inv_noeud r" "mset (feuilles r) = mset frequences"
    using construction_ok [of frequences] by auto
  from assms(1) r(1)
  have "construire_arbre_huffman (creer_noeuds_feuilles frequences) = Inr (Some r)"
    by (simp add: construire_arbre_huffman_def)
  with inv_noeud_racine [OF r(2,3)] r(3) show ?thesis by (intro exI [of _ r]) simp
qed

theorem construire_arbre_huffman_correct_witness:
  "[(CHR ''a'', 5::int), (CHR ''b'', 1), (CHR ''c'', 1)] \<noteq> [] \<and>
   (\<exists>r. construire_arbre_huffman
          (creer_noeuds_feuilles [(CHR ''a'', 5::int), (CHR ''b'', 1), (CHR ''c'', 1)]) = Inr (Some r) \<and>
        frequence r = 7 \<and> internes r = 2)"
  using construire_arbre_huffman_correct [of "[(CHR ''a'', 5::int), (CHR ''b'', 1), (CHR ''c'', 1)]"]
  by auto

text \<open>
  C4. The merge loop never takes the \<^verbatim>\<open>IndexError\<close> branch of its two pops: from any
  heap it returns, and it leaves at most one tree (one exactly when the heap was not empty).
\<close>

theorem boucle_fusion_termine:
  "\<exists>heap'. boucle_fusion heap = Inr heap' \<and> length heap' = min 1 (length heap)"
proof (induction heap rule: boucle_fusion.induct)
  case (1 heap)
  show ?case
  proof (cases "1 < length heap")
    case False
    then show ?thesis by (auto simp: boucle_fusion.simps [of heap] min_def)
  next
    case True
    then obtain g h1 d h2 where p1: "heappop noeud_lt heap = Inr (g, h1)"
      and p2: "heappop noeud_lt h1 = Inr (d, h2)"
      and step: "boucle_fusion heap =
        boucle_fusion (heappush noeud_lt h2 (Noeud None (frequence g + frequence d) (Some g) (Some d)))"
      by (rule boucle_fusion_pas)
    let ?h = "heappush noeud_lt h2 (Noeud None (frequence g + frequence d) (Some g) (Some d))"
    have "0 < length ?h" by (simp add: heappush_mset)
    with "1.IH" [OF True p1 refl p2 refl] step True show ?thesis
      by (auto simp: min_def)
  qed
qed

text \<open>
  C16. The builder runs Huffman's algorithm: from a non-empty table, the tree it returns
  is reached from the multiset of leaves by steps of \<open>fusion_minimale\<close>. Each
  step merges a tree of least frequency with a tree of least frequency among the others.
\<close>

theorem construire_arbre_huffman_glouton:
  assumes "frequences \<noteq> []"
  shows "\<exists>r. construire_arbre_huffman (creer_noeuds_feuilles frequences) = Inr (Some r) \<and>
     fusion_minimale\<^sup>*\<^sup>* (mset (creer_noeuds_feuilles frequences)) {#r#}"
proof -
  let ?h = "heapify noeud_lt (creer_noeuds_feuilles frequences)"
  have "tas frequence ?h" using heapify_tas [of frequence] by (simp add: noeud_lt_cle)
  from boucle_fusion_glouton [OF this] obtain heap' where
    b: "boucle_fusion ?h = Inr heap'" "fusion_minimale\<^sup>*\<^sup>* (mset ?h) (mset heap')"
    "length heap' = min 1 (length ?h)" by blast
  from assms have "0 < length ?h" using heapify_mset [of noeud_lt "creer_noeuds_feuilles frequences"] by simp
  with b(3) obtain r where "heap' = [r]" by (cases heap') (auto simp: min_def)
  moreover have "mset ?h = mset (creer_noeuds_feuilles frequences)" using heapify_mset by blast
  ultimately show ?thesis using assms b(1,2) by (simp add: construire_arbre_huffman_def)
qed

theorem construire_arbre_huffman_glouton_witness:
  "[(CHR ''a'', 5::int), (CHR ''b'', 1), (CHR ''c'', 1)] \<noteq> [] \<and>
   (\<exists>r. construire_arbre_huffman (creer_noeuds_feuilles [(CHR ''a'', 5::int), (CHR ''b'', 1), (CHR ''c'', 1)]) =
          Inr (Some r) \<and>
        fusion_minimale\<^sup>*\<^sup>* (mset (creer_noeuds_feuilles [(CHR ''a'', 5::int), (CHR ''b'', 1), (CHR ''c'', 1)]))
          {#r#})"
  using construire_arbre_huffman_glouton [of "[(CHR ''a'', 5::int), (CHR ''b'', 1), (CHR ''c'', 1)]"]
  by simp

text \<open>
  C14. On the builders' heaps, \<^verbatim>\<open>heapq\<close> with \<^verbatim>\<open>Noeud.__lt__\<close> is a priority
  queue keyed by frequency: the abstraction is the multiset of the list, the invariant the
  heap order. On a heap, \<^verbatim>\<open>heappush\<close> adds the node and keeps the order. On a
  non-empty heap, \<^verbatim>\<open>heappop\<close> succeeds and returns a node of least frequency; what is
  left is a heap of the other nodes.
\<close>

theorem heapq_file_de_priorite:
  assumes "tas frequence h"
  shows "(tas frequence (heappush noeud_lt h x) \<and> mset (heappush noeud_lt h x) = add_mset x (mset h)) \<and>
         (h \<noteq> [] \<longrightarrow> (\<exists>y h'. heappop noeud_lt h = Inr (y, h') \<and> tas frequence h' \<and>
            mset h = add_mset y (mset h') \<and> (\<forall>z \<in> set h. frequence y \<le> frequence z)))"
proof -
  have "h \<noteq> [] \<longrightarrow> (\<exists>y h'. heappop noeud_lt h = Inr (y, h') \<and> tas frequence h' \<and>
            mset h = add_mset y (mset h') \<and> (\<forall>z \<in> set h. frequence y \<le> frequence z))"
  proof
    assume "h \<noteq> []"
    then obtain y h' where p: "heappop noeud_lt h = Inr (y, h')"
      using heappop_ok by blast
    from heappop_tas [OF assms p [unfolded noeud_lt_cle]] heappop_mset [OF p] p
    show "\<exists>y h'. heappop noeud_lt h = Inr (y, h') \<and> tas frequence h' \<and>
        mset h = add_mset y (mset h') \<and> (\<forall>z \<in> set h. frequence y \<le> frequence z)"
      by auto
  qed
  moreover have "tas frequence (heappush noeud_lt h x)"
    using heappush_tas [OF assms, of x] by (simp add: noeud_lt_cle)
  ultimately show ?thesis by (simp add: heappush_mset)
qed

theorem heapq_file_de_priorite_witness:
  "tas frequence [Noeud (Some CHR ''a'') 1 None None, Noeud (Some CHR ''b'') 3 None None,
                  Noeud (Some CHR ''c'') 2 None None] \<and>
   heappop noeud_lt [Noeud (Some CHR ''a'') 1 None None, Noeud (Some CHR ''b'') 3 None None,
                     Noeud (Some CHR ''c'') 2 None None] =
     Inr (Noeud (Some CHR ''a'') 1 None None, [Noeud (Some CHR ''c'') 2 None None, Noeud (Some CHR ''b'') 3 None None]) \<and>
   tas frequence (heappush noeud_lt [Noeud (Some CHR ''a'') 1 None None, Noeud (Some CHR ''b'') 3 None None,
                     Noeud (Some CHR ''c'') 2 None None] (Noeud None 0 None None))"
proof -
  have t: "tas frequence [Noeud (Some CHR ''a'') 1 None None, Noeud (Some CHR ''b'') 3 None None,
                  Noeud (Some CHR ''c'') 2 None None]" by code_simp
  have "heappop noeud_lt [Noeud (Some CHR ''a'') 1 None None, Noeud (Some CHR ''b'') 3 None None,
                     Noeud (Some CHR ''c'') 2 None None] =
     Inr (Noeud (Some CHR ''a'') 1 None None, [Noeud (Some CHR ''c'') 2 None None, Noeud (Some CHR ''b'') 3 None None])"
    by code_simp
  with t heapq_file_de_priorite [OF t, of "Noeud None 0 None None"] show ?thesis by simp
qed

text \<open>
  C15. \<^verbatim>\<open>heapify\<close> with \<^verbatim>\<open>Noeud.__lt__\<close> rearranges any list of nodes into a heap
  ordered by frequency, with the same nodes.
\<close>

theorem heapify_tas_mset:
  "tas frequence (heapify noeud_lt xs) \<and> mset (heapify noeud_lt xs) = mset xs"
  using heapify_tas [of frequence xs] heapify_mset [of noeud_lt xs] by (simp add: noeud_lt_cle)

end
