(* ===== verification/Optimalite.thy ===== *)
theory Optimalite
  imports Construction
begin

text \<open>
  Optimality of the tree builder, the contract of the spec's TreeBuilder: the tree
  minimises the weighted path length, the sum over the symbols of frequency times depth.
  \<open>lpp t k\<close> is that sum for \<open>t\<close> hanging at depth \<open>k\<close>, and
  \<open>longueur_ponderee t = lpp t 0\<close>.

  The proof follows Huffman's exchange argument on forests. A \<open>forme\<close> (shape) is a
  binary tree whose leaves are labelled by trees. \<open>assemble\<close> builds the tree it
  describes, and \<open>cout_forme\<close> is that tree's weighted path length. Every full tree is
  the shape \<open>forme_de t\<close> over its own leaves. \<open>echange a b\<close> exchanges two labels,
  and \<open>fusionner x y m\<close> replaces two sibling leaves \<open>x\<close>, \<open>y\<close> by the leaf
  \<open>m\<close>.
  \<^item> Putting the lighter of two leaves at least as deep does not increase the cost
    (\<open>cout_echange\<close>).
  \<^item> Every shape with an inner node has two sibling leaves at the greatest depth
    (\<open>paire_profonde\<close>).
  \<^item> So the two trees a greedy step picks can be made siblings at no cost
    (\<open>echange_glouton\<close>), and merging them changes nothing.
  \<^item> By induction over a run of \<open>fusion_minimale\<close>, the greedy tree costs no more than
    any shape over the same forest (\<open>glouton_optimal_foret\<close>).
  The forest invariant \<open>foret_valide\<close> holds for the leaves of a table with distinct
  keys. It says: full, coherent trees, none twice, and no symbol in two places.
\<close>

fun lpp :: "'c noeud \<Rightarrow> nat \<Rightarrow> int" where
  "lpp (Noeud (Some c) f g d) k = f * int k"
| "lpp (Noeud None f (Some g) (Some d)) k = lpp g (Suc k) + lpp d (Suc k)"
| "lpp _ k = 0"

definition longueur_ponderee :: "'c noeud \<Rightarrow> int" where
  "longueur_ponderee t = lpp t 0"

datatype 'a forme = Feuille 'a | Fusion "'a forme" "'a forme"

fun assemble :: "'c noeud forme \<Rightarrow> 'c noeud" where
  "assemble (Feuille u) = u"
| "assemble (Fusion a b) =
     Noeud None (frequence (assemble a) + frequence (assemble b)) (Some (assemble a)) (Some (assemble b))"

fun cout_forme :: "'c noeud forme \<Rightarrow> nat \<Rightarrow> int" where
  "cout_forme (Feuille u) k = lpp u k"
| "cout_forme (Fusion a b) k = cout_forme a (Suc k) + cout_forme b (Suc k)"

fun feuilles_prof :: "'a forme \<Rightarrow> nat \<Rightarrow> ('a \<times> nat) list" where
  "feuilles_prof (Feuille u) k = [(u, k)]"
| "feuilles_prof (Fusion a b) k = feuilles_prof a (Suc k) @ feuilles_prof b (Suc k)"

fun etiquettes :: "'a forme \<Rightarrow> 'a list" where
  "etiquettes (Feuille u) = [u]"
| "etiquettes (Fusion a b) = etiquettes a @ etiquettes b"

fun prof_max :: "'a forme \<Rightarrow> nat" where
  "prof_max (Feuille u) = 0"
| "prof_max (Fusion a b) = Suc (max (prof_max a) (prof_max b))"

fun contient_paire :: "'a \<Rightarrow> 'a \<Rightarrow> 'a forme \<Rightarrow> bool" where
  "contient_paire x y (Feuille u) = False"
| "contient_paire x y (Fusion a b) =
     ((a = Feuille x \<and> b = Feuille y) \<or> contient_paire x y a \<or> contient_paire x y b)"

fun fusionner :: "'a \<Rightarrow> 'a \<Rightarrow> 'a \<Rightarrow> 'a forme \<Rightarrow> 'a forme" where
  "fusionner x y m (Feuille u) = Feuille u"
| "fusionner x y m (Fusion a b) =
     (if a = Feuille x \<and> b = Feuille y then Feuille m
      else Fusion (fusionner x y m a) (fusionner x y m b))"

definition echange :: "'a \<Rightarrow> 'a \<Rightarrow> 'a \<Rightarrow> 'a" where
  "echange a b u = (if u = a then b else if u = b then a else u)"

fun forme_de :: "'c noeud \<Rightarrow> 'c noeud forme" where
  "forme_de (Noeud None f (Some g) (Some d)) = Fusion (forme_de g) (forme_de d)"
| "forme_de t = Feuille t"

definition sans_doublon :: "'a multiset \<Rightarrow> bool" where
  "sans_doublon M = (\<forall>x \<in># M. count M x = 1)"

definition foret_valide :: "'c noeud multiset \<Rightarrow> bool" where
  "foret_valide F =
     ((\<forall>u \<in># F. arbre_plein u \<and> coherent u) \<and> sans_doublon F \<and>
      sans_doublon (\<Sum>\<^sub># (image_mset (\<lambda>u. mset (symboles u)) F)))"

function equilibre :: "('c \<times> int) list \<Rightarrow> 'c noeud" where
  "equilibre [] = Noeud None 0 None None"
| "equilibre [(c, f)] = Noeud (Some c) f None None"
| "equilibre (x # y # zs) =
     Noeud None (sum_list (map snd (x # y # zs)))
       (Some (equilibre (take (Suc (Suc (length zs)) div 2) (x # y # zs))))
       (Some (equilibre (drop (Suc (Suc (length zs)) div 2) (x # y # zs))))"
  by pat_completeness auto
termination
  by (relation "measure length") auto

subsection \<open>Multisets without duplicates\<close>

lemma sans_doublon_mset [simp]: "sans_doublon (mset xs) = distinct xs"
  by (simp add: sans_doublon_def distinct_count_atmost_1 Ball_def)

lemma sans_doublon_add: "sans_doublon (add_mset x M) = (x \<notin># M \<and> sans_doublon M)"
  unfolding sans_doublon_def
proof
  assume h: "\<forall>y \<in># add_mset x M. count (add_mset x M) y = 1"
  then have "count (add_mset x M) x = 1" by simp
  then have x: "x \<notin># M" by (simp add: count_eq_zero_iff [symmetric])
  have "count M y = 1" if "y \<in># M" for y
  proof -
    from that x have "y \<noteq> x" by blast
    have "y \<in># add_mset x M" using that by simp
    with h have "count (add_mset x M) y = 1" by blast
    with \<open>y \<noteq> x\<close> show ?thesis by simp
  qed
  with x show "x \<notin># M \<and> (\<forall>y \<in># M. count M y = 1)" by blast
next
  assume h: "x \<notin># M \<and> (\<forall>y \<in># M. count M y = 1)"
  then have "count M x = 0" by (simp add: count_eq_zero_iff)
  with h show "\<forall>y \<in># add_mset x M. count (add_mset x M) y = 1" by auto
qed

subsection \<open>Cost of a tree and of a shape\<close>

lemma lpp_Suc: "lpp t (Suc k) = lpp t k + poids t"
proof (induction t k rule: lpp.induct)
  case (1 c f g d k)
  then show ?case by (simp add: poids_def algebra_simps)
next
  case (2 f g d k)
  then show ?case by (simp add: poids_def)
qed (simp_all add: poids_def)

lemma lpp_prof: "lpp t k = lpp t 0 + poids t * int k"
  by (induction k) (simp_all add: lpp_Suc algebra_simps)

lemma cout_feuilles_prof: "cout_forme s k = sum_list (map (\<lambda>(u, \<delta>). lpp u \<delta>) (feuilles_prof s k))"
  by (induction s arbitrary: k) simp_all

lemma map_fst_feuilles_prof [simp]: "map fst (feuilles_prof s k) = etiquettes s"
  by (induction s arbitrary: k) simp_all

lemma feuilles_prof_map: "feuilles_prof (map_forme f s) k = map (\<lambda>(u, \<delta>). (f u, \<delta>)) (feuilles_prof s k)"
  by (induction s arbitrary: k) simp_all

lemma etiquettes_map [simp]: "etiquettes (map_forme f s) = map f (etiquettes s)"
  by (induction s) simp_all

lemma prof_feuilles_prof: "(u, \<delta>) \<in> set (feuilles_prof s k) \<Longrightarrow> \<delta> \<le> k + prof_max s"
  by (induction s arbitrary: k) fastforce+


subsection \<open>The exchange argument\<close>

lemma echange_id [simp]: "echange a a = id"
  by (simp add: echange_def fun_eq_iff)

lemma distinct_feuilles_prof: "distinct (etiquettes s) \<Longrightarrow> distinct (feuilles_prof s k)"
  using distinct_map [of fst "feuilles_prof s k"] by simp

lemma prof_unique:
  "distinct (etiquettes s) \<Longrightarrow> (u, x) \<in> set (feuilles_prof s k) \<Longrightarrow> (u, y) \<in> set (feuilles_prof s k) \<Longrightarrow> x = y"
  using eq_key_imp_eq_value [of "feuilles_prof s k"] by simp

text \<open>
  Exchanging two leaves of a shape, the lighter one going at least as deep as it was,
  does not increase the cost.
\<close>

lemma cout_echange:
  assumes dist: "distinct (etiquettes s)"
    and a: "(a, \<delta>a) \<in> set (feuilles_prof s k)" and b: "(b, \<delta>b) \<in> set (feuilles_prof s k)"
    and p: "poids a \<le> poids b" and d: "\<delta>a \<le> \<delta>b"
  shows "cout_forme (map_forme (echange a b) s) k \<le> cout_forme s k"
proof -
  let ?L = "feuilles_prof s k" and ?c = "\<lambda>(u, \<delta>). lpp u \<delta>"
  let ?s = "\<lambda>(u, \<delta>). (echange a b u, \<delta>)"
  let ?A = "{(a, \<delta>a), (b, \<delta>b)}"
  have dL: "distinct ?L" using distinct_feuilles_prof [OF dist] .
  have c0: "cout_forme s k = (\<Sum>p \<in> set ?L. ?c p)"
    by (simp add: cout_feuilles_prof sum_list_distinct_conv_sum_set [OF dL])
  have c1: "cout_forme (map_forme (echange a b) s) k = (\<Sum>p \<in> set ?L. ?c (?s p))"
  proof -
    have "cout_forme (map_forme (echange a b) s) k = sum_list (map (\<lambda>p. ?c (?s p)) ?L)"
      by (simp add: cout_feuilles_prof feuilles_prof_map comp_def case_prod_beta)
    also have "\<dots> = (\<Sum>p \<in> set ?L. ?c (?s p))"
      by (rule sum_list_distinct_conv_sum_set [OF dL])
    finally show ?thesis .
  qed
  have sub: "?A \<subseteq> set ?L" using a b by simp
  have hors: "?c (?s p) = ?c p" if "p \<in> set ?L - ?A" for p
  proof -
    obtain u \<delta> where pu: "p = (u, \<delta>)" by (cases p)
    from that pu have "u \<noteq> a" using prof_unique [OF dist _ a] by auto
    moreover from that pu have "u \<noteq> b" using prof_unique [OF dist _ b] by auto
    ultimately show ?thesis using pu by (simp add: echange_def)
  qed
  have split: "(\<Sum>p \<in> set ?L. f p) = (\<Sum>p \<in> set ?L - ?A. f p) + (\<Sum>p \<in> ?A. f p)" for f :: "_ \<Rightarrow> int"
    using sum.subset_diff [OF sub, of f] by simp
  have eq: "(\<Sum>p \<in> set ?L - ?A. ?c (?s p)) = (\<Sum>p \<in> set ?L - ?A. ?c p)"
    by (rule sum.cong [OF refl hors])
  have ineq: "(\<Sum>p \<in> ?A. ?c (?s p)) \<le> (\<Sum>p \<in> ?A. ?c p)"
  proof (cases "a = b")
    case True
    then show ?thesis by simp
  next
    case False
    have "lpp b \<delta>a + lpp a \<delta>b \<le> lpp a \<delta>a + lpp b \<delta>b"
    proof -
      have "0 \<le> (poids b - poids a) * (int \<delta>b - int \<delta>a)" using p d by simp
      then show ?thesis
        using lpp_prof [of a \<delta>a] lpp_prof [of a \<delta>b] lpp_prof [of b \<delta>a] lpp_prof [of b \<delta>b]
        by (simp add: algebra_simps)
    qed
    with False show ?thesis by (simp add: echange_def)
  qed
  have "cout_forme (map_forme (echange a b) s) k =
      (\<Sum>p \<in> set ?L - ?A. ?c (?s p)) + (\<Sum>p \<in> ?A. ?c (?s p))"
    by (simp only: c1 split)
  also have "\<dots> = (\<Sum>p \<in> set ?L - ?A. ?c p) + (\<Sum>p \<in> ?A. ?c (?s p))"
    by (simp only: eq)
  also have "\<dots> \<le> (\<Sum>p \<in> set ?L - ?A. ?c p) + (\<Sum>p \<in> ?A. ?c p)"
    by (rule add_left_mono [OF ineq])
  also have "\<dots> = cout_forme s k"
    by (simp only: c0 split)
  finally show ?thesis .
qed

text \<open>A shape with an inner node has two sibling leaves at its greatest depth.\<close>

lemma paire_profonde:
  "0 < prof_max s \<Longrightarrow> \<exists>x y. contient_paire x y s \<and>
     (x, k + prof_max s) \<in> set (feuilles_prof s k) \<and> (y, k + prof_max s) \<in> set (feuilles_prof s k)"
proof (induction s arbitrary: k)
  case (Feuille v)
  then show ?case by simp
next
  case (Fusion a b)
  show ?case
  proof (cases "(\<exists>x. a = Feuille x) \<and> (\<exists>y. b = Feuille y)")
    case True
    then obtain x y where "a = Feuille x" "b = Feuille y" by blast
    then show ?thesis by (intro exI [of _ x] exI [of _ y]) simp
  next
    case False
    show ?thesis
    proof (cases "prof_max b \<le> prof_max a")
      case True
      with False have "0 < prof_max a" by (cases a; cases b) auto
      from Fusion.IH(1) [OF this, of "Suc k"] True show ?thesis
        by (auto simp: max_def)
    next
      case lt: False
      then have "0 < prof_max b" by simp
      from Fusion.IH(2) [OF this, of "Suc k"] lt show ?thesis
        by (auto simp: max_def)
    qed
  qed
qed


subsection \<open>Exchanges and merges of leaves\<close>

lemma echange_echange [simp]: "echange a b (echange a b u) = u"
  by (simp add: echange_def)

lemma inj_echange: "inj (echange a b)"
  by (metis echange_echange injI)

lemma echange_permute:
  assumes "distinct xs" "a \<in> set xs" "b \<in> set xs"
  shows "mset (map (echange a b) xs) = mset xs \<and> distinct (map (echange a b) xs)"
proof -
  have d: "distinct (map (echange a b) xs)"
    using assms(1) inj_echange [of a b] by (simp add: distinct_map inj_on_def)
  have "echange a b ` set xs = set xs"
    using assms(2,3) by (auto simp: echange_def image_iff)
  then have "mset (map (echange a b) xs) = mset xs"
    using set_eq_iff_mset_eq_distinct [OF d assms(1)] by (metis set_map)
  with d show ?thesis by blast
qed

lemma prof_max_map [simp]: "prof_max (map_forme f s) = prof_max s"
  by (induction s) simp_all

lemma contient_paire_map: "contient_paire x y s \<Longrightarrow> contient_paire (f x) (f y) (map_forme f s)"
  by (induction s) auto

lemma contient_paire_etiquettes:
  "contient_paire x y s \<Longrightarrow> distinct (etiquettes s) \<Longrightarrow> x \<in> set (etiquettes s) \<and> y \<in> set (etiquettes s) \<and> x \<noteq> y"
  by (induction s) auto

lemma fusionner_absent: "\<not> contient_paire x y s \<Longrightarrow> fusionner x y m s = s"
  by (induction s) auto

lemma cout_fusionner:
  "(\<And>k. lpp m k = lpp x (Suc k) + lpp y (Suc k)) \<Longrightarrow> cout_forme (fusionner x y m s) k = cout_forme s k"
  by (induction s arbitrary: k) auto

lemma etiquettes_fusionner:
  "contient_paire x y s \<Longrightarrow> distinct (etiquettes s) \<Longrightarrow>
   mset (etiquettes (fusionner x y m s)) + {#x, y#} = add_mset m (mset (etiquettes s))"
proof (induction s)
  case (Fusion a b)
  show ?case
  proof (cases "a = Feuille x \<and> b = Feuille y")
    case False
    from Fusion.prems False have "contient_paire x y a \<or> contient_paire x y b" by simp
    then show ?thesis
    proof
      assume ca: "contient_paire x y a"
      with Fusion.prems(2) have "\<not> contient_paire x y b"
        using contient_paire_etiquettes [of x y a] contient_paire_etiquettes [of x y b] by auto
      with Fusion.IH(1) [OF ca] Fusion.prems(2) False show ?thesis
        by (simp add: fusionner_absent add_mset_commute)
    next
      assume cb: "contient_paire x y b"
      with Fusion.prems(2) have "\<not> contient_paire x y a"
        using contient_paire_etiquettes [of x y a] contient_paire_etiquettes [of x y b] by auto
      with Fusion.IH(2) [OF cb] Fusion.prems(2) False show ?thesis
        by (simp add: fusionner_absent add_mset_commute)
    qed
  qed simp
qed simp

text \<open>One exchange, with its effect on the labels, the cost and the depth.\<close>

lemma echange_pas:
  assumes "distinct (etiquettes s)" and "(a, \<delta>a) \<in> set (feuilles_prof s 0)"
    and "(b, \<delta>b) \<in> set (feuilles_prof s 0)" and "poids a \<le> poids b" and "\<delta>a \<le> \<delta>b"
  shows "mset (etiquettes (map_forme (echange a b) s)) = mset (etiquettes s) \<and>
    distinct (etiquettes (map_forme (echange a b) s)) \<and>
    cout_forme (map_forme (echange a b) s) 0 \<le> cout_forme s 0"
proof -
  have "a \<in> set (etiquettes s)" "b \<in> set (etiquettes s)"
    using assms(2,3) map_fst_feuilles_prof [of s 0] by (metis fst_conv image_eqI set_map)+
  with echange_permute [OF assms(1)] cout_echange [OF assms] show ?thesis by simp
qed


lemma feuilles_prof_etiquette:
  "u \<in> set (etiquettes s) \<Longrightarrow> \<exists>\<delta>. (u, \<delta>) \<in> set (feuilles_prof s k) \<and> \<delta> \<le> k + prof_max s"
proof -
  assume "u \<in> set (etiquettes s)"
  then have "u \<in> fst ` set (feuilles_prof s k)"
    using map_fst_feuilles_prof [of s k] by (metis set_map)
  then obtain \<delta> where "(u, \<delta>) \<in> set (feuilles_prof s k)" by force
  with prof_feuilles_prof [of u \<delta> s k] show ?thesis by blast
qed

lemma etiquette_feuilles_prof: "(u, \<delta>) \<in> set (feuilles_prof s k) \<Longrightarrow> u \<in> set (etiquettes s)"
  by (induction s arbitrary: k) auto

text \<open>
  The exchange argument: in a shape whose leaves include \<open>g\<close> of least weight and
  \<open>d\<close> of least weight among the others, two exchanges bring \<open>g\<close> and \<open>d\<close> to
  two sibling leaves of greatest depth without increasing the cost.
\<close>

lemma echange_glouton:
  assumes F: "mset (etiquettes s) = add_mset g (add_mset d R)" and dist: "distinct (etiquettes s)"
    and mg: "\<forall>t \<in># add_mset d R. poids g \<le> poids t" and md: "\<forall>t \<in># R. poids d \<le> poids t"
  shows "\<exists>s'. mset (etiquettes s') = mset (etiquettes s) \<and> distinct (etiquettes s') \<and>
    contient_paire g d s' \<and> cout_forme s' 0 \<le> cout_forme s 0"
proof -
  have setF: "set (etiquettes s) = set_mset (add_mset g (add_mset d R))"
    using arg_cong [OF F, of set_mset] by simp
  have "length (etiquettes s) = Suc (Suc (size R))"
    using arg_cong [OF F, of size] by simp
  then have "0 < prof_max s" by (cases s) auto
  from paire_profonde [OF this, of 0] obtain x y where
    pxy: "contient_paire x y s" "(x, prof_max s) \<in> set (feuilles_prof s 0)"
    "(y, prof_max s) \<in> set (feuilles_prof s 0)" by auto
  let ?D = "prof_max s"
  have "sans_doublon (mset (etiquettes s))" using dist by simp
  then have "sans_doublon (add_mset g (add_mset d R))" using F by simp
  then have gdR: "g \<notin># add_mset d R" "d \<notin># R" by (simp_all add: sans_doublon_add)
  have lab: "u \<in> set (etiquettes s) \<longleftrightarrow> u \<in># add_mset g (add_mset d R)" for u
    using setF by simp
  obtain \<delta>g where g0: "(g, \<delta>g) \<in> set (feuilles_prof s 0)" "\<delta>g \<le> ?D"
    using feuilles_prof_etiquette [of g s 0] lab [of g] by auto
  have "x \<in> set (etiquettes s)" "x \<noteq> y"
    using contient_paire_etiquettes [OF pxy(1) dist] by simp_all
  then have pgx: "poids g \<le> poids x" using lab [of x] mg by (cases "x = g") auto
  define s1 where "s1 = map_forme (echange g x) s"
  from echange_pas [OF dist g0(1) pxy(2) pgx g0(2)] have s1: "mset (etiquettes s1) = mset (etiquettes s)"
    "distinct (etiquettes s1)" "cout_forme s1 0 \<le> cout_forme s 0" by (simp_all add: s1_def)
  define y' where "y' = echange g x y"
  have "echange g x x = g" by (simp add: echange_def)
  then have c1: "contient_paire g y' s1"
    using contient_paire_map [OF pxy(1), of "echange g x"] by (simp add: s1_def y'_def)
  have y1: "(y', ?D) \<in> set (feuilles_prof s1 0)"
    using pxy(3) by (force simp: s1_def y'_def feuilles_prof_map)
  have y'g: "y' \<noteq> g" using \<open>x \<noteq> y\<close> by (auto simp: y'_def echange_def)
  have set1: "set (etiquettes s1) = set (etiquettes s)"
    using arg_cong [OF s1(1), of set_mset] by simp
  have "y' \<in> set (etiquettes s1)" using etiquette_feuilles_prof [OF y1] .
  then have "y' \<in># add_mset g (add_mset d R)" using set1 lab by simp
  then have pdy: "poids d \<le> poids y'" using y'g md by (cases "y' = d") auto
  have "d \<in> set (etiquettes s1)" using set1 lab [of d] by simp
  then obtain \<delta>d where d1: "(d, \<delta>d) \<in> set (feuilles_prof s1 0)" "\<delta>d \<le> ?D"
    using feuilles_prof_etiquette [of d s1 0] by (auto simp: s1_def)
  define s2 where "s2 = map_forme (echange d y') s1"
  from echange_pas [OF s1(2) d1(1) y1 pdy d1(2)] s1 have s2: "mset (etiquettes s2) = mset (etiquettes s)"
    "distinct (etiquettes s2)" "cout_forme s2 0 \<le> cout_forme s 0" by (simp_all add: s2_def)
  have "g \<noteq> d" using gdR(1) by auto
  then have "echange d y' g = g" "echange d y' y' = d" using y'g by (simp_all add: echange_def)
  then have "contient_paire g d s2"
    using contient_paire_map [OF c1, of "echange d y'"] by (simp add: s2_def)
  with s2 show ?thesis by blast
qed


subsection \<open>Greedy runs are optimal\<close>

lemma etiquettes_non_vide: "etiquettes s \<noteq> []"
  by (induction s) simp_all

lemma etiquettes_singleton:
  assumes "mset (etiquettes s) = {#r#}"
  shows "s = Feuille r"
proof (cases s)
  case (Feuille u)
  with assms show ?thesis by simp
next
  case (Fusion a b)
  have "size (mset (etiquettes s)) = size {#r#}" using assms by (rule arg_cong)
  then have "length (etiquettes a @ etiquettes b) = 1" using Fusion by simp
  with etiquettes_non_vide [of a] etiquettes_non_vide [of b] show ?thesis
    by (cases "etiquettes a"; cases "etiquettes b") auto
qed

lemma sans_doublon_union:
  assumes "sans_doublon (M + N)" and "x \<in># M"
  shows "x \<notin># N"
proof -
  have "x \<in># M + N" using assms(2) by simp
  with assms(1) have "count M x + count N x = 1" by (simp add: sans_doublon_def)
  moreover have "0 < count M x" using assms(2) by simp
  ultimately have "count N x = 0" by linarith
  then show ?thesis by (simp add: not_in_iff)
qed

lemma symboles_fusion:
  "symboles (Noeud None f (Some g) (Some d)) = symboles g @ symboles d"
  by (simp add: symboles_def)

text \<open>A step of the greedy algorithm keeps a forest valid.\<close>

lemma foret_valide_fusion:
  assumes v: "foret_valide (add_mset g (add_mset d R))"
  shows "foret_valide (add_mset (Noeud None (frequence g + frequence d) (Some g) (Some d)) R)"
proof -
  let ?m = "Noeud None (frequence g + frequence d) (Some g) (Some d)"
  let ?S = "\<lambda>F. \<Sum>\<^sub># (image_mset (\<lambda>u. mset (symboles u)) F)"
  from v have pc: "\<forall>u \<in># add_mset g (add_mset d R). arbre_plein u \<and> coherent u"
    and sd: "sans_doublon (add_mset g (add_mset d R))" and ss: "sans_doublon (?S (add_mset g (add_mset d R)))"
    by (simp_all add: foret_valide_def)
  have m: "arbre_plein ?m \<and> coherent ?m" using pc by simp
  have S: "?S (add_mset ?m R) = ?S (add_mset g (add_mset d R))"
    by (simp add: symboles_fusion add.assoc)
  have "?m \<notin># R"
  proof
    assume "?m \<in># R"
    then obtain R' where "R = add_mset ?m R'" by (metis mset_add)
    with ss have ss': "sans_doublon (mset (symboles g) +
        (mset (symboles d) + (mset (symboles g) + (mset (symboles d) + ?S R'))))"
      by (simp add: symboles_fusion add.assoc)
    have "symboles g \<noteq> []"
      using feuilles_non_vides [of g] pc by (simp add: symboles_def)
    then obtain c where c: "c \<in># mset (symboles g)" by (cases "symboles g") auto
    then have "c \<in># mset (symboles d) + (mset (symboles g) + (mset (symboles d) + ?S R'))" by simp
    with sans_doublon_union [OF ss' c] show False by blast
  qed
  with sd have "sans_doublon (add_mset ?m R)" by (simp add: sans_doublon_add)
  with m pc S ss show ?thesis by (simp add: foret_valide_def add.assoc)
qed

text \<open>
  Optimality on forests: the tree a greedy run makes of a valid forest costs no more than
  any shape whose leaves are that forest.
\<close>

lemma glouton_optimal_foret:
  assumes "fusion_minimale\<^sup>*\<^sup>* F {#r#}" and "foret_valide F" and "mset (etiquettes s) = F"
  shows "lpp r 0 \<le> cout_forme s 0"
  using assms
proof (induction F arbitrary: s rule: converse_rtranclp_induct)
  case base
  then have "s = Feuille r" by (intro etiquettes_singleton) simp
  then show ?case by simp
next
  case (step F F1)
  from step.hyps(1) obtain g d R where F: "F = add_mset g (add_mset d R)"
    and F1: "F1 = add_mset (Noeud None (frequence g + frequence d) (Some g) (Some d)) R"
    and mg: "\<forall>t \<in># add_mset d R. frequence g \<le> frequence t" and md: "\<forall>t \<in># R. frequence d \<le> frequence t"
    by (cases rule: fusion_minimale.cases) blast
  let ?m = "Noeud None (frequence g + frequence d) (Some g) (Some d)"
  have fp: "frequence u = poids u" if "u \<in># F" for u
    using step.prems(1) that by (simp add: foret_valide_def coherent_poids)
  have "sans_doublon (mset (etiquettes s))" using step.prems by (simp add: foret_valide_def)
  then have dist: "distinct (etiquettes s)" by simp
  have pg: "\<forall>t \<in># add_mset d R. poids g \<le> poids t"
  proof
    fix t assume t: "t \<in># add_mset d R"
    with mg have "frequence g \<le> frequence t" by blast
    moreover have "t \<in># F" "g \<in># F" using t F by simp_all
    ultimately show "poids g \<le> poids t" using fp by simp
  qed
  have pd: "\<forall>t \<in># R. poids d \<le> poids t"
  proof
    fix t assume t: "t \<in># R"
    with md have "frequence d \<le> frequence t" by blast
    moreover have "t \<in># F" "d \<in># F" using t F by simp_all
    ultimately show "poids d \<le> poids t" using fp by simp
  qed
  from echange_glouton [OF step.prems(2) [unfolded F] dist pg pd] obtain s' where
    s': "mset (etiquettes s') = mset (etiquettes s)" "distinct (etiquettes s')" "contient_paire g d s'"
      "cout_forme s' 0 \<le> cout_forme s 0" by blast
  let ?s1 = "fusionner g d ?m s'"
  have "mset (etiquettes ?s1) + {#g, d#} = add_mset ?m (mset (etiquettes s'))"
    by (rule etiquettes_fusionner [OF s'(3,2)])
  also have "\<dots> = add_mset ?m R + {#g, d#}"
    using s'(1) step.prems(2) F by simp
  finally have e1: "mset (etiquettes ?s1) = F1"
    using F1 by (simp only: add_right_cancel)
  have c1: "cout_forme ?s1 0 = cout_forme s' 0"
    by (rule cout_fusionner) simp
  have "foret_valide F1"
    using step.prems(1) unfolding F F1 by (rule foret_valide_fusion)
  from step.IH [OF this e1] c1 s'(4) show ?case by linarith
qed

subsection \<open>Weighted path length and code lengths\<close>

text \<open>
  When each leaf's frequency is the weight \<open>w\<close> of its symbol, the weighted path length
  is the sum over the root-to-leaf paths of weight times path length.
\<close>

lemma lpp_chemins:
  "arbre_plein t \<Longrightarrow> (\<forall>(c, f) \<in> set (feuilles t). f = w c) \<Longrightarrow>
   lpp t (length q) = sum_list (map (\<lambda>(c, p). w c * int (length p)) (chemins t q))"
proof (induction t arbitrary: q rule: arbre_plein.induct)
  case (2 f g d)
  then show ?case
    using "2.IH"(1) [of "q @ ''0''"] "2.IH"(2) [of "q @ ''1''"] by simp
qed auto

subsection \<open>A balanced tree\<close>

text \<open>
  \<open>equilibre\<close> splits a table in halves recursively: a full tree over the table in which
  every leaf is at depth at most \<open>m\<close> when the table has at most \<open>2 ^ m\<close> entries. It
  is the fixed-length code the Huffman tree is compared with.
\<close>

lemma moities: "a \<le> 2 * p \<Longrightarrow> a div 2 \<le> p \<and> a - a div 2 \<le> (p::nat)"
  by presburger

lemma equilibre_plein:
  "xs \<noteq> [] \<Longrightarrow> arbre_plein (equilibre xs) \<and> feuilles (equilibre xs) = xs"
proof (induction xs rule: equilibre.induct)
  case (3 x y zs)
  let ?xs = "x # y # zs" and ?h = "Suc (Suc (length zs)) div 2"
  have "take ?h ?xs \<noteq> []" "drop ?h ?xs \<noteq> []" by simp_all
  with "3.IH" show ?case by simp
qed auto

lemma equilibre_lpp:
  "xs \<noteq> [] \<Longrightarrow> (\<forall>(c, f) \<in> set xs. 0 \<le> f) \<Longrightarrow> length xs \<le> 2 ^ m \<Longrightarrow>
   lpp (equilibre xs) k \<le> sum_list (map snd xs) * int (k + m)"
proof (induction xs arbitrary: k m rule: equilibre.induct)
  case (2 c f)
  then show ?case by (simp add: mult_left_mono)
next
  case (3 x y zs)
  let ?xs = "x # y # zs" and ?h = "Suc (Suc (length zs)) div 2"
  let ?L = "take ?h ?xs" and ?R = "drop ?h ?xs"
  have ne: "?L \<noteq> []" "?R \<noteq> []" by simp_all
  from "3.prems"(3) obtain m' where m: "m = Suc m'" by (cases m) auto
  with "3.prems"(3) have "Suc (Suc (length zs)) \<le> 2 * 2 ^ m'" by simp
  note mo = moities [OF this]
  have lL: "length ?L \<le> 2 ^ m'" using mo by (simp add: min_def)
  have lR: "length ?R \<le> 2 ^ m'" using mo by simp
  have pL: "\<forall>(c, f) \<in> set ?L. 0 \<le> f" and pR: "\<forall>(c, f) \<in> set ?R. 0 \<le> f"
    using "3.prems"(2) set_take_subset [of ?h ?xs] set_drop_subset [of ?h ?xs] by blast+
  note bL = "3.IH"(1) [OF ne(1) pL lL, of "Suc k"]
  note bR = "3.IH"(2) [OF ne(2) pR lR, of "Suc k"]
  have s: "sum_list (map snd ?L) + sum_list (map snd ?R) = sum_list (map snd ?xs)"
    by (simp only: sum_list_append [symmetric] map_append [symmetric] append_take_drop_id)
  have "lpp (equilibre ?xs) k = lpp (equilibre ?L) (Suc k) + lpp (equilibre ?R) (Suc k)"
    by simp
  also have "\<dots> \<le> sum_list (map snd ?L) * int (Suc k + m') + sum_list (map snd ?R) * int (Suc k + m')"
    using bL bR by (rule add_mono)
  also have "\<dots> = (sum_list (map snd ?L) + sum_list (map snd ?R)) * int (k + m)"
    using m by (simp add: distrib_right)
  also have "\<dots> = sum_list (map snd ?xs) * int (k + m)"
    by (simp only: s)
  finally show ?case .
qed auto

text \<open>
  A lower bound: a full tree with \<open>n\<close> leaves of weight 1 has a weighted path length of
  at least \<open>n * (k + 1) - 2 ^ k\<close>, for every \<open>k\<close>. With \<open>n = 2 ^ k + 1\<close> this
  exceeds \<open>n * k\<close>: some code is longer than \<open>k\<close> bits.
\<close>

lemma somme_unitaire: "(\<forall>(c, f) \<in> set xs. f = 1) \<Longrightarrow> sum_list (map snd xs) = int (length xs)"
  by (induction xs) auto

lemma lpp_positif: "(\<forall>(c, f) \<in> set (feuilles t). 0 \<le> f) \<Longrightarrow> 0 \<le> lpp t k"
  by (induction t k rule: lpp.induct) auto

lemma lpp_unitaire:
  "arbre_plein t \<Longrightarrow> (\<forall>(c, f) \<in> set (feuilles t). f = 1) \<Longrightarrow>
   int (length (feuilles t)) * (int k + 1) - 2 ^ k \<le> lpp t 0"
proof (induction t arbitrary: k rule: arbre_plein.induct)
  case (1 c f)
  have "int k + 1 \<le> 2 ^ k" by (induction k) simp_all
  with 1 show ?case by simp
next
  case (2 f g d)
  let ?a = "int (length (feuilles g))" and ?b = "int (length (feuilles d))"
  have pg: "poids g = ?a" and pd: "poids d = ?b"
    using "2.prems" by (simp_all add: poids_def somme_unitaire)
  have E: "lpp (Noeud None f (Some g) (Some d)) 0 = lpp g 0 + lpp d 0 + ?a + ?b"
    using lpp_Suc [of g 0] lpp_Suc [of d 0] pg pd by simp
  from "2.prems"(2) have u: "\<forall>x \<in> set (feuilles g) \<union> set (feuilles d). case x of (c, f) \<Rightarrow> f = 1"
    by simp
  have "case x of (c, f) \<Rightarrow> 0 \<le> f" if "x \<in> set (feuilles g) \<union> set (feuilles d)" for x
  proof -
    from u that have "case x of (c, f) \<Rightarrow> f = 1" by blast
    then show ?thesis by (cases x) simp
  qed
  then have ng: "0 \<le> lpp g 0" "0 \<le> lpp d 0" by (simp_all add: lpp_positif)
  show ?case
  proof (cases k)
    case 0
    with E ng show ?thesis by simp
  next
    case (Suc k')
    from "2.IH"(1) [of k'] "2.IH"(2) [of k'] "2.prems"
    have "?a * (int k' + 1) - 2 ^ k' \<le> lpp g 0" "?b * (int k' + 1) - 2 ^ k' \<le> lpp d 0" by auto
    with E Suc show ?thesis by (simp add: algebra_simps)
  qed
qed simp_all

subsection \<open>The tree builder\<close>

lemma forme_de_plein:
  "arbre_plein t \<Longrightarrow> cout_forme (forme_de t) k = lpp t k \<and>
     etiquettes (forme_de t) = creer_noeuds_feuilles (feuilles t)"
  by (induction t arbitrary: k rule: arbre_plein.induct) (simp_all add: creer_noeuds_feuilles_def)

lemma foret_valide_feuilles:
  assumes "distinct (map fst frequences)"
  shows "foret_valide (mset (creer_noeuds_feuilles frequences))"
proof -
  have eq: "(\<Sum>\<^sub># (image_mset (\<lambda>u. mset (symboles u)) (mset (creer_noeuds_feuilles frequences)))) =
      mset (map fst frequences)"
    by (induction frequences) (auto simp: creer_noeuds_feuilles_def symboles_def)
  have "distinct (creer_noeuds_feuilles frequences)"
    using assms by (induction frequences) (auto simp: creer_noeuds_feuilles_def)
  then have s1: "sans_doublon (mset (creer_noeuds_feuilles frequences))" by (simp only: sans_doublon_mset)
  have s2: "sans_doublon (\<Sum>\<^sub># (image_mset (\<lambda>u. mset (symboles u)) (mset (creer_noeuds_feuilles frequences))))"
    unfolding eq using assms by (simp only: sans_doublon_mset)
  have "\<forall>u \<in># mset (creer_noeuds_feuilles frequences). arbre_plein u \<and> coherent u"
    by (auto simp: creer_noeuds_feuilles_def)
  with s1 s2 show ?thesis unfolding foret_valide_def by blast
qed

text \<open>
  The merge loop run on the heapified leaves of a table with distinct symbols builds a
  tree whose weighted path length is at most that of any full tree with the same leaves.
\<close>

lemma boucle_fusion_optimal:
  assumes "distinct (map fst frequences)"
    and "boucle_fusion (heapify noeud_lt (creer_noeuds_feuilles frequences)) = Inr (r # rest)"
    and "arbre_plein t" and "mset (feuilles t) = mset frequences"
  shows "longueur_ponderee r \<le> longueur_ponderee t"
proof -
  let ?L = "creer_noeuds_feuilles frequences"
  let ?h = "heapify noeud_lt ?L"
  have "tas frequence ?h" using heapify_tas [of frequence] by (simp add: noeud_lt_cle)
  from boucle_fusion_glouton [OF this] assms(2) have
    g: "fusion_minimale\<^sup>*\<^sup>* (mset ?h) (mset (r # rest))" "length (r # rest) = min 1 (length ?h)"
    by auto
  then have "rest = []" by (simp add: min_def split: if_splits)
  moreover have m: "mset ?h = mset ?L" using heapify_mset by blast
  ultimately have run: "fusion_minimale\<^sup>*\<^sup>* (mset ?L) {#r#}" using g(1) by simp
  have "mset (etiquettes (forme_de t)) = mset ?L"
    using forme_de_plein [OF assms(3), of 0] assms(4) by (simp add: creer_noeuds_feuilles_def)
  from glouton_optimal_foret [OF run foret_valide_feuilles [OF assms(1)] this]
  show ?thesis using forme_de_plein [OF assms(3)] by (simp add: longueur_ponderee_def)
qed

text \<open>
  C17. Huffman's optimality: on a table with distinct symbols,
  \<^verbatim>\<open>construire_arbre_huffman\<close> returns a tree whose weighted path length (each leaf's
  frequency times its depth, summed) is at most that of any full binary tree with the same
  leaves.
\<close>

theorem construire_arbre_huffman_optimal:
  assumes "distinct (map fst frequences)"
    and "construire_arbre_huffman (creer_noeuds_feuilles frequences) = Inr (Some r)"
    and "arbre_plein t" and "mset (feuilles t) = mset frequences"
  shows "longueur_ponderee r \<le> longueur_ponderee t"
proof -
  from assms(2) obtain rest where
    "boucle_fusion (heapify noeud_lt (creer_noeuds_feuilles frequences)) = Inr (r # rest)"
    by (auto simp: construire_arbre_huffman_def split: if_splits sum.splits list.splits)
  from boucle_fusion_optimal [OF assms(1) this assms(3,4)] show ?thesis .
qed

theorem construire_arbre_huffman_optimal_witness:
  "distinct (map fst [(CHR ''a'', 2::int), (CHR ''b'', 2), (CHR ''c'', 1)]) \<and>
   construire_arbre_huffman (creer_noeuds_feuilles [(CHR ''a'', 2::int), (CHR ''b'', 2), (CHR ''c'', 1)]) =
     Inr (Some (Noeud None 5 (Some (Noeud (Some CHR ''a'') 2 None None))
       (Some (Noeud None 3 (Some (Noeud (Some CHR ''c'') 1 None None)) (Some (Noeud (Some CHR ''b'') 2 None None)))))) \<and>
   arbre_plein (Noeud None 5 (Some (Noeud None 4 (Some (Noeud (Some CHR ''a'') 2 None None))
       (Some (Noeud (Some CHR ''b'') 2 None None)))) (Some (Noeud (Some CHR ''c'') 1 None None))) \<and>
   mset (feuilles (Noeud None 5 (Some (Noeud None 4 (Some (Noeud (Some CHR ''a'') 2 None None))
       (Some (Noeud (Some CHR ''b'') 2 None None)))) (Some (Noeud (Some CHR ''c'') 1 None None)))) =
     mset [(CHR ''a'', 2::int), (CHR ''b'', 2), (CHR ''c'', 1)] \<and>
   longueur_ponderee (Noeud None 5 (Some (Noeud (Some CHR ''a'') 2 None None))
       (Some (Noeud None 3 (Some (Noeud (Some CHR ''c'') 1 None None)) (Some (Noeud (Some CHR ''b'') 2 None None))))) = 8 \<and>
   longueur_ponderee (Noeud None 5 (Some (Noeud None 4 (Some (Noeud (Some CHR ''a'') 2 None None))
       (Some (Noeud (Some CHR ''b'') 2 None None)))) (Some (Noeud (Some CHR ''c'') 1 None None))) = 9"
proof -
  have b: "construire_arbre_huffman (creer_noeuds_feuilles [(CHR ''a'', 2::int), (CHR ''b'', 2), (CHR ''c'', 1)]) =
     Inr (Some (Noeud None 5 (Some (Noeud (Some CHR ''a'') 2 None None))
       (Some (Noeud None 3 (Some (Noeud (Some CHR ''c'') 1 None None)) (Some (Noeud (Some CHR ''b'') 2 None None))))))"
    by code_simp
  have "mset (feuilles (Noeud None 5 (Some (Noeud None 4 (Some (Noeud (Some CHR ''a'') 2 None None))
       (Some (Noeud (Some CHR ''b'') 2 None None)))) (Some (Noeud (Some CHR ''c'') 1 None None)))) =
     mset [(CHR ''a'', 2::int), (CHR ''b'', 2), (CHR ''c'', 1)]" by simp
  with b construire_arbre_huffman_optimal [OF _ b, of "Noeud None 5 (Some (Noeud None 4 (Some (Noeud (Some CHR ''a'') 2 None None))
       (Some (Noeud (Some CHR ''b'') 2 None None)))) (Some (Noeud (Some CHR ''c'') 1 None None))"]
  show ?thesis by (simp add: longueur_ponderee_def)
qed

end
