(* ===== verification/Codes.thy ===== *)
theory Codes
  imports Construction
begin

text \<open>
  Code tables and encoding. Two generators traverse the tree from the root, appending
  \<open>'0'\<close> on the left and \<open>'1'\<close> on the right, and store the accumulated string at
  each leaf in a dict:
  \<^item> \<^verbatim>\<open>generer_codes\<close> (\<^verbatim>\<open>src/huffman/encodage.py\<close>): its inner \<^verbatim>\<open>parcourir\<close>
    records \<^verbatim>\<open>code or "0"\<close> (\<open>code_ou_zero\<close>) at a node with a symbol (so a one-leaf tree gets
    \<^verbatim>\<open>"0"\<close>) and raises \<^verbatim>\<open>AttributeError\<close> when it reaches a missing child;
  \<^item> \<^verbatim>\<open>generer_codes_huffman\<close> (\<^verbatim>\<open>src/encodage.py\<close>): it first runs the validator
    \<^verbatim>\<open>verifier_arbre_huffman\<close> and raises \<^verbatim>\<open>ValueError\<close> on a rejected tree; its inner
    \<^verbatim>\<open>parcourir_noeud\<close> records the code as it is, the empty string for a one-leaf
    tree.
  \<^verbatim>\<open>encoder\<close> concatenates the codes of the text's symbols and raises
  \<^verbatim>\<open>KeyError\<close> at the first symbol without a code. \<^verbatim>\<open>encoder_texte\<close> of
  \<^verbatim>\<open>src/encodage.py\<close> runs the whole chain on the contents of the input file (the
  file read itself is not modelled: the contents are the argument). The three checks of
  \<^verbatim>\<open>src/encodage.py\<close> (\<^verbatim>\<open>verifier_codes_caracteres\<close>,
  \<^verbatim>\<open>verifier_propriete_prefixe\<close>, \<^verbatim>\<open>verifier_texte_encode_non_vide\<close>) are
  bool-valued functions.
\<close>

abbreviation arbre_abc :: "char noeud" where
  "arbre_abc \<equiv> Noeud None 7
     (Some (Noeud None 2 (Some (Noeud (Some CHR ''c'') 1 None None))
                         (Some (Noeud (Some CHR ''b'') 1 None None))))
     (Some (Noeud (Some CHR ''a'') 5 None None))"

definition code_ou_zero :: "code \<Rightarrow> code" where
  "code_ou_zero code = (if code = [] then ''0'' else code)"

fun parcourir :: "'c noeud option \<Rightarrow> code \<Rightarrow> ('c, code) dict \<Rightarrow> py_error + ('c, code) dict" where
  "parcourir None code codes = Inl AttributeError"
| "parcourir (Some (Noeud c f g d)) code codes =
     (case c of
        Some car \<Rightarrow> Inr (dict_set codes car (code_ou_zero code))
      | None \<Rightarrow>
          (case parcourir g (code @ ''0'') codes of
             Inl e \<Rightarrow> Inl e
           | Inr codes' \<Rightarrow> parcourir d (code @ ''1'') codes'))"

definition generer_codes :: "'c noeud option \<Rightarrow> py_error + ('c, code) dict" where
  "generer_codes racine = parcourir racine [] []"

fun encoder :: "'c list \<Rightarrow> ('c, code) dict \<Rightarrow> py_error + code" where
  "encoder [] codes = Inr []"
| "encoder (car # texte) codes =
     (case map_of codes car of
        None \<Rightarrow> Inl KeyError
      | Some code \<Rightarrow> (case encoder texte codes of Inl e \<Rightarrow> Inl e | Inr s \<Rightarrow> Inr (code @ s)))"

fun parcourir_noeud :: "'c noeud option \<Rightarrow> code \<Rightarrow> ('c, code) dict \<Rightarrow> ('c, code) dict" where
  "parcourir_noeud None code_courant table_codage = table_codage"
| "parcourir_noeud (Some (Noeud c f g d)) code_courant table_codage =
     (if est_feuille (Noeud c f g d) \<and> c \<noteq> None
      then dict_set table_codage (the c) code_courant
      else parcourir_noeud d (code_courant @ ''1'') (parcourir_noeud g (code_courant @ ''0'') table_codage))"

definition generer_codes_huffman :: "'c noeud option \<Rightarrow> py_error + ('c, code) dict" where
  "generer_codes_huffman racine =
     (if \<not> verifier_arbre_huffman racine then Inl ValueError
      else Inr (parcourir_noeud racine [] []))"

definition recuperer_arbre_huffman :: "'c list \<Rightarrow> py_error + 'c noeud option" where
  "recuperer_arbre_huffman contenu =
     construire_arbre_huffman (creer_noeuds_feuilles (calculer_frequences contenu))"

definition encoder_texte :: "'c list \<Rightarrow> py_error + code" where
  "encoder_texte texte_original =
     (case recuperer_arbre_huffman texte_original of
        Inl e \<Rightarrow> Inl e
      | Inr racine \<Rightarrow>
          (case generer_codes_huffman racine of
             Inl e \<Rightarrow> Inl e
           | Inr table_codage \<Rightarrow> encoder texte_original table_codage))"

definition verifier_codes_caracteres :: "('c, code) dict \<Rightarrow> 'c list \<Rightarrow> bool" where
  "verifier_codes_caracteres table_codage texte =
     list_all (\<lambda>car. car \<in> set (dict_keys table_codage)) texte"

definition verifier_propriete_prefixe :: "('c, code) dict \<Rightarrow> bool" where
  "verifier_propriete_prefixe table_codage =
     (let codes = map snd table_codage in
      list_all (\<lambda>i. list_all (\<lambda>j. \<not> (i \<noteq> j \<and> prefix (codes ! i) (codes ! j)))
                               [0..<length codes])
               [0..<length codes])"

definition verifier_texte_encode_non_vide :: "code \<Rightarrow> bool" where
  "verifier_texte_encode_non_vide texte_encode = (0 < length texte_encode)"

subsection \<open>The traversals as folds over the root-to-leaf paths\<close>

lemma parcourir_chemins:
  "arbre_plein t \<Longrightarrow>
   parcourir (Some t) q codes = Inr (foldl (\<lambda>d (c, p). dict_set d c (code_ou_zero p)) codes (chemins t q))"
proof (induction t arbitrary: q codes rule: arbre_plein.induct)
  case (2 f g d)
  then show ?case by simp
qed auto

lemma parcourir_noeud_chemins:
  "arbre_plein t \<Longrightarrow>
   parcourir_noeud (Some t) q table = foldl (\<lambda>d (c, p). dict_set d c p) table (chemins t q)"
proof (induction t arbitrary: q table rule: arbre_plein.induct)
  case (1 c f)
  then show ?case by (simp add: est_feuille_def)
next
  case (2 f g d)
  then show ?case by (simp add: est_feuille_def)
qed auto

lemma chemins_interne_non_vides:
  "caractere t = None \<Longrightarrow> (c, p) \<in> set (chemins t []) \<Longrightarrow> p \<noteq> []"
proof (cases t)
  case (Noeud x f g d)
  assume "caractere t = None" "(c, p) \<in> set (chemins t [])"
  with Noeud show ?thesis
    by (cases g; cases d)
      (auto simp: chemins_prefixe [of _ "''0''"] chemins_prefixe [of _ "''1''"])
qed

text \<open>
  With distinct symbols no key is written twice, so the table is the list of paths
  itself, in traversal order.
\<close>

lemma generer_codes_table:
  "arbre_plein t \<Longrightarrow> distinct (symboles t) \<Longrightarrow>
   generer_codes (Some t) = Inr (map (\<lambda>(c, p). (c, code_ou_zero p)) (chemins t []))"
proof -
  assume t: "arbre_plein t" and dist: "distinct (symboles t)"
  let ?xs = "map (\<lambda>(c, p). (c, code_ou_zero p)) (chemins t [])"
  have keys: "map fst ?xs = symboles t"
    using map_fst_chemins [of t "[]"] by (simp add: case_prod_beta comp_def)
  have "foldl (\<lambda>d (c, p). dict_set d c (code_ou_zero p)) [] (chemins t []) =
      foldl (\<lambda>d (k, v). dict_set d k v) [] ?xs"
    by (simp add: foldl_map split_def)
  also have "\<dots> = ?xs"
    using dist keys foldl_dict_set_fresh [of ?xs "[]"] by (simp add: dict_keys_def)
  finally show ?thesis
    using t by (simp add: generer_codes_def parcourir_chemins)
qed

lemma generer_codes_huffman_table:
  "verifier_arbre_huffman (Some t) \<Longrightarrow> distinct (symboles t) \<Longrightarrow>
   generer_codes_huffman (Some t) = Inr (chemins t [])"
proof -
  assume v: "verifier_arbre_huffman (Some t)" and dist: "distinct (symboles t)"
  from v have t: "arbre_plein t" by (simp add: verifier_arbre_huffman_iff)
  have "foldl (\<lambda>d (c, p). dict_set d c p) [] (chemins t []) = chemins t []"
    using dist foldl_dict_set_fresh [of "chemins t []" "[]"] map_fst_chemins [of t "[]"]
    by (simp add: dict_keys_def)
  with v t show ?thesis
    by (simp add: generer_codes_huffman_def parcourir_noeud_chemins)
qed

lemma code_ou_zero_chemins_interne:
  "caractere t = None \<Longrightarrow>
   map (\<lambda>(c, p). (c, code_ou_zero p)) (chemins t []) = chemins t []"
  by (rule map_idI) (auto simp: code_ou_zero_def dest: chemins_interne_non_vides)

subsection \<open>The checks of \<^verbatim>\<open>src/encodage.py\<close>\<close>

lemma verifier_propriete_prefixe_iff:
  "verifier_propriete_prefixe table = prefix_free (map snd table)"
  unfolding verifier_propriete_prefixe_def prefix_free_nth list_all_iff Let_def set_upt
  by fastforce

lemma verifier_codes_caracteres_iff:
  "verifier_codes_caracteres table texte = (set texte \<subseteq> set (dict_keys table))"
  by (auto simp: verifier_codes_caracteres_def list_all_iff)

subsection \<open>The encoder\<close>

lemma encoder_result:
  "encoder texte codes =
     (if set texte \<subseteq> set (dict_keys codes)
      then Inr (concat (map (\<lambda>c. the (map_of codes c)) texte))
      else Inl KeyError)"
proof (induction texte)
  case (Cons c texte)
  show ?case
  proof (cases "map_of codes c")
    case None
    then have "c \<notin> set (dict_keys codes)" by (simp add: dict_keys_eq_dom domIff)
    with None show ?thesis by simp
  next
    case (Some p)
    then have "c \<in> set (dict_keys codes)" by (simp add: dict_keys_eq_dom domIff)
    with Some Cons.IH show ?thesis by (auto split: if_splits)
  qed
qed simp

subsection \<open>Properties of the code tables and of the encoder\<close>

lemma arbre_plein_feuille_cases:
  "arbre_plein t \<Longrightarrow> caractere t = Some c \<Longrightarrow> t = Noeud (Some c) (frequence t) None None"
  by (cases t) auto

text \<open>
  C5. For a full tree with distinct symbols, \<^verbatim>\<open>generer_codes\<close> returns a table whose
  keys are the tree's symbols, whose codes are all non-empty, and which passes the prefix
  check \<^verbatim>\<open>verifier_propriete_prefixe\<close> of \<^verbatim>\<open>src/encodage.py\<close>.
\<close>

theorem generer_codes_prefixe:
  assumes "arbre_plein t" and "distinct (symboles t)"
  shows "\<exists>table. generer_codes (Some t) = Inr table \<and> dict_keys table = symboles t \<and>
     verifier_propriete_prefixe table \<and> (\<forall>(c, p) \<in> set table. p \<noteq> [])"
proof (cases "caractere t")
  case None
  have "generer_codes (Some t) = Inr (chemins t [])"
    using generer_codes_table [OF assms] code_ou_zero_chemins_interne [OF None] by simp
  moreover have "verifier_propriete_prefixe (chemins t [])"
    using prefix_free_chemins [OF assms(1)] by (simp add: verifier_propriete_prefixe_iff)
  moreover have "\<forall>(c, p) \<in> set (chemins t []). p \<noteq> []"
    using chemins_interne_non_vides [OF None] by blast
  ultimately show ?thesis
    using map_fst_chemins [of t "[]"] by (auto simp: dict_keys_def)
next
  case (Some c)
  with assms(1) have t: "t = Noeud (Some c) (frequence t) None None"
    by (rule arbre_plein_feuille_cases)
  have "generer_codes (Some t) = Inr [(c, ''0'')]"
    by (subst t) (simp add: generer_codes_def code_ou_zero_def)
  moreover have "symboles t = [c]"
    by (subst t) (simp add: symboles_def)
  ultimately show ?thesis
    by (simp add: dict_keys_def verifier_propriete_prefixe_def)
qed

theorem generer_codes_prefixe_witness:
  "arbre_plein arbre_abc \<and> distinct (symboles arbre_abc) \<and>
   (\<exists>table. generer_codes (Some arbre_abc) = Inr table \<and> dict_keys table = symboles arbre_abc \<and>
      verifier_propriete_prefixe table)"
proof -
  have h: "arbre_plein arbre_abc" "distinct (symboles arbre_abc)"
    by (simp_all add: symboles_def)
  show ?thesis using h generer_codes_prefixe [OF h] by blast
qed

text \<open>
  C6. On a valid tree with distinct symbols whose root is an inner node, the generators of
  the two packages, \<^verbatim>\<open>generer_codes\<close> and \<^verbatim>\<open>generer_codes_huffman\<close>, return
  the same table.
\<close>

theorem generer_codes_eq_huffman:
  assumes "verifier_arbre_huffman (Some t)" and "distinct (symboles t)" and "caractere t = None"
  shows "generer_codes (Some t) = generer_codes_huffman (Some t)"
proof -
  from assms(1) have "arbre_plein t" by (simp add: verifier_arbre_huffman_iff)
  with assms show ?thesis
    using generer_codes_table generer_codes_huffman_table code_ou_zero_chemins_interne
    by metis
qed

theorem generer_codes_eq_huffman_witness:
  "verifier_arbre_huffman (Some arbre_abc) \<and> distinct (symboles arbre_abc) \<and>
   caractere arbre_abc = None \<and>
   generer_codes (Some arbre_abc) = generer_codes_huffman (Some arbre_abc)"
proof -
  have h: "verifier_arbre_huffman (Some arbre_abc)" "distinct (symboles arbre_abc)"
      "caractere arbre_abc = None"
    by (simp_all add: symboles_def est_feuille_def)
  show ?thesis using h generer_codes_eq_huffman [OF h] by blast
qed

text \<open>
  C7. On a one-leaf tree the generators differ: \<^verbatim>\<open>generer_codes\<close> gives the symbol
  the code \<^verbatim>\<open>"0"\<close>, \<^verbatim>\<open>generer_codes_huffman\<close> gives it the empty code.
\<close>

theorem generer_codes_feuille_seule:
  assumes "0 < f"
  shows "generer_codes (Some (Noeud (Some c) f None None)) = Inr [(c, ''0'')] \<and>
     generer_codes_huffman (Some (Noeud (Some c) f None None)) = Inr [(c, [])]"
  using assms
  by (simp add: generer_codes_def code_ou_zero_def generer_codes_huffman_def est_feuille_def)

theorem generer_codes_feuille_seule_witness:
  "(0::int) < 4 \<and>
   generer_codes (Some (Noeud (Some CHR ''x'') 4 None None)) = Inr [(CHR ''x'', ''0'')] \<and>
   generer_codes_huffman (Some (Noeud (Some CHR ''x'') 4 None None)) = Inr [(CHR ''x'', [])]"
  using generer_codes_feuille_seule [of 4 "CHR ''x''"] by simp

text \<open>
  C35. The code table of \<^verbatim>\<open>generer_codes\<close> on a full tree with distinct symbols is a
  complete prefix code: the sum over its codes of \<open>2 ^ -length\<close> is 1 (Kraft's
  equality) when the root is an inner node. On a single leaf, the code \<open>'0'\<close> that
  \<^verbatim>\<open>code or "0"\<close> assigns leaves the sum at \<open>1/2\<close>: the code \<open>'1'\<close> is unused.
\<close>

theorem generer_codes_kraft:
  assumes "arbre_plein t" and "distinct (symboles t)"
  shows "\<exists>table. generer_codes (Some t) = Inr table \<and>
    (\<Sum>(c, p)\<leftarrow>table. (1/2 :: rat) ^ length p) = (if caractere t = None then 1 else 1/2)"
proof (cases "caractere t")
  case None
  then show ?thesis
    using generer_codes_table [OF assms] code_ou_zero_chemins_interne [OF None]
      kraft_chemins [OF assms(1), of "[]"] by simp
next
  case (Some c)
  with assms(1) have t: "t = Noeud (Some c) (frequence t) None None"
    by (rule arbre_plein_feuille_cases)
  have "generer_codes (Some t) = Inr [(c, ''0'')]"
    by (subst t) (simp add: generer_codes_def code_ou_zero_def)
  with Some show ?thesis by simp
qed

theorem generer_codes_kraft_witness:
  "arbre_plein arbre_abc \<and> distinct (symboles arbre_abc) \<and>
   (\<exists>table. generer_codes (Some arbre_abc) = Inr table \<and>
      (\<Sum>(c, p)\<leftarrow>table. (1/2 :: rat) ^ length p) = 1)"
  using generer_codes_kraft [of arbre_abc] by (simp add: symboles_def)

text \<open>
  C8. \<^verbatim>\<open>encoder\<close> raises \<^verbatim>\<open>KeyError\<close> exactly when a symbol of the text has no
  code (\<^verbatim>\<open>verifier_codes_caracteres\<close> fails); otherwise it returns the codes of the
  symbols concatenated in text order, whose length is the sum of the code lengths.
\<close>

theorem encoder_codes_manquants:
  "(encoder texte codes = Inl KeyError) = (\<not> verifier_codes_caracteres codes texte) \<and>
   (verifier_codes_caracteres codes texte \<longrightarrow>
      encoder texte codes = Inr (concat (map (\<lambda>c. the (map_of codes c)) texte)) \<and>
      length (concat (map (\<lambda>c. the (map_of codes c)) texte)) =
        sum_list (map (\<lambda>c. length (the (map_of codes c))) texte))"
  by (simp add: encoder_result verifier_codes_caracteres_iff length_concat comp_def)

theorem encoder_codes_manquants_witness:
  "verifier_codes_caracteres [(CHR ''a'', ''0''), (CHR ''b'', ''1'')] ''abba'' \<and>
   encoder ''abba'' [(CHR ''a'', ''0''), (CHR ''b'', ''1'')] = Inr ''0110'' \<and>
   encoder ''abc'' [(CHR ''a'', ''0''), (CHR ''b'', ''1'')] = Inl KeyError"
proof -
  have h: "verifier_codes_caracteres [(CHR ''a'', ''0''), (CHR ''b'', ''1'')] ''abba''"
    by (simp add: verifier_codes_caracteres_def dict_keys_def)
  have n: "\<not> verifier_codes_caracteres [(CHR ''a'', ''0''), (CHR ''b'', ''1'')] ''abc''"
    by (simp add: verifier_codes_caracteres_def dict_keys_def)
  show ?thesis
    using h n encoder_codes_manquants [of "''abba''" "[(CHR ''a'', ''0''), (CHR ''b'', ''1'')]"]
      encoder_codes_manquants [of "''abc''" "[(CHR ''a'', ''0''), (CHR ''b'', ''1'')]"]
    by simp
qed

end
