(* ===== verification/App.thy ===== *)
theory App
  imports Codes
begin

text \<open>
  The Streamlit front end \<^verbatim>\<open>src/huffman/app.py\<close>, as the data it puts on the page.
  The widgets, the layout and the graphviz rendering are not modelled; what is modelled
  is what each widget is given, computed the way the script computes it, in the record
  \<open>affichage_app\<close>:
  \<^item> the frequency table: \<^verbatim>\<open>sorted(..., key=freq, reverse=True)\<close>, which is stable,
    is \<open>sort_key\<close> on the negated count; the first 10 rows are shown with the
    \<^verbatim>\<open>repr\<close> of a newline, tab or space, and the first 15 go to the bar chart;
  \<^item> \<open>visualiser_arbre\<close>, the recursive drawing function with its mutable counter
    \<^verbatim>\<open>node_id[0]\<close>: the graph and the counter are passed explicitly and returned;
    vertices carry the id \<^verbatim>\<open>str(node_id[0])\<close> (\<open>chaine_nat\<close>, Python's \<^verbatim>\<open>str\<close> of an
    integer), the label and the fill colour, edges the parent id, the child id, the bit
    and the colour;
  \<^item> the code table sorted by code length (stable), its first 15 rows, and the minimum,
    maximum and mean code length (the mean as an exact rational, where the page prints
    a float with two decimals);
  \<^item> the two sizes, the compression rate in percent (exact rational) and the first 500
    bits of the encoding.
  A failing step is the error it raises: \<^verbatim>\<open>IndexError\<close> from \<^verbatim>\<open>construire_arbre\<close> on an
  empty file, \<^verbatim>\<open>ValueError\<close> from \<^verbatim>\<open>min\<close> of no lengths, \<^verbatim>\<open>ZeroDivisionError\<close> in the
  rate. Characters are Isabelle's \<open>char\<close>.
\<close>

definition repr_car :: "char \<Rightarrow> string" where
  "repr_car c =
     (if c = CHR 0x0A then [CHR 0x27, CHR 0x5C, CHR ''n'', CHR 0x27]
      else if c = CHR 0x09 then [CHR 0x27, CHR 0x5C, CHR ''t'', CHR 0x27]
      else [CHR 0x27, c, CHR 0x27])"

definition affichage_car :: "char \<Rightarrow> string" where
  "affichage_car c = (if c \<in> set [CHR 0x0A, CHR 0x09, CHR '' ''] then repr_car c else [c])"

fun chaine_nat :: "nat \<Rightarrow> string" where
  "chaine_nat n =
     (if n < 10 then [char_of (48 + n)] else chaine_nat (n div 10) @ [char_of (48 + n mod 10)])"

declare chaine_nat.simps [simp del]

definition chaine_int :: "int \<Rightarrow> string" where
  "chaine_int i = (if i < 0 then CHR ''-'' # chaine_nat (nat (- i)) else chaine_nat (nat i))"

record graphe =
  sommets :: "(string \<times> string \<times> string) list"
  aretes :: "(string \<times> string \<times> string \<times> string) list"

definition graphe_vide :: graphe where
  "graphe_vide = \<lparr>sommets = [], aretes = []\<rparr>"

definition etiquette_sommet :: "char option \<Rightarrow> int \<Rightarrow> string \<times> string" where
  "etiquette_sommet c f =
     (case c of
        Some ch \<Rightarrow> (affichage_car ch @ CHR 0x0A # CHR ''('' # chaine_int f @ '')'', ''lightblue'')
      | None \<Rightarrow> (chaine_int f, ''lightgray''))"

definition dessiner_noeud ::
  "string option \<Rightarrow> string \<Rightarrow> char option \<Rightarrow> int \<Rightarrow> string \<Rightarrow> graphe \<Rightarrow> graphe" where
  "dessiner_noeud parent edge_label c f current_id graph =
     (let graph1 = graph\<lparr>sommets := sommets graph @ [(current_id, etiquette_sommet c f)]\<rparr> in
      case parent of
        None \<Rightarrow> graph1
      | Some p \<Rightarrow> graph1\<lparr>aretes := aretes graph1 @
          [(p, current_id, edge_label, if edge_label = ''0'' then ''red'' else ''green'')]\<rparr>)"

fun visualiser_arbre :: "char noeud \<Rightarrow> string option \<Rightarrow> string \<Rightarrow> graphe \<times> nat \<Rightarrow> graphe \<times> nat"
and visiter_enfant :: "char noeud option \<Rightarrow> string \<Rightarrow> string \<Rightarrow> graphe \<times> nat \<Rightarrow> graphe \<times> nat" where
  "visualiser_arbre (Noeud c f g d) parent edge_label (graph, node_id) =
     (let current_id = chaine_nat node_id in
      visiter_enfant d current_id ''1''
        (visiter_enfant g current_id ''0''
          (dessiner_noeud parent edge_label c f current_id graph, Suc node_id)))"
| "visiter_enfant None parent edge_label etat = etat"
| "visiter_enfant (Some n) parent edge_label etat = visualiser_arbre n (Some parent) edge_label etat"

record affichage_app =
  longueur_texte :: nat
  tableau_frequences :: "(string \<times> int) list"
  autres_caracteres :: "nat option"
  graphique :: "(char \<times> int) list"
  graphe_arbre :: graphe
  table_codes :: "(string \<times> code) list"
  autres_codes :: "nat option"
  longueur_min :: nat
  longueur_max :: nat
  longueur_moyenne :: rat
  taille_originale :: nat
  taille_encodee :: nat
  taux_compression :: rat
  apercu :: string

definition app :: "string \<Rightarrow> py_error + affichage_app" where
  "app texte =
     (let frequences = analyser_frequences texte;
          freq_sorted = sort_key (\<lambda>(c, f). - f) frequences in
      case construire_arbre frequences of
        Inl e \<Rightarrow> Inl e
      | Inr arbre \<Rightarrow>
          (let graph = fst (visualiser_arbre arbre None [] (graphe_vide, 0)) in
           case generer_codes (Some arbre) of
             Inl e \<Rightarrow> Inl e
           | Inr codes \<Rightarrow>
               (let codes_sorted = sort_key (\<lambda>(c, p). length p) codes;
                    code_lengths = map (\<lambda>(c, p). length p) codes in
                if code_lengths = [] then Inl ValueError
                else (case encoder texte codes of
                  Inl e \<Rightarrow> Inl e
                | Inr texte_encode \<Rightarrow>
                    if length texte * 8 = 0 then Inl ZeroDivisionError
                    else Inr \<lparr>longueur_texte = length texte,
                      tableau_frequences = map (\<lambda>(c, f). (affichage_car c, f)) (take 10 freq_sorted),
                      autres_caracteres = (if 10 < length freq_sorted then Some (length freq_sorted - 10) else None),
                      graphique = take 15 freq_sorted,
                      graphe_arbre = graph,
                      table_codes = map (\<lambda>(c, p). (affichage_car c, p)) (take 15 codes_sorted),
                      autres_codes = (if 15 < length codes_sorted then Some (length codes_sorted - 15) else None),
                      longueur_min = Min (set code_lengths),
                      longueur_max = Max (set code_lengths),
                      longueur_moyenne = of_nat (sum_list code_lengths) / of_nat (length code_lengths),
                      taille_originale = length texte * 8,
                      taille_encodee = length texte_encode,
                      taux_compression = (1 - of_nat (length texte_encode) / of_nat (length texte * 8)) * 100,
                      apercu = take 500 texte_encode @ (if 500 < length texte_encode then ''...'' else [])\<rparr>))))"

text \<open>
  Abstractions used by the proofs: the number of nodes of a tree, and the reading of a
  decimal string (Python's \<^verbatim>\<open>int\<close> of a string of digits), the inverse of \<open>chaine_nat\<close>.
\<close>

fun nb_noeuds :: "'c noeud \<Rightarrow> nat"
and nb_enfant :: "'c noeud option \<Rightarrow> nat" where
  "nb_noeuds (Noeud c f g d) = Suc (nb_enfant g + nb_enfant d)"
| "nb_enfant None = 0"
| "nb_enfant (Some n) = nb_noeuds n"

definition lire_nat :: "string \<Rightarrow> nat" where
  "lire_nat s = foldl (\<lambda>n c. 10 * n + (of_char c - 48)) 0 s"

subsection \<open>The drawing of the tree\<close>

lemma visualiser_compteur:
  "snd (visualiser_arbre t p l e) = snd e + nb_noeuds t \<and>
   map fst (sommets (fst (visualiser_arbre t p l e))) =
     map fst (sommets (fst e)) @ map chaine_nat [snd e..<snd e + nb_noeuds t] \<and>
   length (aretes (fst (visualiser_arbre t p l e))) + (if p = None then 1 else 0) =
     length (aretes (fst e)) + nb_noeuds t"
  "snd (visiter_enfant m q l e) = snd e + nb_enfant m \<and>
   map fst (sommets (fst (visiter_enfant m q l e))) =
     map fst (sommets (fst e)) @ map chaine_nat [snd e..<snd e + nb_enfant m] \<and>
   length (aretes (fst (visiter_enfant m q l e))) = length (aretes (fst e)) + nb_enfant m"
proof (induction t p l e and m q l e rule: visualiser_arbre_visiter_enfant.induct)
  case (1 c f g d parent edge_label graph node_id)
  let ?cid = "chaine_nat node_id"
  let ?e1 = "(dessiner_noeud parent edge_label c f ?cid graph, Suc node_id)"
  have s2: "map fst (sommets (fst ?e1)) = map fst (sommets graph) @ [?cid]"
    by (simp add: dessiner_noeud_def Let_def split: option.split)
  have a2: "length (aretes (fst ?e1)) + (if parent = None then 1 else 0) = length (aretes graph) + 1"
    by (simp add: dessiner_noeud_def Let_def split: option.split)
  let ?e2 = "visiter_enfant g ?cid ''0'' ?e1"
  have ih1: "snd ?e2 = Suc node_id + nb_enfant g \<and>
      map fst (sommets (fst ?e2)) = map fst (sommets graph) @ [?cid] @
        map chaine_nat [Suc node_id..<Suc node_id + nb_enfant g] \<and>
      length (aretes (fst ?e2)) = length (aretes (fst ?e1)) + nb_enfant g"
    using "1.IH"(1) [OF refl] s2 by simp
  note ih2 = "1.IH"(2) [OF refl]
  have n: "node_id + nb_noeuds (Noeud c f g d) = Suc node_id + nb_enfant g + nb_enfant d" by simp
  have c: "[node_id..<Suc node_id + nb_enfant g + nb_enfant d] =
      node_id # [Suc node_id..<Suc node_id + nb_enfant g + nb_enfant d]"
    by (rule upt_conv_Cons) simp
  have p: "[Suc node_id..<Suc node_id + nb_enfant g + nb_enfant d] =
      [Suc node_id..<Suc node_id + nb_enfant g] @
      [Suc node_id + nb_enfant g..<Suc node_id + nb_enfant g + nb_enfant d]"
    by (rule upt_add_eq_append) simp
  have u: "[node_id..<node_id + nb_noeuds (Noeud c f g d)] =
      node_id # [Suc node_id..<Suc node_id + nb_enfant g] @
      [Suc node_id + nb_enfant g..<Suc node_id + nb_enfant g + nb_enfant d]"
    unfolding n c p by (rule refl)
  show ?case
    using ih1 ih2 a2 u by (simp add: Let_def del: upt_Suc)
next
  case 2 then show ?case by simp
next
  case 3 then show ?case by simp
qed

lemma lire_chaine_nat: "lire_nat (chaine_nat n) = n"
proof (induction n rule: chaine_nat.induct)
  case (1 n)
  have ch: "of_char (char_of (48 + k) :: char) - 48 = k" if "k < 10" for k :: nat
    using that by (simp add: of_char_of)
  show ?case
  proof (cases "n < 10")
    case True
    then show ?thesis by (simp add: chaine_nat.simps [of n] lire_nat_def ch)
  next
    case False
    then have "lire_nat (chaine_nat n) = 10 * lire_nat (chaine_nat (n div 10)) + n mod 10"
      by (simp add: chaine_nat.simps [of n] lire_nat_def ch)
    with "1.IH" False show ?thesis by simp
  qed
qed

lemma chaine_nat_inj: "inj chaine_nat"
  by (rule inj_on_inverseI [of _ lire_nat]) (rule lire_chaine_nat)

lemma visualiser_nb_sommets:
  "length (sommets (fst (visualiser_arbre t None [] (graphe_vide, 0)))) = nb_noeuds t"
  using arg_cong [OF conjunct1 [OF conjunct2 [OF visualiser_compteur(1) [of t None "[]" "(graphe_vide, 0)"]]],
      of length]
  by (simp add: graphe_vide_def)

lemma nb_noeuds_plein: "arbre_plein t \<Longrightarrow> nb_noeuds t = length (feuilles t) + internes t"
  by (induction t rule: arbre_plein.induct) auto

subsection \<open>The page\<close>

lemma app_Inr:
  assumes "app texte = Inr a"
  shows "\<exists>arbre codes s. construire_arbre (analyser_frequences texte) = Inr arbre \<and>
    generer_codes (Some arbre) = Inr codes \<and> codes \<noteq> [] \<and> encoder texte codes = Inr s \<and> texte \<noteq> [] \<and>
    tableau_frequences a = map (\<lambda>(c, f). (affichage_car c, f))
      (take 10 (sort_key (\<lambda>(c, f). - f) (analyser_frequences texte))) \<and>
    graphe_arbre a = fst (visualiser_arbre arbre None [] (graphe_vide, 0)) \<and>
    table_codes a = map (\<lambda>(c, p). (affichage_car c, p)) (take 15 (sort_key (\<lambda>(c, p). length p) codes)) \<and>
    longueur_min a = Min (set (map (\<lambda>(c, p). length p) codes)) \<and>
    longueur_max a = Max (set (map (\<lambda>(c, p). length p) codes)) \<and>
    longueur_moyenne a = of_nat (sum_list (map (\<lambda>(c, p). length p) codes)) / of_nat (length codes) \<and>
    taille_originale a = length texte * 8 \<and> taille_encodee a = length s \<and>
    taux_compression a = (1 - of_nat (length s) / of_nat (length texte * 8)) * 100 \<and>
    apercu a = take 500 s @ (if 500 < length s then ''...'' else [])"
proof -
  let ?f = "analyser_frequences texte"
  obtain arbre where A: "construire_arbre ?f = Inr arbre"
    using assms by (cases "construire_arbre ?f") (simp_all add: app_def Let_def)
  obtain codes where C: "generer_codes (Some arbre) = Inr codes"
    using assms A by (cases "generer_codes (Some arbre)") (simp_all add: app_def Let_def)
  have ne: "codes \<noteq> []"
    using assms A C by (auto simp: app_def Let_def)
  obtain s where S: "encoder texte codes = Inr s"
    using assms A C ne by (cases "encoder texte codes") (simp_all add: app_def Let_def)
  have t: "texte \<noteq> []"
    using assms A C ne S by (auto simp: app_def Let_def)
  have "a = \<lparr>longueur_texte = length texte,
      tableau_frequences = map (\<lambda>(c, f). (affichage_car c, f)) (take 10 (sort_key (\<lambda>(c, f). - f) ?f)),
      autres_caracteres = (if 10 < length (sort_key (\<lambda>(c, f). - f) ?f)
        then Some (length (sort_key (\<lambda>(c, f). - f) ?f) - 10) else None),
      graphique = take 15 (sort_key (\<lambda>(c, f). - f) ?f),
      graphe_arbre = fst (visualiser_arbre arbre None [] (graphe_vide, 0)),
      table_codes = map (\<lambda>(c, p). (affichage_car c, p)) (take 15 (sort_key (\<lambda>(c, p). length p) codes)),
      autres_codes = (if 15 < length (sort_key (\<lambda>(c, p). length p) codes)
        then Some (length (sort_key (\<lambda>(c, p). length p) codes) - 15) else None),
      longueur_min = Min (set (map (\<lambda>(c, p). length p) codes)),
      longueur_max = Max (set (map (\<lambda>(c, p). length p) codes)),
      longueur_moyenne = of_nat (sum_list (map (\<lambda>(c, p). length p) codes)) /
        of_nat (length (map (\<lambda>(c, p). length p) codes)),
      taille_originale = length texte * 8, taille_encodee = length s,
      taux_compression = (1 - of_nat (length s) / of_nat (length texte * 8)) * 100,
      apercu = take 500 s @ (if 500 < length s then ''...'' else [])\<rparr>"
    using assms A C ne S t by (simp add: app_def Let_def)
  then show ?thesis using A C ne S t by simp
qed

lemma app_succes:
  assumes "construire_arbre (analyser_frequences texte) = Inr arbre"
    and "generer_codes (Some arbre) = Inr codes" and "codes \<noteq> []"
    and "encoder texte codes = Inr s" and "texte \<noteq> []"
  shows "\<exists>a. app texte = Inr a"
  using assms by (simp add: app_def Let_def)

subsection \<open>Properties of the page\<close>

text \<open>
  C27. The drawing of \<^verbatim>\<open>visualiser_arbre\<close>, started as \<^verbatim>\<open>app.py\<close> starts it (no
  parent, counter \<open>[0]\<close>), numbers the vertices \<open>0, 1, \<dots>\<close> in preorder, one per node
  of the tree, so that the graphviz identifiers are distinct and no two nodes are merged;
  every node but the root gets exactly one incoming edge, and the counter ends at the
  number of nodes.
\<close>

theorem visualiser_arbre_graphe:
  "visualiser_arbre t None [] (graphe_vide, 0) = (g, n) \<Longrightarrow>
   n = nb_noeuds t \<and> map fst (sommets g) = map chaine_nat [0..<n] \<and>
   distinct (map fst (sommets g)) \<and> Suc (length (aretes g)) = n"
  using visualiser_compteur(1) [of t None "[]" "(graphe_vide, 0)"] chaine_nat_inj
  by (auto simp: graphe_vide_def distinct_map intro: inj_on_subset [of chaine_nat UNIV])

theorem visualiser_arbre_graphe_witness:
  "visualiser_arbre (Noeud None 3 (Some (Noeud (Some CHR ''a'') 2 None None))
       (Some (Noeud (Some CHR ''b'') 1 None None))) None [] (graphe_vide, 0) =
     (\<lparr>sommets = [(''0'', ''3'', ''lightgray''), (''1'', [CHR ''a'', CHR 0x0A] @ ''(2)'', ''lightblue''),
                   (''2'', [CHR ''b'', CHR 0x0A] @ ''(1)'', ''lightblue'')],
       aretes = [(''0'', ''1'', ''0'', ''red''), (''0'', ''2'', ''1'', ''green'')]\<rparr>, 3) \<and>
   3 = nb_noeuds (Noeud None 3 (Some (Noeud (Some CHR ''a'') 2 None None))
       (Some (Noeud (Some CHR ''b'') 1 None None))) \<and>
   distinct [''0'', ''1'', ''2'']"
proof -
  have v: "visualiser_arbre (Noeud None 3 (Some (Noeud (Some CHR ''a'') 2 None None))
       (Some (Noeud (Some CHR ''b'') 1 None None))) None [] (graphe_vide, 0) =
     (\<lparr>sommets = [(''0'', ''3'', ''lightgray''), (''1'', [CHR ''a'', CHR 0x0A] @ ''(2)'', ''lightblue''),
                   (''2'', [CHR ''b'', CHR 0x0A] @ ''(1)'', ''lightblue'')],
       aretes = [(''0'', ''1'', ''0'', ''red''), (''0'', ''2'', ''1'', ''green'')]\<rparr>, 3)"
    by code_simp
  note d = visualiser_arbre_graphe [OF v]
  show ?thesis using v d [THEN conjunct1] d [THEN conjunct2, THEN conjunct2, THEN conjunct1] by simp
qed

end
