(* ===== verification/Decodage.thy ===== *)
theory Decodage
  imports Codes
begin

text \<open>
  The decoder of \<^verbatim>\<open>src/huffman/decodage.py\<close>. A cursor \<^verbatim>\<open>noeud\<close> starts at
  the root; for each character of the encoded string it moves to the left child on
  \<^verbatim>\<open>'0'\<close> and to the right child on any other character; when the new node carries a
  symbol, the symbol is appended to the result and the cursor goes back to the root.
  Reading a child of \<^verbatim>\<open>None\<close>, or the symbol of \<^verbatim>\<open>None\<close>, raises
  \<^verbatim>\<open>AttributeError\<close>. When the input ends with the cursor inside the tree, the symbols
  decoded so far are returned and the unfinished path is dropped without an error.
  \<open>decoder_boucle\<close> is the \<^verbatim>\<open>for\<close> loop (the loop variable \<^verbatim>\<open>bit\<close> is
  \<open>b\<close> here, \<open>bit\<close> being a library constant) with the cursor and the result list threaded
  through.

  Shown here: following the path of a leaf from an inner node emits that leaf's symbol
  and returns to the root (\<open>decoder_chemin\<close>), hence decoding the encoding of a text
  with a tree whose root is an inner node gives the text back.
\<close>

fun decoder_boucle :: "'c noeud option \<Rightarrow> 'c noeud option \<Rightarrow> char list \<Rightarrow> 'c list \<Rightarrow> py_error + 'c list" where
  "decoder_boucle racine noeud [] resultat = Inr resultat"
| "decoder_boucle racine noeud (b # bs) resultat =
     (case noeud of
        None \<Rightarrow> Inl AttributeError
      | Some n \<Rightarrow>
          (let noeud' = (if b = CHR ''0'' then gauche n else droit n) in
           case noeud' of
             None \<Rightarrow> Inl AttributeError
           | Some n' \<Rightarrow>
               (case caractere n' of
                  Some c \<Rightarrow> decoder_boucle racine racine bs (resultat @ [c])
                | None \<Rightarrow> decoder_boucle racine noeud' bs resultat)))"

definition decoder :: "char list \<Rightarrow> 'c noeud option \<Rightarrow> py_error + 'c list" where
  "decoder texte_encode racine = decoder_boucle racine racine texte_encode []"

text \<open>
  \<^verbatim>\<open>calculer_stats\<close> computes the original size (8 bits per character), the encoded
  size, their ratio and the gain, and prints them. The ratio is a Python float; here it is
  the exact rational, so the rounding of the division and of the two-decimal display is not
  modelled. An empty original text makes the division raise \<^verbatim>\<open>ZeroDivisionError\<close>.
\<close>

record stats =
  original :: nat
  compresse :: nat
  taux :: rat
  gain :: rat

definition calculer_stats :: "'c list \<Rightarrow> code \<Rightarrow> py_error + stats" where
  "calculer_stats texte_original texte_encode =
     (let original = length texte_original * 8; compresse = length texte_encode in
      if original = 0 then Inl ZeroDivisionError
      else (let taux = of_nat compresse / of_nat original in
            Inr \<lparr>original = original, compresse = compresse, taux = taux, gain = 1 - taux\<rparr>))"

subsection \<open>Decoding along a path\<close>

lemma decoder_chemin:
  "arbre_plein n \<Longrightarrow> caractere n = None \<Longrightarrow> (x, p) \<in> set (chemins n []) \<Longrightarrow>
   decoder_boucle r (Some n) (p @ rest) acc = decoder_boucle r r rest (acc @ [x])"
proof (induction n arbitrary: x p acc rule: arbre_plein.induct)
  case (2 f g d)
  from "2.prems"(3) have "(x, p) \<in> set (map (\<lambda>(c, p). (c, CHR ''0'' # p)) (chemins g []) @
      map (\<lambda>(c, p). (c, CHR ''1'' # p)) (chemins d []))"
    by (simp only: chemins_interne)
  then consider
      (G) p' where "p = CHR ''0'' # p'" "(x, p') \<in> set (chemins g [])"
    | (D) p' where "p = CHR ''1'' # p'" "(x, p') \<in> set (chemins d [])"
    by auto
  then show ?case
  proof cases
    case G
    show ?thesis
    proof (cases "caractere g")
      case None
      with "2.IH"(1) "2.prems"(1) G show ?thesis by simp
    next
      case (Some y)
      with "2.prems"(1) G have "x = y" "p' = []" by (cases g; auto)+
      with Some G show ?thesis by simp
    qed
  next
    case D
    show ?thesis
    proof (cases "caractere d")
      case None
      with "2.IH"(2) "2.prems"(1) D show ?thesis by simp
    next
      case (Some y)
      with "2.prems"(1) D have "x = y" "p' = []" by (cases d; auto)+
      with Some D show ?thesis by simp
    qed
  qed
qed auto

lemma decoder_concat:
  "arbre_plein t \<Longrightarrow> caractere t = None \<Longrightarrow>
   (\<And>c. c \<in> set texte \<Longrightarrow> (c, code c) \<in> set (chemins t [])) \<Longrightarrow>
   decoder_boucle (Some t) (Some t) (concat (map code texte) @ rest) acc =
   decoder_boucle (Some t) (Some t) rest (acc @ texte)"
proof (induction texte arbitrary: acc)
  case (Cons c texte)
  from Cons.prems(3) have "(c, code c) \<in> set (chemins t [])" by auto
  from decoder_chemin [OF Cons.prems(1,2) this]
  have "decoder_boucle (Some t) (Some t) (code c @ concat (map code texte) @ rest) acc =
      decoder_boucle (Some t) (Some t) (concat (map code texte) @ rest) (acc @ [c])" .
  with Cons.IH [of "acc @ [c]"] Cons.prems show ?case by simp
qed simp

lemma decoder_prefixe_strict:
  "arbre_plein n \<Longrightarrow> caractere n = None \<Longrightarrow> (x, p) \<in> set (chemins n []) \<Longrightarrow>
   strict_prefix q p \<Longrightarrow> decoder_boucle r (Some n) q acc = Inr acc"
proof (induction n arbitrary: x p q rule: arbre_plein.induct)
  case (2 f g d)
  show ?case
  proof (cases q)
    case (Cons b q')
    from "2.prems"(3) have "(x, p) \<in> set (map (\<lambda>(c, p). (c, CHR ''0'' # p)) (chemins g []) @
        map (\<lambda>(c, p). (c, CHR ''1'' # p)) (chemins d []))"
      by (simp only: chemins_interne)
    then consider
        (G) p' where "p = CHR ''0'' # p'" "(x, p') \<in> set (chemins g [])"
      | (D) p' where "p = CHR ''1'' # p'" "(x, p') \<in> set (chemins d [])"
      by auto
    then show ?thesis
    proof cases
      case G
      with Cons "2.prems"(4) have b: "b = CHR ''0''" and sp: "strict_prefix q' p'"
        by (auto simp: strict_prefix_def)
      show ?thesis
      proof (cases "caractere g")
        case None
        with "2.IH"(1) "2.prems"(1) G sp Cons b show ?thesis by simp
      next
        case (Some y)
        with "2.prems"(1) G have "p' = []" by (cases g; auto)
        with sp show ?thesis by simp
      qed
    next
      case D
      with Cons "2.prems"(4) have b: "b = CHR ''1''" and sp: "strict_prefix q' p'"
        by (auto simp: strict_prefix_def)
      show ?thesis
      proof (cases "caractere d")
        case None
        with "2.IH"(2) "2.prems"(1) D sp Cons b show ?thesis by simp
      next
        case (Some y)
        with "2.prems"(1) D have "p' = []" by (cases d; auto)
        with sp show ?thesis by simp
      qed
    qed
  qed simp
qed auto

lemma encoder_table_chemins:
  assumes "set table \<subseteq> set (chemins t [])" and "encoder texte table = Inr s"
  shows "s = concat (map (\<lambda>c. the (map_of table c)) texte) \<and>
    (\<forall>c \<in> set texte. (c, the (map_of table c)) \<in> set (chemins t []))"
proof -
  from assms(2) have keys: "set texte \<subseteq> set (dict_keys table)" and
    s: "s = concat (map (\<lambda>c. the (map_of table c)) texte)"
    by (simp_all add: encoder_result split: if_splits)
  have "(c, the (map_of table c)) \<in> set (chemins t [])" if "c \<in> set texte" for c
  proof -
    from that keys obtain p where "map_of table c = Some p"
      by (auto simp: dict_keys_eq_dom)
    then have "(c, p) \<in> set table" by (rule map_of_SomeD)
    with assms(1) \<open>map_of table c = Some p\<close> show ?thesis by auto
  qed
  with s show ?thesis by blast
qed

subsection \<open>Decoding an encoded text\<close>

text \<open>
  C9. With a full tree whose root is an inner node and any code table drawn from its
  root-to-leaf paths, decoding the encoding of a text gives the text back.
\<close>

theorem decoder_encoder:
  assumes "arbre_plein t" and "caractere t = None" and "set table \<subseteq> set (chemins t [])"
    and "encoder texte table = Inr s"
  shows "decoder s (Some t) = Inr texte"
  using encoder_table_chemins [OF assms(3,4)]
    decoder_concat [OF assms(1,2), of texte "\<lambda>c. the (map_of table c)" "[]" "[]"]
  by (simp add: decoder_def)

theorem decoder_encoder_witness:
  "arbre_plein arbre_abc \<and> caractere arbre_abc = None \<and>
   set (chemins arbre_abc []) \<subseteq> set (chemins arbre_abc []) \<and>
   encoder ''aabbc'' (chemins arbre_abc []) = Inr ''11010100'' \<and>
   decoder ''11010100'' (Some arbre_abc) = Inr ''aabbc''"
proof -
  have h: "arbre_plein arbre_abc" "caractere arbre_abc = None"
      "set (chemins arbre_abc []) \<subseteq> set (chemins arbre_abc [])"
      "encoder ''aabbc'' (chemins arbre_abc []) = Inr ''11010100''"
    by simp_all
  show ?thesis using h decoder_encoder [OF h] by blast
qed

text \<open>
  C10. A stream cut inside the path of its last symbol decodes without an error: the
  symbols before it come back and the unfinished path is dropped silently.
\<close>

theorem decoder_flux_tronque:
  assumes "arbre_plein t" and "caractere t = None" and "set table \<subseteq> set (chemins t [])"
    and "encoder texte table = Inr s" and "(x, p) \<in> set (chemins t [])"
  shows "decoder (s @ butlast p) (Some t) = Inr texte"
proof -
  from chemins_interne_non_vides [OF assms(2,5)] have "strict_prefix (butlast p) p"
    by (metis append_butlast_last_id prefixI strict_prefixI' strict_prefix_def)
  from decoder_prefixe_strict [OF assms(1,2,5) this]
  have tail: "decoder_boucle (Some t) (Some t) (butlast p) texte = Inr texte" .
  from encoder_table_chemins [OF assms(3,4)]
  have s: "s = concat (map (\<lambda>c. the (map_of table c)) texte)"
    and cs: "\<forall>c \<in> set texte. (c, the (map_of table c)) \<in> set (chemins t [])" by blast+
  from decoder_concat [OF assms(1,2), of texte "\<lambda>c. the (map_of table c)" "butlast p" "[]"] cs
  have "decoder_boucle (Some t) (Some t) (s @ butlast p) [] =
      decoder_boucle (Some t) (Some t) (butlast p) texte"
    by (simp add: s)
  with tail show ?thesis by (simp add: decoder_def)
qed

theorem decoder_flux_tronque_witness:
  "arbre_plein arbre_abc \<and> caractere arbre_abc = None \<and>
   set (chemins arbre_abc []) \<subseteq> set (chemins arbre_abc []) \<and>
   encoder ''ab'' (chemins arbre_abc []) = Inr ''101'' \<and>
   (CHR ''c'', ''00'') \<in> set (chemins arbre_abc []) \<and>
   decoder (''101'' @ ''0'') (Some arbre_abc) = Inr ''ab''"
proof -
  have h: "arbre_plein arbre_abc" "caractere arbre_abc = None"
      "set (chemins arbre_abc []) \<subseteq> set (chemins arbre_abc [])"
      "encoder ''ab'' (chemins arbre_abc []) = Inr ''101''"
      "(CHR ''c'', ''00'') \<in> set (chemins arbre_abc [])"
    by simp_all
  show ?thesis using h decoder_flux_tronque [OF h] by simp
qed

text \<open>
  C11. The decoder reads every character other than \<^verbatim>\<open>'0'\<close> as a \<^verbatim>\<open>'1'\<close>:
  decoding a string gives the same result as decoding its normalisation to
  \<^verbatim>\<open>'0'\<close>/\<^verbatim>\<open>'1'\<close>, so a malformed character is never reported.
\<close>

theorem decoder_caracteres_non_binaires:
  "decoder s r = decoder (map (\<lambda>b. if b = CHR ''0'' then CHR ''0'' else CHR ''1'') s) r"
proof -
  have "decoder_boucle r n s acc =
      decoder_boucle r n (map (\<lambda>b. if b = CHR ''0'' then CHR ''0'' else CHR ''1'') s) acc"
    for n acc
  proof (induction s arbitrary: n acc)
    case (Cons b s)
    then show ?case by (simp add: Let_def split: option.split)
  qed simp
  then show ?thesis by (simp add: decoder_def)
qed

end
