(* ===== verification/Scripts.thy ===== *)
theory Scripts
  imports Decodage
begin

text \<open>
  The script parts of the top-level modules: what their \<^verbatim>\<open>__main__\<close> blocks and in-file
  unit tests compute.
  \<^item> \<^verbatim>\<open>sauvegarder_texte_encode\<close> (\<^verbatim>\<open>src/encodage.py\<close>) derives the output file name
    from the given one with \<^verbatim>\<open>str.rfind\<close> and slicing. \<open>rfind\<close> returns \<open>-1\<close> when the
    character is absent, and \<open>tranche_avant\<close>/\<open>tranche_apres\<close> are
    \<^verbatim>\<open>s[:k]\<close>/\<^verbatim>\<open>s[k:]\<close> with Python's reading of a negative index. The function
    then compares the encoded size with 8 bits per character of \<^verbatim>\<open>test.txt\<close>. The
    file write and the prints are not modelled; the record \<open>sauvegarde\<close> holds the
    name written to, the data, the two sizes and which message is printed. The
    \<^verbatim>\<open>'\<close>e with acute accent\<^verbatim>\<open>'\<close> of the suffix is the character \<open>CHR 0xE9\<close>
    (its code point).
  \<^item> \<open>encodage_main\<close> is the \<^verbatim>\<open>__main__\<close> block of \<^verbatim>\<open>src/encodage.py\<close>. It builds
    the tree and the table from \<^verbatim>\<open>test.txt\<close> (the argument), encodes, saves, and checks
    the three \<^verbatim>\<open>verifier_*\<close> functions with \<^verbatim>\<open>assert\<close>: a failed assertion is
    \<^verbatim>\<open>AssertionError\<close>.
  \<^item> The unit tests of \<^verbatim>\<open>src/analyse_frequences.py\<close> and \<^verbatim>\<open>src/construction_arbre.py\<close>
    are values of type \<open>py_error + unit\<close>, run in sequence by
    \<open>executer_tous_les_tests\<close>. Python's dict equality ignores the order of the keys:
    \<open>dict_egal\<close> compares the sets of entries, which is the same for dicts with
    distinct keys.
  \<^item> \<open>compter_get\<close> is the counting loop of the \<^verbatim>\<open>__main__\<close> block of
    \<^verbatim>\<open>src/construction_arbre.py\<close>: \<^verbatim>\<open>frequences[c] = frequences.get(c, 0) + 1\<close>.
\<close>

definition rfind :: "string \<Rightarrow> char \<Rightarrow> int" where
  "rfind s c = (case filter (\<lambda>i. s ! i = c) [0..<length s] of [] \<Rightarrow> -1 | is \<Rightarrow> int (last is))"

definition tranche_avant :: "'a list \<Rightarrow> int \<Rightarrow> 'a list" where
  "tranche_avant s k = take (nat (if k < 0 then int (length s) + k else k)) s"

definition tranche_apres :: "'a list \<Rightarrow> int \<Rightarrow> 'a list" where
  "tranche_apres s k = drop (nat (if k < 0 then int (length s) + k else k)) s"

definition suffixe_compresse :: string where
  "suffixe_compresse = ''_compress'' @ [CHR 0xE9] @ ''.''"

definition nom_fichier_compresse :: "string \<Rightarrow> string" where
  "nom_fichier_compresse nom_fichier =
     tranche_avant nom_fichier (rfind nom_fichier (CHR ''.'')) @ suffixe_compresse @
     tranche_apres nom_fichier (rfind nom_fichier (CHR ''.'') + 1)"

record sauvegarde =
  fichier_ecrit :: string
  contenu_ecrit :: code
  taille_original :: nat
  taille_encode :: nat
  compression_reussie :: bool

definition sauvegarder_texte_encode :: "code \<Rightarrow> string \<Rightarrow> 'c list \<Rightarrow> sauvegarde" where
  "sauvegarder_texte_encode texte_encode nom_fichier contenu_test =
     (let taille_original = length contenu_test * 8; taille_encode = length texte_encode in
      \<lparr>fichier_ecrit = nom_fichier_compresse nom_fichier, contenu_ecrit = texte_encode,
       taille_original = taille_original, taille_encode = taille_encode,
       compression_reussie = (taille_encode < taille_original)\<rparr>)"

definition encodage_main :: "'c list \<Rightarrow> py_error + sauvegarde" where
  "encodage_main contenu =
     (case recuperer_arbre_huffman contenu of
        Inl e \<Rightarrow> Inl e
      | Inr racine \<Rightarrow>
          (case generer_codes_huffman racine of
             Inl e \<Rightarrow> Inl e
           | Inr table_codage \<Rightarrow>
               (case encoder_texte contenu of
                  Inl e \<Rightarrow> Inl e
                | Inr texte_encode \<Rightarrow>
                    (let sv = sauvegarder_texte_encode texte_encode ''texte_encode.txt'' contenu in
                     if \<not> verifier_codes_caracteres table_codage contenu then Inl AssertionError
                     else if \<not> verifier_propriete_prefixe table_codage then Inl AssertionError
                     else if \<not> verifier_texte_encode_non_vide texte_encode then Inl AssertionError
                     else Inr sv))))"

definition et_puis :: "py_error + unit \<Rightarrow> py_error + 'a \<Rightarrow> py_error + 'a" where
  "et_puis r k = (case r of Inl e \<Rightarrow> Inl e | Inr _ \<Rightarrow> k)"

definition affirmer :: "bool \<Rightarrow> py_error + unit" where
  "affirmer b = (if b then Inr () else Inl AssertionError)"

definition dict_egal :: "('k, 'v) dict \<Rightarrow> ('k, 'v) dict \<Rightarrow> bool" where
  "dict_egal d1 d2 = (set d1 = set d2)"

definition test_calculer_frequences :: "py_error + unit" where
  "test_calculer_frequences =
     et_puis (affirmer (dict_egal (calculer_frequences ''aabbc'')
                          [(CHR ''a'', 2), (CHR ''b'', 2), (CHR ''c'', 1)]))
    (et_puis (affirmer (dict_egal (calculer_frequences ''hello'')
                          [(CHR ''h'', 1), (CHR ''e'', 1), (CHR ''l'', 2), (CHR ''o'', 1)]))
             (affirmer (dict_egal (calculer_frequences ([] :: string)) [])))"

definition test_creer_noeuds_feuilles :: "py_error + unit" where
  "test_creer_noeuds_feuilles =
     (let noeuds = creer_noeuds_feuilles [(CHR ''a'', 5::int), (CHR ''b'', 3)] in
      et_puis (affirmer (length noeuds = 2))
     (et_puis (affirmer (list_all (\<lambda>n. True) noeuds))
              (affirmer (list_all est_feuille noeuds))))"

definition test_noeud :: "py_error + unit" where
  "test_noeud =
     (let noeud1 = Noeud (Some CHR ''a'') 5 None None;
          noeud2 = Noeud (Some CHR ''b'') 3 None None;
          noeud_parent = Noeud None 8 (Some noeud1) (Some noeud2) in
      et_puis (affirmer (caractere noeud1 = Some CHR ''a''))
     (et_puis (affirmer (frequence noeud1 = 5))
     (et_puis (affirmer (est_feuille noeud1))
     (et_puis (affirmer (\<not> est_feuille noeud_parent))
     (et_puis (affirmer (frequence noeud_parent = 8))
              (affirmer (noeud_lt noeud2 noeud1)))))))"

definition executer_tous_les_tests :: "py_error + unit" where
  "executer_tous_les_tests =
     et_puis test_noeud (et_puis test_calculer_frequences test_creer_noeuds_feuilles)"

definition test_construction_arbre_simple :: "py_error + unit" where
  "test_construction_arbre_simple =
     (let frequences = [(CHR ''a'', 5::int), (CHR ''b'', 1), (CHR ''c'', 1)] in
      case construire_arbre_huffman (creer_noeuds_feuilles frequences) of
        Inl e \<Rightarrow> Inl e
      | Inr racine \<Rightarrow>
          et_puis (affirmer (racine \<noteq> None))
                  (affirmer (frequence (the racine) = sum_list (map snd frequences))))"

definition test_cas_un_seul_caractere :: "py_error + unit" where
  "test_cas_un_seul_caractere =
     (case construire_arbre_huffman (creer_noeuds_feuilles [(CHR ''x'', 10::int)]) of
        Inl e \<Rightarrow> Inl e
      | Inr racine \<Rightarrow>
          et_puis (affirmer (racine \<noteq> None))
         (et_puis (affirmer (frequence (the racine) = 10))
                  (affirmer (est_feuille (the racine)))))"

definition executer_tests_construction :: "py_error + unit" where
  "executer_tests_construction = et_puis test_construction_arbre_simple test_cas_un_seul_caractere"

fun compter_get :: "'c list \<Rightarrow> ('c, int) dict \<Rightarrow> ('c, int) dict" where
  "compter_get [] frequences = frequences"
| "compter_get (c # texte) frequences =
     compter_get texte (dict_set frequences c ((case map_of frequences c of None \<Rightarrow> 0 | Some n \<Rightarrow> n) + 1))"

subsection \<open>Python's \<^verbatim>\<open>str.rfind\<close> and slicing\<close>

lemma map_plus_upt: "map ((+) a) [0..<b] = [a..<a + b]"
  by (induction b) auto

lemma filtre_indices_append:
  "filter (\<lambda>i. (xs @ ys) ! i = c) [0..<length (xs @ ys)] =
   filter (\<lambda>i. xs ! i = c) [0..<length xs] @ map ((+) (length xs)) (filter (\<lambda>i. ys ! i = c) [0..<length ys])"
proof -
  have "[0..<length (xs @ ys)] = [0..<length xs] @ map ((+) (length xs)) [0..<length ys]"
    by (simp add: map_plus_upt upt_add_eq_append [of 0 "length xs"])
  moreover have "filter (\<lambda>i. (xs @ ys) ! i = c) [0..<length xs] = filter (\<lambda>i. xs ! i = c) [0..<length xs]"
    by (rule filter_cong) (auto simp: nth_append)
  ultimately show ?thesis by (simp add: filter_map comp_def nth_append)
qed

lemma filtre_indices_absent:
  "c \<notin> set xs \<Longrightarrow> filter (\<lambda>i. xs ! i = c) [0..<length xs] = []"
  by (auto simp: filter_empty_conv in_set_conv_nth)

lemma rfind_absent: "c \<notin> set s \<Longrightarrow> rfind s c = -1"
  by (simp add: rfind_def filtre_indices_absent)

lemma rfind_last:
  "rfind s c = (let is = filter (\<lambda>i. s ! i = c) [0..<length s] in if is = [] then -1 else int (last is))"
  by (simp add: rfind_def Let_def split: list.split)

lemma rfind_append:
  "rfind (xs @ ys) c = (if c \<in> set ys then int (length xs) + rfind ys c else rfind xs c)"
proof (cases "c \<in> set ys")
  case True
  then have "filter (\<lambda>i. ys ! i = c) [0..<length ys] \<noteq> []"
    by (auto simp: filter_empty_conv in_set_conv_nth)
  with True show ?thesis
    unfolding rfind_last [of "xs @ ys"] rfind_last [of ys] filtre_indices_append Let_def
    by (simp add: last_map)
next
  case False
  then show ?thesis
    unfolding rfind_def filtre_indices_append by (simp add: filtre_indices_absent)
qed

lemma rfind_dernier: "c \<notin> set ext \<Longrightarrow> rfind (base @ c # ext) c = int (length base)"
  using rfind_append [of base "c # ext" c] rfind_append [of "[c]" ext c]
  by (simp add: rfind_absent rfind_def)

lemma nom_fichier_compresse_ext:
  assumes "CHR ''.'' \<notin> set ext"
  shows "nom_fichier_compresse (base @ ''.'' @ ext) = base @ suffixe_compresse @ ext"
proof -
  have "nat (int (length base) + 1) = Suc (length base)" by arith
  then show ?thesis
    using rfind_dernier [OF assms, of base]
    by (simp add: nom_fichier_compresse_def tranche_avant_def tranche_apres_def)
qed

subsection \<open>Properties of the scripts\<close>

text \<open>
  C21. \<^verbatim>\<open>sauvegarder_texte_encode\<close> of \<^verbatim>\<open>src/encodage.py\<close>, given a file name whose
  last dot precedes the extension, writes the encoding to the name with
  \<^verbatim>\<open>_compress\<close>\<open>\<acute>e\<close> inserted before the dot, and reports a compression exactly when
  the encoding has fewer bits than 8 per character of the original text.
\<close>

theorem sauvegarder_texte_encode_nom:
  assumes "CHR ''.'' \<notin> set ext"
  shows "sauvegarder_texte_encode texte_encode (base @ ''.'' @ ext) contenu =
    \<lparr>fichier_ecrit = base @ suffixe_compresse @ ext, contenu_ecrit = texte_encode,
     taille_original = length contenu * 8, taille_encode = length texte_encode,
     compression_reussie = (length texte_encode < length contenu * 8)\<rparr>"
  using nom_fichier_compresse_ext [OF assms, of base] by (simp add: sauvegarder_texte_encode_def Let_def)

theorem sauvegarder_texte_encode_nom_witness:
  "CHR ''.'' \<notin> set ''txt'' \<and>
   sauvegarder_texte_encode ''0011'' ''texte_encode.txt'' ''ab'' =
    \<lparr>fichier_ecrit = ''texte_encode_compress'' @ [CHR 0xE9] @ ''.txt'', contenu_ecrit = ''0011'',
     taille_original = 16, taille_encode = 4, compression_reussie = True\<rparr>"
  using sauvegarder_texte_encode_nom [of "''txt''" "''0011''" "''texte_encode''" "''ab''"]
  by (simp add: suffixe_compresse_def)

text \<open>
  C22. A file name without a dot: \<^verbatim>\<open>rfind\<close> returns \<open>-1\<close>, so
  \<^verbatim>\<open>nom_fichier[:-1]\<close> drops the last character and \<^verbatim>\<open>nom_fichier[0:]\<close> repeats the
  whole name after the suffix: \<^verbatim>\<open>README\<close> is saved as
  \<^verbatim>\<open>READM_compress\<close>\<open>\<acute>e\<close>\<^verbatim>\<open>.README\<close>.
\<close>

theorem nom_fichier_compresse_sans_point:
  assumes "CHR ''.'' \<notin> set nom_fichier"
  shows "nom_fichier_compresse nom_fichier = butlast nom_fichier @ suffixe_compresse @ nom_fichier"
proof -
  have "nat (int (length nom_fichier) + -1) = length nom_fichier - 1" by arith
  then show ?thesis
    using rfind_absent [OF assms]
    by (simp add: nom_fichier_compresse_def tranche_avant_def tranche_apres_def butlast_conv_take)
qed

theorem nom_fichier_compresse_sans_point_witness:
  "CHR ''.'' \<notin> set ''README'' \<and>
   nom_fichier_compresse ''README'' = ''READM_compress'' @ [CHR 0xE9] @ ''.README''"
  using nom_fichier_compresse_sans_point [of "''README''"] by (simp add: suffixe_compresse_def)

text \<open>
  The unit tests written in \<^verbatim>\<open>src/analyse_frequences.py\<close> and in
  \<^verbatim>\<open>src/construction_arbre.py\<close> pass on the model: every assertion holds and no
  exception is raised.
\<close>

theorem tests_unitaires_reussis:
  "executer_tous_les_tests = Inr () \<and> executer_tests_construction = Inr ()"
  by code_simp

text \<open>
  C24. The counting loop of the demonstration in \<^verbatim>\<open>src/construction_arbre.py\<close>
  (\<^verbatim>\<open>frequences.get(c, 0) + 1\<close>) computes the same dict as \<^verbatim>\<open>calculer_frequences\<close>,
  with the keys in the same order.
\<close>

theorem compter_get_calculer_frequences: "compter_get texte [] = calculer_frequences texte"
proof -
  have "compter_get texte d = calculer_frequences_boucle texte d" for d
    by (induction texte arbitrary: d) (simp_all split: option.split)
  then show ?thesis by (simp add: calculer_frequences_def)
qed

end
