(* ===== verification/Fichiers.thy ===== *)
theory Fichiers
  imports Huffman_Prelude
begin

text \<open>
  The file system the scripts read and write, as an explicit store: a map from a path to
  what a text-mode read of the file gives (\<open>None\<close> when there is no such file). Files are
  opened in text mode with \<^verbatim>\<open>encoding="utf-8"\<close>, so \<^verbatim>\<open>f.read()\<close> either returns the
  decoded text or raises \<^verbatim>\<open>UnicodeDecodeError\<close>; the store records which: \<open>Texte t\<close> is a
  file whose bytes decode to \<open>t\<close>, \<open>Octets_non_utf8\<close> one whose bytes are not valid UTF-8.
  The UTF-8 decoder itself (from bytes to code points) is not modelled, only its outcome.
  \<^item> \<open>lire_fichier\<close> is \<^verbatim>\<open>lire_fichier\<close> of \<^verbatim>\<open>src/analyse_frequences.py\<close>: a missing
    file raises \<^verbatim>\<open>FileNotFoundError\<close> (the handler re-raises it with a message). Its
    \<^verbatim>\<open>except UnicodeDecodeError\<close> handler calls \<^verbatim>\<open>UnicodeDecodeError(message)\<close>, but the
    constructor takes five arguments, so the handler itself raises \<^verbatim>\<open>TypeError\<close>.
  \<^item> \<open>lire_fichier_huffman\<close> is \<^verbatim>\<open>lire_fichier\<close> of
    \<^verbatim>\<open>src/huffman/analyse_frequences.py\<close>, with no handler: \<^verbatim>\<open>open\<close> raises
    \<^verbatim>\<open>FileNotFoundError\<close> and \<^verbatim>\<open>read\<close> raises \<^verbatim>\<open>UnicodeDecodeError\<close>.
  \<^item> \<open>sauvegarder\<close> is \<^verbatim>\<open>sauvegarder\<close> of \<^verbatim>\<open>src/huffman/decodage.py\<close>: mode
    \<^verbatim>\<open>"w"\<close> creates the file or replaces its contents. The texts written are encodings
    over \<open>'0'\<close> and \<open>'1'\<close>, which every encoding can write and UTF-8 reads back.
\<close>

datatype contenu = Texte string | Octets_non_utf8

type_synonym fichiers = "string \<rightharpoonup> contenu"

definition lire_fichier :: "fichiers \<Rightarrow> string \<Rightarrow> py_error + string" where
  "lire_fichier systeme chemin_fichier =
     (case systeme chemin_fichier of
        None \<Rightarrow> Inl FileNotFoundError
      | Some (Texte contenu) \<Rightarrow> Inr contenu
      | Some Octets_non_utf8 \<Rightarrow> Inl TypeError)"

definition lire_fichier_huffman :: "fichiers \<Rightarrow> string \<Rightarrow> py_error + string" where
  "lire_fichier_huffman systeme chemin =
     (case systeme chemin of
        None \<Rightarrow> Inl FileNotFoundError
      | Some (Texte f) \<Rightarrow> Inr f
      | Some Octets_non_utf8 \<Rightarrow> Inl UnicodeDecodeError)"

definition sauvegarder :: "fichiers \<Rightarrow> string \<Rightarrow> string \<Rightarrow> fichiers" where
  "sauvegarder systeme texteencode chemin = systeme(chemin \<mapsto> Texte texteencode)"

lemma lire_sauvegarder [simp]:
  "lire_fichier (sauvegarder systeme t chemin) chemin' =
     (if chemin' = chemin then Inr t else lire_fichier systeme chemin')"
  by (simp add: lire_fichier_def sauvegarder_def)

lemma lire_fichier_Texte [simp]:
  "systeme chemin = Some (Texte t) \<Longrightarrow> lire_fichier systeme chemin = Inr t"
  by (simp add: lire_fichier_def)

lemma lire_fichier_huffman_Texte [simp]:
  "systeme chemin = Some (Texte t) \<Longrightarrow> lire_fichier_huffman systeme chemin = Inr t"
  by (simp add: lire_fichier_huffman_def)

lemma lire_fichier_None [simp]:
  "systeme chemin = None \<Longrightarrow> lire_fichier systeme chemin = Inl FileNotFoundError"
  by (simp add: lire_fichier_def)

lemma lire_fichier_huffman_None [simp]:
  "systeme chemin = None \<Longrightarrow> lire_fichier_huffman systeme chemin = Inl FileNotFoundError"
  by (simp add: lire_fichier_huffman_def)

lemma lire_fichier_Octets [simp]:
  "systeme chemin = Some Octets_non_utf8 \<Longrightarrow> lire_fichier systeme chemin = Inl TypeError"
  by (simp add: lire_fichier_def)

lemma lire_fichier_huffman_Octets [simp]:
  "systeme chemin = Some Octets_non_utf8 \<Longrightarrow> lire_fichier_huffman systeme chemin = Inl UnicodeDecodeError"
  by (simp add: lire_fichier_huffman_def)

lemma lire_fichier_Inr:
  "lire_fichier systeme chemin = Inr t \<longleftrightarrow> systeme chemin = Some (Texte t)"
  by (simp add: lire_fichier_def split: option.split contenu.split)

lemma lire_fichier_huffman_Inr:
  "lire_fichier_huffman systeme chemin = Inr t \<longleftrightarrow> systeme chemin = Some (Texte t)"
  by (simp add: lire_fichier_huffman_def split: option.split contenu.split)

end
