(* ===== verification/Affichage.thy ===== *)
theory Affichage
  imports App Scripts Fichiers
begin

text \<open>
  The console display functions, as the text they print. Each function returns the list
  of lines it prints (or, for the frequency report of \<^verbatim>\<open>src/analyse_frequences.py\<close>,
  the values it formats), so that the order and the content of the output are part of the
  model; the decorative banners are left out.
  \<^item> \<open>afficher_arbre\<close> (\<^verbatim>\<open>src/construction_arbre.py\<close>): one line per node, in preorder,
    indented by three spaces per level, tagged \<^verbatim>\<open>[R]\<close>, \<^verbatim>\<open>[G]\<close> or \<^verbatim>\<open>[D]\<close>.
  \<^item> \<open>afficher_frequences\<close> (\<^verbatim>\<open>src/analyse_frequences.py\<close>): the number of distinct
    symbols, the total count and one row per symbol with its count and percentage (an
    exact rational; the \<^verbatim>\<open>:6.2f\<close> rounding is not modelled), sorted by decreasing count
    when \<^verbatim>\<open>trier\<close> is set. The division by the total raises \<^verbatim>\<open>ZeroDivisionError\<close>
    when there is a row and the total is 0.
  \<^item> \<open>afficher_frequences_huffman\<close> and \<open>afficher_codes\<close> (\<^verbatim>\<open>src/huffman/\<close>): the
    lines \<^verbatim>\<open>"  c: n"\<close> and \<^verbatim>\<open>"  c: code"\<close>, sorted by decreasing count and by code
    length, with the space shown as the open-box sign U+2423. That sign does not fit an
    8-bit \<open>char\<close>; \<open>espace_visible\<close> is its UTF-8 encoding, the bytes written to the
    terminal.
  \<^item> \<open>analyser_fichier\<close> (\<^verbatim>\<open>src/analyse_frequences.py\<close>), which reads its file
    through the store of \<open>Fichiers\<close>, and the demonstrations, whose
    \<^verbatim>\<open>except FileNotFoundError\<close> is the branch on that exception.
\<close>

definition etiquette_arbre :: "char option \<Rightarrow> int \<Rightarrow> string" where
  "etiquette_arbre c f =
     (case c of
        None \<Rightarrow> ''* (freq='' @ chaine_int f @ '')''
      | Some car \<Rightarrow> [CHR 0x27, car, CHR 0x27] @ '' (freq='' @ chaine_int f @ '')'')"

fun afficher_arbre :: "char noeud option \<Rightarrow> string \<Rightarrow> string \<Rightarrow> string list" where
  "afficher_arbre None indent branche = [''(arbre vide)'']"
| "afficher_arbre (Some (Noeud c f g d)) indent branche =
     (indent @ ''['' @ branche @ ''] '' @ etiquette_arbre c f) #
     (case g of None \<Rightarrow> [] | Some _ \<Rightarrow> afficher_arbre g (indent @ ''   '') ''G'') @
     (case d of None \<Rightarrow> [] | Some _ \<Rightarrow> afficher_arbre d (indent @ ''   '') ''D'')"

definition nom_affichage :: "char \<Rightarrow> string" where
  "nom_affichage car =
     (if car = CHR '' '' then ''[ESPACE]''
      else if car = CHR 0x0A then ''[RETOUR]''
      else if car = CHR 0x09 then ''[TAB]''
      else [car])"

record rapport_frequences =
  nb_uniques :: nat
  nb_total :: int
  lignes_frequences :: "(string \<times> int \<times> rat) list"

fun lignes_pourcentages :: "(char \<times> int) list \<Rightarrow> int \<Rightarrow> py_error + (string \<times> int \<times> rat) list" where
  "lignes_pourcentages [] total_freq = Inr []"
| "lignes_pourcentages ((car, freq) # items) total_freq =
     (if total_freq = 0 then Inl ZeroDivisionError
      else (case lignes_pourcentages items total_freq of
              Inl e \<Rightarrow> Inl e
            | Inr ls \<Rightarrow> Inr ((nom_affichage car, freq, of_int freq / of_int total_freq * 100) # ls)))"

definition afficher_frequences :: "(char, int) dict \<Rightarrow> bool \<Rightarrow> py_error + rapport_frequences" where
  "afficher_frequences frequences trier =
     (let items = (if trier then sort_key (\<lambda>(c, f). - f) frequences else frequences);
          total_freq = sum_list (map snd frequences) in
      case lignes_pourcentages items total_freq of
        Inl e \<Rightarrow> Inl e
      | Inr ls \<Rightarrow> Inr \<lparr>nb_uniques = length frequences, nb_total = total_freq, lignes_frequences = ls\<rparr>)"

definition espace_visible :: string where
  "espace_visible = [CHR 0xE2, CHR 0x90, CHR 0xA3]"

definition car_visible :: "char \<Rightarrow> string" where
  "car_visible char = (if char = CHR '' '' then espace_visible else [char])"

definition afficher_frequences_huffman :: "(char, int) dict \<Rightarrow> string list" where
  "afficher_frequences_huffman frequences =
     ''Frequences des caracteres:'' #
     map (\<lambda>(char, freq). ''  '' @ car_visible char @ '': '' @ chaine_int freq)
       (sort_key (\<lambda>(c, f). - f) frequences)"

definition afficher_codes :: "(char, code) dict \<Rightarrow> string list" where
  "afficher_codes codes =
     [] # ''Table des codes:'' #
     map (\<lambda>(char, code). ''  '' @ car_visible char @ '': '' @ code)
       (sort_key (\<lambda>(c, p). length p) codes)"

definition analyser_fichier ::
  "fichiers \<Rightarrow> string \<Rightarrow> py_error + char list \<times> (char, int) dict \<times> char noeud list" where
  "analyser_fichier systeme chemin_fichier =
     (case lire_fichier systeme chemin_fichier of
        Inl e \<Rightarrow> Inl e
      | Inr texte \<Rightarrow>
          (let frequences = calculer_frequences texte;
               noeuds = creer_noeuds_feuilles frequences in
           Inr (texte, frequences, noeuds)))"

definition demo_analyse_frequences ::
  "fichiers \<Rightarrow> py_error + (rapport_frequences \<times> char noeud list \<times>
     (rapport_frequences \<times> nat \<times> nat \<times> nat) option)" where
  "demo_analyse_frequences systeme =
     et_puis executer_tous_les_tests
       (let texte_exemple = ''HOURRA HOURRA HOURRRRA ?'';
            frequences = calculer_frequences texte_exemple in
        case afficher_frequences frequences True of
          Inl e \<Rightarrow> Inl e
        | Inr rapport \<Rightarrow>
            (let noeuds = creer_noeuds_feuilles frequences in
             case analyser_fichier systeme ''test.txt'' of
               Inl e \<Rightarrow> (if e = FileNotFoundError then Inr (rapport, take 5 noeuds, None) else Inl e)
             | Inr (texte, frequences', noeuds') \<Rightarrow>
                 (case afficher_frequences frequences' True of
                    Inl e \<Rightarrow> Inl e
                  | Inr rapport' \<Rightarrow>
                      Inr (rapport, take 5 noeuds,
                           Some (rapport', length texte, length frequences', length noeuds')))))"

definition demo_construction_arbre :: "py_error + (char list \<times> (char, int) dict \<times> string list)" where
  "demo_construction_arbre =
     et_puis executer_tests_construction
       (let texte = ''Bonjour le monde'';
            frequences = compter_get texte [];
            feuilles = creer_noeuds_feuilles frequences in
        case construire_arbre_huffman feuilles of
          Inl e \<Rightarrow> Inl e
        | Inr racine \<Rightarrow> Inr (texte, frequences, afficher_arbre racine [] ''R''))"

lemma afficher_arbre_longueur:
  "length (afficher_arbre m indent branche) = (case m of None \<Rightarrow> 1 | Some t \<Rightarrow> nb_noeuds t)"
proof (induction m indent branche rule: afficher_arbre.induct)
  case (2 c f g d indent branche)
  then show ?case by (cases g; cases d) auto
qed simp

lemma lignes_pourcentages_ok:
  "total_freq \<noteq> 0 \<Longrightarrow> lignes_pourcentages items total_freq =
     Inr (map (\<lambda>(c, f). (nom_affichage c, f, of_int f / of_int total_freq * 100)) items)"
  by (induction items total_freq rule: lignes_pourcentages.induct) auto

lemma lignes_pourcentages_zero:
  "lignes_pourcentages items 0 = (if items = [] then Inr [] else Inl ZeroDivisionError)"
  by (cases items) auto

lemma somme_pourcentages:
  "sum_list (map (\<lambda>(c, f). of_int f / of_int T * (100 :: rat)) items) =
   of_int (sum_list (map snd items)) / of_int T * 100"
  by (induction items) (auto simp: add_divide_distrib distrib_right)

lemma sort_key_Nil_iff: "sort_key f xs = [] \<longleftrightarrow> xs = []"
  by (metis length_0_conv length_sort)

lemma elem_le_sum_list_int:
  "\<forall>y \<in> set xs. 0 \<le> y \<Longrightarrow> x \<in> set xs \<Longrightarrow> x \<le> sum_list (xs :: int list)"
  by (induction xs) (auto intro: sum_list_nonneg add_increasing add_increasing2)

lemma afficher_frequences_calculer: "\<exists>r. afficher_frequences (calculer_frequences texte) trier = Inr r"
proof (cases "texte = []")
  case True
  then show ?thesis by (simp add: afficher_frequences_def calculer_frequences_def Let_def)
next
  case False
  have "sum_list (map snd (calculer_frequences texte)) = int (length texte)"
    using sum_analyser_frequences [of texte]
    by (simp add: calculer_frequences_analyser_form analyser_frequences_def)
  with False show ?thesis by (simp add: afficher_frequences_def lignes_pourcentages_ok Let_def)
qed

lemmas tests_analyse_passent = tests_unitaires_reussis [THEN conjunct1]
lemmas tests_construction_passent = tests_unitaires_reussis [THEN conjunct2]

subsection \<open>Properties of the display\<close>

text \<open>
  C30. \<^verbatim>\<open>afficher_frequences\<close> raises \<^verbatim>\<open>ZeroDivisionError\<close> exactly when it has a row
  to print and the counts add up to 0 (a table of zero counts); otherwise it prints the
  report.
\<close>

theorem afficher_frequences_zero:
  "afficher_frequences frequences trier = Inl ZeroDivisionError \<longleftrightarrow>
   frequences \<noteq> [] \<and> sum_list (map snd frequences) = 0"
proof (cases "sum_list (map snd frequences) = 0")
  case True
  then show ?thesis
    by (simp add: afficher_frequences_def lignes_pourcentages_zero Let_def sort_key_Nil_iff)
next
  case False
  then show ?thesis
    by (simp add: afficher_frequences_def lignes_pourcentages_ok Let_def)
qed

text \<open>
  C31. For a non-empty file, \<^verbatim>\<open>analyser_fichier\<close> followed by \<^verbatim>\<open>afficher_frequences\<close>
  (as the demonstration of \<^verbatim>\<open>src/analyse_frequences.py\<close> runs them) reports one row per
  distinct character, as many leaves as rows, the length of the file as total, and
  percentages in \<open>(0, 100]\<close> that add up to 100.
\<close>

theorem analyser_fichier_rapport:
  assumes "systeme chemin_fichier = Some (Texte contenu)" and "contenu \<noteq> []"
  shows "\<exists>frequences noeuds r.
    analyser_fichier systeme chemin_fichier = Inr (contenu, frequences, noeuds) \<and>
    afficher_frequences frequences trier = Inr r \<and>
    nb_uniques r = card (set contenu) \<and> length noeuds = nb_uniques r \<and>
    nb_total r = int (length contenu) \<and>
    sum_list (map (\<lambda>(_, _, p). p) (lignes_frequences r)) = 100 \<and>
    list_all (\<lambda>(_, f, p). 0 < p \<and> p \<le> 100) (lignes_frequences r)"
proof -
  let ?f = "analyser_frequences contenu"
  let ?T = "int (length contenu)"
  define items where "items = (if trier then sort_key (\<lambda>(c, f). - f) ?f else ?f)"
  have cf: "calculer_frequences contenu = ?f"
    by (simp add: calculer_frequences_analyser_form analyser_frequences_def)
  have T: "sum_list (map snd ?f) = ?T" by (rule sum_analyser_frequences)
  have T0: "?T \<noteq> 0" using assms(2) by simp
  have mi: "mset items = mset ?f" by (simp add: items_def)
  have si: "sum_list (map snd items) = ?T"
    using T mi by (metis mset_map sum_mset_sum_list)
  have len: "length ?f = card (set contenu)"
    by (simp add: analyser_frequences_def distinct_card [OF distinct_first_occurrences, symmetric])
  let ?ls = "map (\<lambda>(c, f). (nom_affichage c, f, of_int f / of_int ?T * (100 :: rat))) items"
  have a: "afficher_frequences ?f trier = Inr \<lparr>nb_uniques = length ?f, nb_total = ?T, lignes_frequences = ?ls\<rparr>"
    using T T0 by (simp add: afficher_frequences_def lignes_pourcentages_ok Let_def flip: items_def)
  have "sum_list (map (\<lambda>(_, _, p). p) ?ls) = sum_list (map (\<lambda>(c, f). of_int f / of_int ?T * (100 :: rat)) items)"
    by (simp add: comp_def case_prod_unfold)
  also have "\<dots> = 100" using somme_pourcentages [of ?T items] si T0 by simp
  finally have s100: "sum_list (map (\<lambda>(_, _, p). p) ?ls) = 100" .
  have b: "1 \<le> f \<and> f \<le> ?T" if "(c, f) \<in> set items" for c f
  proof -
    from that mi have m: "(c, f) \<in> set ?f" by (metis set_mset_mset)
    then have "1 \<le> f" by (rule analyser_frequences_positive)
    moreover have "f \<le> sum_list (map snd ?f)"
      using m analyser_frequences_positive
      by (intro elem_le_sum_list_int) (fastforce, force)
    ultimately show ?thesis using T by simp
  qed
  have p: "0 < of_int f / of_int ?T * (100 :: rat) \<and> of_int f / of_int ?T * (100 :: rat) \<le> 100"
    if "(c, f) \<in> set items" for c f
  proof -
    from b [OF that] have f1: "(1 :: rat) \<le> of_int f" and fT: "(of_int f :: rat) \<le> of_int ?T"
      by (simp_all only: of_int_le_iff of_int_1_le_iff)
    from T0 have T1: "(0 :: rat) < of_int ?T" by simp
    from f1 T1 have "0 < of_int f / of_int ?T * (100 :: rat)" by simp
    moreover from fT T1 have "of_int f / of_int ?T \<le> (1 :: rat)" by simp
    then have "of_int f / of_int ?T * 100 \<le> (1 :: rat) * 100"
      by (rule mult_right_mono) simp
    ultimately show ?thesis by simp
  qed
  have "list_all (\<lambda>(_, f, p). 0 < p \<and> p \<le> 100) ?ls"
    using p by (auto simp: list_all_iff simp del: of_int_of_nat_eq)
  then show ?thesis
    using a s100 len assms(1) by (simp add: analyser_fichier_def cf Let_def)
qed
theorem analyser_fichier_rapport_witness:
  "[''test.txt'' \<mapsto> Texte ''abca''] ''test.txt'' = Some (Texte ''abca'') \<and> ''abca'' \<noteq> [] \<and>
   (\<exists>frequences noeuds r.
     analyser_fichier [''test.txt'' \<mapsto> Texte ''abca''] ''test.txt'' = Inr (''abca'', frequences, noeuds) \<and>
     afficher_frequences frequences True = Inr r \<and> nb_uniques r = 3 \<and> length noeuds = 3 \<and>
     nb_total r = 4 \<and> sum_list (map (\<lambda>(_, _, p). p) (lignes_frequences r)) = 100)"
  using analyser_fichier_rapport [of "[''test.txt'' \<mapsto> Texte ''abca'']" "''test.txt''" "''abca''" True]
  by (auto simp: card_insert_if)

text \<open>
  C32. \<^verbatim>\<open>afficher_arbre\<close> prints one line per node of the tree, as many as the page of
  \<^verbatim>\<open>app.py\<close> draws vertices, the first being the root tagged \<^verbatim>\<open>[R]\<close>; an absent tree
  prints \<^verbatim>\<open>(arbre vide)\<close>.
\<close>

theorem afficher_arbre_une_ligne_par_noeud:
  "length (afficher_arbre (Some t) [] ''R'') = length (sommets (fst (visualiser_arbre t None [] (graphe_vide, 0)))) \<and>
   hd (afficher_arbre (Some t) [] ''R'') = ''[R] '' @ etiquette_arbre (caractere t) (frequence t) \<and>
   afficher_arbre None indent branche = [''(arbre vide)'']"
  using afficher_arbre_longueur [of "Some t" "[]" "''R''"] visualiser_nb_sommets [of t]
  by (cases t) simp

text \<open>
  C33. The demonstration of \<^verbatim>\<open>src/construction_arbre.py\<close> runs to the end and prints
  a 21-line tree for the 11 distinct characters of \<^verbatim>\<open>"Bonjour le monde"\<close>. That of
  \<^verbatim>\<open>src/analyse_frequences.py\<close> runs to the end when \<^verbatim>\<open>test.txt\<close> is missing
  (\<^verbatim>\<open>FileNotFoundError\<close> is caught) or holds UTF-8 text, whatever the text; when
  \<^verbatim>\<open>test.txt\<close> is not valid UTF-8 it stops with the \<^verbatim>\<open>TypeError\<close> that the
  \<^verbatim>\<open>UnicodeDecodeError\<close> handler of \<^verbatim>\<open>lire_fichier\<close> raises, which the demonstration
  does not catch.
\<close>

theorem demos_sans_exception:
  "(if systeme ''test.txt'' = Some Octets_non_utf8 then demo_analyse_frequences systeme = Inl TypeError
    else (\<exists>v. demo_analyse_frequences systeme = Inr v)) \<and>
   (\<exists>texte frequences lignes. demo_construction_arbre = Inr (texte, frequences, lignes) \<and> length lignes = 21)"
proof -
  obtain r where r: "afficher_frequences (calculer_frequences ''HOURRA HOURRA HOURRRRA ?'') True = Inr r"
    using afficher_frequences_calculer by blast
  note demo = demo_analyse_frequences_def et_puis_def tests_analyse_passent r analyser_fichier_def Let_def
  have a: "if systeme ''test.txt'' = Some Octets_non_utf8 then demo_analyse_frequences systeme = Inl TypeError
    else (\<exists>v. demo_analyse_frequences systeme = Inr v)"
  proof (cases "systeme ''test.txt''")
    case None
    then show ?thesis by (simp add: demo)
  next
    case (Some c)
    show ?thesis
    proof (cases c)
      case (Texte contenu)
      obtain r' where "afficher_frequences (calculer_frequences contenu) True = Inr r'"
        using afficher_frequences_calculer by blast
      with Some Texte show ?thesis by (simp add: demo)
    next
      case Octets_non_utf8
      with Some show ?thesis by (simp add: demo)
    qed
  qed
  have d: "demo_construction_arbre = Inr (projr demo_construction_arbre)" by code_simp
  have l: "length (snd (snd (projr demo_construction_arbre))) = 21" by code_simp
  from d l have "\<exists>texte frequences lignes. demo_construction_arbre = Inr (texte, frequences, lignes) \<and> length lignes = 21"
    by (metis prod.collapse)
  with a show ?thesis by blast
qed

end
