(* ===== verification/Encodage_Fichiers.thy ===== *)
theory Encodage_Fichiers
  imports Affichage
begin

text \<open>
  The functions of \<^verbatim>\<open>src/encodage.py\<close> that open files, over the file store of
  \<open>Fichiers\<close>. \<open>recuperer_arbre_huffman\<close>, \<open>encoder_texte\<close> and
  \<open>sauvegarder_texte_encode\<close> of \<open>Codes\<close> and \<open>Scripts\<close> take the contents of
  \<^verbatim>\<open>test.txt\<close> as argument; here every \<^verbatim>\<open>lire_fichier("test.txt")\<close> and
  \<^verbatim>\<open>analyser_fichier("test.txt")\<close> of the source reads the store at the point where the
  code reads it, and \<^verbatim>\<open>open(..., 'w').write\<close> updates the store.
  \<open>encodage_script\<close> is the \<^verbatim>\<open>__main__\<close> block. Its result is the store at the end of
  the run with the outcome: the compressed file is written before the assertions, so a
  failed assertion leaves it behind, which \<open>py_error + 'a\<close> alone could not express.
  \<open>encodage_script_encodage_main\<close> shows that the store-level functions refine the
  contents-level ones.
\<close>

definition recuperer_arbre_huffman_fichiers :: "fichiers \<Rightarrow> py_error + char noeud option" where
  "recuperer_arbre_huffman_fichiers systeme =
     (case analyser_fichier systeme ''test.txt'' of
        Inl e \<Rightarrow> Inl e
      | Inr (_, frequences, _) \<Rightarrow> construire_arbre_huffman (creer_noeuds_feuilles frequences))"

definition encoder_texte_fichiers :: "fichiers \<Rightarrow> py_error + code" where
  "encoder_texte_fichiers systeme =
     (case lire_fichier systeme ''test.txt'' of
        Inl e \<Rightarrow> Inl e
      | Inr texte_original \<Rightarrow>
          (case recuperer_arbre_huffman_fichiers systeme of
             Inl e \<Rightarrow> Inl e
           | Inr racine \<Rightarrow>
               (case generer_codes_huffman racine of
                  Inl e \<Rightarrow> Inl e
                | Inr table_codage \<Rightarrow> encoder texte_original table_codage)))"

definition sauvegarder_texte_encode_fichiers ::
  "fichiers \<Rightarrow> code \<Rightarrow> string \<Rightarrow> fichiers \<times> (py_error + sauvegarde)" where
  "sauvegarder_texte_encode_fichiers systeme texte_encode nom_fichier =
     (let systeme' = sauvegarder systeme texte_encode (nom_fichier_compresse nom_fichier) in
      (systeme',
       case lire_fichier systeme' ''test.txt'' of
         Inl e \<Rightarrow> Inl e
       | Inr contenu \<Rightarrow> Inr (sauvegarder_texte_encode texte_encode nom_fichier contenu)))"

definition encodage_script :: "fichiers \<Rightarrow> fichiers \<times> (py_error + sauvegarde)" where
  "encodage_script systeme =
     (case recuperer_arbre_huffman_fichiers systeme of
        Inl e \<Rightarrow> (systeme, Inl e)
      | Inr racine \<Rightarrow>
          (case generer_codes_huffman racine of
             Inl e \<Rightarrow> (systeme, Inl e)
           | Inr table_codage \<Rightarrow>
               (case encoder_texte_fichiers systeme of
                  Inl e \<Rightarrow> (systeme, Inl e)
                | Inr texte_encode \<Rightarrow>
                    (case sauvegarder_texte_encode_fichiers systeme texte_encode ''texte_encode.txt'' of
                       (systeme', Inl e) \<Rightarrow> (systeme', Inl e)
                     | (systeme', Inr sv) \<Rightarrow>
                         (case lire_fichier systeme' ''test.txt'' of
                            Inl e \<Rightarrow> (systeme', Inl e)
                          | Inr texte_original \<Rightarrow>
                              if \<not> verifier_codes_caracteres table_codage texte_original
                              then (systeme', Inl AssertionError)
                              else if \<not> verifier_propriete_prefixe table_codage
                              then (systeme', Inl AssertionError)
                              else if \<not> verifier_texte_encode_non_vide texte_encode
                              then (systeme', Inl AssertionError)
                              else (systeme', Inr sv))))))"

lemma nom_texte_encode_compresse:
  "nom_fichier_compresse ''texte_encode.txt'' = ''texte_encode_compress'' @ [CHR 0xE9] @ ''.txt''"
  using nom_fichier_compresse_ext [of "''txt''" "''texte_encode''"] by (simp add: suffixe_compresse_def)

lemma recuperer_arbre_huffman_fichiers_lire:
  "recuperer_arbre_huffman_fichiers systeme =
     (case lire_fichier systeme ''test.txt'' of
        Inl e \<Rightarrow> Inl e | Inr contenu \<Rightarrow> recuperer_arbre_huffman contenu)"
  by (simp add: recuperer_arbre_huffman_fichiers_def analyser_fichier_def recuperer_arbre_huffman_def
      Let_def split: sum.split)

lemma encoder_texte_fichiers_lire:
  "encoder_texte_fichiers systeme =
     (case lire_fichier systeme ''test.txt'' of Inl e \<Rightarrow> Inl e | Inr contenu \<Rightarrow> encoder_texte contenu)"
  by (simp add: encoder_texte_fichiers_def recuperer_arbre_huffman_fichiers_lire encoder_texte_def
      split: sum.split)

lemma encodage_script_encodage_main:
  "encodage_script systeme =
     (case lire_fichier systeme ''test.txt'' of
        Inl e \<Rightarrow> (systeme, Inl e)
      | Inr contenu \<Rightarrow>
          (case encoder_texte contenu of
             Inl e \<Rightarrow> (systeme, Inl e)
           | Inr s \<Rightarrow> (sauvegarder systeme s (nom_fichier_compresse ''texte_encode.txt''),
                       encodage_main contenu)))"
  by (simp add: encodage_script_def recuperer_arbre_huffman_fichiers_lire encoder_texte_fichiers_lire
      sauvegarder_texte_encode_fichiers_def encodage_main_def encoder_texte_def nom_texte_encode_compresse
      Let_def split: sum.split)
end
