(* ===== verification/Spec2Isabelle.thy ===== *)
theory Spec2Isabelle
  imports Optimalite Encodage_Fichiers
begin

text \<open>
  \<^bold>\<open>Huffman coding, a verification development of the repository's Python code.\<close>

  \<^bold>\<open>The program.\<close> \<^verbatim>\<open>src/\<close> holds two implementations of the same pipeline.
  The top-level modules are \<^verbatim>\<open>src/analyse_frequences.py\<close>, \<^verbatim>\<open>src/construction_arbre.py\<close>
  and \<^verbatim>\<open>src/encodage.py\<close>. They do three things: count the symbols of a text
  (\<^verbatim>\<open>calculer_frequences\<close>), make one leaf per symbol (\<^verbatim>\<open>creer_noeuds_feuilles\<close>), and
  build the tree by merging the two lightest nodes of a \<^verbatim>\<open>heapq\<close> heap until one is left
  (\<^verbatim>\<open>construire_arbre_huffman\<close>). \<^verbatim>\<open>encoder_texte\<close> then reads \<^verbatim>\<open>test.txt\<close>,
  rebuilds the tree from its frequencies (\<^verbatim>\<open>recuperer_arbre_huffman\<close>, which reads the
  file again through \<^verbatim>\<open>analyser_fichier\<close>), validates it (\<^verbatim>\<open>verifier_arbre_huffman\<close>), derives the code table
  (\<^verbatim>\<open>generer_codes_huffman\<close>) and encodes. The package \<^verbatim>\<open>src/huffman/\<close> does the
  same with \<^verbatim>\<open>Counter\<close> (\<^verbatim>\<open>analyser_frequences\<close>), \<^verbatim>\<open>construire_arbre\<close>,
  \<^verbatim>\<open>generer_codes\<close>, \<^verbatim>\<open>encoder\<close>, and adds a decoder (\<^verbatim>\<open>decoder\<close>).
  Its \<^verbatim>\<open>main\<close> chains all of them.

  \<^bold>\<open>Theories.\<close>
  \<^item> \<open>Huffman_Prelude\<close>: Python exceptions as \<open>py_error\<close> (a raising function returns
    \<open>py_error + 'a\<close>); dicts as association lists in insertion order (\<open>dict_set\<close> is
    \<open>d[k] = v\<close>, \<open>map_of\<close> is \<open>d.get\<close>); \<open>first_occurrences\<close>; \<open>prefix_free\<close>.
  \<^item> \<open>Fichiers\<close>: the file system as a store from paths to contents (\<open>fichiers\<close>),
    read by \<open>lire_fichier\<close> of both packages (\<^verbatim>\<open>FileNotFoundError\<close> on a missing
    path; \<^verbatim>\<open>UnicodeDecodeError\<close>, or \<^verbatim>\<open>TypeError\<close> from the top-level handler, on a
    file that is not UTF-8) and written by \<open>sauvegarder\<close> of \<^verbatim>\<open>src/huffman/decodage.py\<close>.
  \<^item> \<open>Noeud\<close>: the class \<^verbatim>\<open>Noeud\<close> of both packages, with its nullable fields, and
    \<^verbatim>\<open>__lt__\<close> as \<open>noeud_lt\<close>. It also holds the validator
    \<open>verifier_arbre_huffman\<close> and the abstractions of a tree: \<open>arbre_plein\<close>,
    \<open>feuilles\<close>, \<open>chemins\<close>, \<open>coherent\<close>, \<open>internes\<close>.
  \<^item> \<open>Frequences\<close>: \<open>calculer_frequences\<close> (its loop is \<open>calculer_frequences_boucle\<close>),
    \<open>analyser_frequences\<close> and \<open>creer_noeuds_feuilles\<close>.
  \<^item> \<open>Heapq\<close>: the functions of CPython's \<^verbatim>\<open>heapq\<close> module that the builders call
    (\<open>heappush\<close>, \<open>heappop\<close>, \<open>heapify\<close> and the sift loops \<open>siftdown\<close>,
    \<open>siftup\<close>). They are written from the library's pure-Python source, since the module
    is not part of the repository. They are generic in the comparison, and an empty heap
    makes \<open>heappop\<close> raise \<^verbatim>\<open>IndexError\<close>.
  \<^item> \<open>Construction\<close>: the merge loop \<open>boucle_fusion\<close> (the \<^verbatim>\<open>while\<close> loop of
    both builders) and the builders \<open>construire_arbre_huffman\<close> and \<open>construire_arbre\<close>.
  \<^item> \<open>Codes\<close>: both code generators (\<open>parcourir_noeud\<close> and \<open>generer_codes_huffman\<close>;
    \<open>parcourir\<close> and \<open>generer_codes\<close>), the encoders \<open>encoder\<close> and
    \<open>encoder_texte\<close>, and the checks \<open>verifier_codes_caracteres\<close>,
    \<open>verifier_propriete_prefixe\<close> and \<open>verifier_texte_encode_non_vide\<close>.
  \<^item> \<open>Decodage\<close>: \<open>decoder_boucle\<close> (the \<^verbatim>\<open>for\<close> loop), \<open>decoder\<close>, and
    \<open>calculer_stats\<close> with its record \<open>stats\<close> (sizes, ratio and gain as exact rationals).
  \<^item> \<open>Heapq_Ordre\<close>: the heap order \<open>tas\<close> of the \<^verbatim>\<open>heapq\<close> docstring, kept by
    every operation, so that \<open>heappop\<close> returns a least element.
  \<^item> \<open>Optimalite\<close>: the weighted path length \<open>longueur_ponderee\<close> of a tree, tree shapes
    (\<open>forme\<close>) and the exchange argument, by which every run of the greedy step relation
    \<open>fusion_minimale\<close> of \<open>Construction\<close> ends in a tree of least weighted path length.
  \<^item> \<open>Scripts\<close>: the \<^verbatim>\<open>__main__\<close> block of \<^verbatim>\<open>src/encodage.py\<close> (\<open>encodage_main\<close>,
    its assertions as \<^verbatim>\<open>AssertionError\<close>), \<open>sauvegarder_texte_encode\<close> as the data it
    writes (the output name built with \<^verbatim>\<open>str.rfind\<close> and slicing), the unit tests of
    \<^verbatim>\<open>src/analyse_frequences.py\<close> and \<^verbatim>\<open>src/construction_arbre.py\<close>, and the counting
    loop \<open>compter_get\<close> of the latter's demonstration.
  \<^item> \<open>App\<close>: the Streamlit page \<^verbatim>\<open>src/huffman/app.py\<close> as the data it shows
    (\<open>app\<close>, record \<open>affichage_app\<close>): stable sorted tables, the graph drawn by
    \<open>visualiser_arbre\<close> with its mutable counter passed explicitly, code-length
    statistics, sizes, rate and preview.
  \<^item> \<open>Affichage\<close>: the console display functions as the lines they print
    (\<open>afficher_arbre\<close>, \<open>afficher_frequences\<close> of both packages, \<open>afficher_codes\<close>),
    \<open>analyser_fichier\<close>, and the \<^verbatim>\<open>__main__\<close> demonstrations of
    \<^verbatim>\<open>src/analyse_frequences.py\<close> and \<^verbatim>\<open>src/construction_arbre.py\<close>.
  \<^item> \<open>Encodage_Fichiers\<close>: the functions of \<^verbatim>\<open>src/encodage.py\<close> that read
    \<^verbatim>\<open>test.txt\<close> or write a file, over the store (\<open>recuperer_arbre_huffman_fichiers\<close>,
    \<open>encoder_texte_fichiers\<close>, \<open>sauvegarder_texte_encode_fichiers\<close>), and its
    \<^verbatim>\<open>__main__\<close> block \<open>encodage_script\<close>, which returns the store with the
    outcome; they refine the contents-level definitions of \<open>Codes\<close> and \<open>Scripts\<close>.
  \<^item> This theory: \<open>main\<close> of \<^verbatim>\<open>src/huffman/main.py\<close>, from the text to the verdict and
    the statistics; \<open>programme_main\<close>, the same function over the file store, from
    \<^verbatim>\<open>test.txt\<close> to \<^verbatim>\<open>texte_encode.txt\<close> with what it prints (record
    \<open>sortie_main\<close>); and the properties that span the components.

  \<^bold>\<open>What is shown.\<close>
  \<^item> Frequencies: the counting loop of \<^verbatim>\<open>calculer_frequences\<close> returns the dict whose
    keys are the symbols in order of first occurrence and whose values are the
    occurrence counts, which add up to the length of the text. This is the contract of
    \<^verbatim>\<open>dict(Counter(texte))\<close> by which \<open>analyser_frequences\<close> is modelled, and the
    \<^verbatim>\<open>dict.get\<close> loop of the demonstration computes the same dict.
  \<^item> Heap: every \<^verbatim>\<open>heapq\<close> operation permutes its list, with the popped element
    taken out, and keeps the heap order, so \<^verbatim>\<open>heappop\<close> returns a minimum. The merge
    loop always ends with at most one node and never takes its \<^verbatim>\<open>IndexError\<close> branch.
  \<^item> Builders: on positive counts the tree passes the validator. Its leaves are the table,
    each inner frequency is the sum of its children's; on an empty table
    \<^verbatim>\<open>construire_arbre_huffman\<close> returns \<^verbatim>\<open>None\<close> where \<^verbatim>\<open>construire_arbre\<close> raises
    \<^verbatim>\<open>IndexError\<close>. Each iteration of the merge loop is a step of \<open>fusion_minimale\<close> (refinement),
    and the tree built is optimal: no full tree over the same table has a smaller
    weighted path length.
  \<^item> Codes: the code table of a full tree with distinct symbols is its list of
    root-to-leaf paths. That list is prefix-free and complete (Kraft's sum is 1), and the
    two generators agree except on a single leaf (code \<open>''0''\<close> against the empty code;
    Kraft's sum is then \<open>1/2\<close>).
  \<^item> Decoding: the decoder inverts the encoder on any text over the tree's symbols,
    drops an unfinished trailing path, and reads every character other than \<open>'0'\<close>
    as \<open>'1'\<close>.
  \<^item> End to end: \<open>main\<close> reports a correct decoding on every text with two or more
    distinct symbols; its encoding has the tree's weighted path length as length, is as
    short as any full tree allows, and is at most 8 bits per character up to 256 distinct
    symbols (and can exceed it from 257 on). It crashes on a one-symbol text and on the
    empty text, where the top-level \<open>encoder_texte\<close> returns the empty encoding and
    \<^verbatim>\<open>ValueError\<close> respectively. Both encoders only ever write \<open>'0'\<close> and \<open>'1'\<close>.
  \<^item> Files: the program of \<^verbatim>\<open>main.py\<close> raises \<^verbatim>\<open>FileNotFoundError\<close> exactly when
    \<^verbatim>\<open>test.txt\<close> is missing, \<^verbatim>\<open>UnicodeDecodeError\<close> exactly when it is not UTF-8, and
    otherwise only the exceptions of its steps (one kind per step); on two or more symbols it writes \<^verbatim>\<open>texte_encode.txt\<close>, which reads back
    as the encoding and decodes back to the contents of \<^verbatim>\<open>test.txt\<close>.
  \<^item> Scripts: the \<^verbatim>\<open>encodage.py\<close> script passes its assertions on two or more symbols
    and fails the third on one symbol, after it has written the (empty) compressed file;
    the output name is right when the name has an extension and garbled when it has
    none; the in-file unit tests pass.
  \<^item> Page: the graph's vertex ids are distinct and in preorder, one per node; for
    \<open>k \<ge> 2\<close> symbols the shortest code has between 1 and \<open>log2 k\<close> bits and the
    longest between \<open>log2 k\<close> and \<open>k - 1\<close>; the page and \<open>main\<close> show the same sizes and rate; a one-symbol file works on the
    page, unlike in \<open>main\<close>.
  \<^item> Display: the console tree has one line per node (as many as the page's graph); the
    frequency report's percentages lie in \<open>(0, 100]\<close> and add up to 100, and it raises
    \<^verbatim>\<open>ZeroDivisionError\<close> exactly on a non-empty table of zero counts; both
    demonstration scripts run without an exception, except that of
    \<^verbatim>\<open>analyse_frequences.py\<close> on a \<^verbatim>\<open>test.txt\<close> that is not UTF-8, where the
    \<^verbatim>\<open>TypeError\<close> raised by the handler of \<^verbatim>\<open>lire_fichier\<close> escapes.

  \<^bold>\<open>Loops and termination.\<close> The counting, traversal, encoding, decoding and drawing
  loops are structural recursion on the text or the tree (\<open>visualiser_arbre\<close> and
  \<open>visiter_enfant\<close> are mutually recursive over the node and its optional children).
  The sift loops of \<open>Heapq\<close> are \<open>function\<close>s with the measures \<open>pos\<close> and
  \<open>endpos - childpos\<close>; the merge loop is a \<open>function\<close> on the length of the heap,
  which each iteration shortens by one; \<open>equilibre\<close> of \<open>Optimalite\<close> halves its list;
  \<open>chaine_nat\<close> (Python's \<^verbatim>\<open>str\<close> of a natural) divides by 10. No fuel is needed.

  \<^bold>\<open>Not modelled.\<close> The file store records what a UTF-8 text-mode read gives: the
  decoded text (after newline translation), or a decoding failure (\<open>Octets_non_utf8\<close>);
  the decoder from bytes to code points itself is not modelled, nor are permission and
  disk errors. \<open>encoder_texte\<close>, \<open>encodage_main\<close> and \<open>main\<close> take the
  contents as argument; their store-level counterparts (\<open>encodage_script\<close>,
  \<open>programme_main\<close>, \<open>analyser_fichier\<close>) read and write the store. The printing
  functions are modelled as the lines they print, without the decorative banners and the
  progress messages of the scripts; the Streamlit layout and the graphviz rendering are
  left out. The open-box sign that the \<^verbatim>\<open>huffman\<close> package prints for a space does not
  fit an 8-bit \<open>char\<close> and is written as its UTF-8 bytes. Floats (ratios, rates, the
  mean, the percentages) are exact rationals; the rounding of their display is not
  modelled. Python strings are character lists; the
  symbol type stays a type variable wherever the code does not depend on it, and is
  Isabelle's 8-bit \<open>char\<close> in the scripts and the page, whose accented literals are
  written by their code point.
\<close>

section \<open>The command-line pipeline of \<^verbatim>\<open>src/huffman/main.py\<close>\<close>

text \<open>
  \<^verbatim>\<open>main\<close> reads \<^verbatim>\<open>test.txt\<close>, counts the symbols with
  \<^verbatim>\<open>analyser_frequences\<close>, builds the tree with \<^verbatim>\<open>construire_arbre\<close>, derives the
  codes with \<^verbatim>\<open>generer_codes\<close>, encodes, decodes with the same tree and prints whether
  the decoded text equals the original. \<open>main\<close> below takes the file's contents as its
  argument and returns the encoded string, the decoded text, the printed verdict and the
  statistics of \<^verbatim>\<open>calculer_stats\<close>; the printing and the file write are left out.
  An exception of any step ends the run, which is the \<open>Inl\<close> branch.
\<close>

definition main :: "'c list \<Rightarrow> py_error + (code \<times> 'c list \<times> bool \<times> stats)" where
  "main texte =
     (let frequences = analyser_frequences texte in
      case construire_arbre frequences of
        Inl e \<Rightarrow> Inl e
      | Inr arbre \<Rightarrow>
          (case generer_codes (Some arbre) of
             Inl e \<Rightarrow> Inl e
           | Inr codes \<Rightarrow>
               (case encoder texte codes of
                  Inl e \<Rightarrow> Inl e
                | Inr texte_encode \<Rightarrow>
                    (case decoder texte_encode (Some arbre) of
                       Inl e \<Rightarrow> Inl e
                     | Inr texte_decode \<Rightarrow>
                         (case calculer_stats texte texte_encode of
                            Inl e \<Rightarrow> Inl e
                          | Inr st \<Rightarrow> Inr (texte_encode, texte_decode, texte = texte_decode, st))))))"

text \<open>
  The whole program of \<^verbatim>\<open>src/huffman/main.py\<close> over the file store of \<open>Fichiers\<close>:
  it reads \<^verbatim>\<open>test.txt\<close>, prints the frequencies and the code table, checks the
  decoding, computes the statistics and saves the encoding to \<^verbatim>\<open>texte_encode.txt\<close>.
  The result is the store after the run with what the run printed (the banner lines and
  the formatting of the statistics apart); a raised exception is the \<open>Inl\<close> branch, and
  what was printed before it is not kept.
\<close>

record sortie_main =
  taille_lue :: nat
  affichage_frequences :: "string list"
  affichage_codes :: "string list"
  decodage_correct :: bool
  statistiques :: stats

definition programme_main :: "fichiers \<Rightarrow> py_error + (fichiers \<times> sortie_main)" where
  "programme_main systeme =
     (case lire_fichier_huffman systeme ''test.txt'' of
        Inl e \<Rightarrow> Inl e
      | Inr texte \<Rightarrow>
          (let frequences = analyser_frequences texte;
               lignes_freq = afficher_frequences_huffman frequences in
           case construire_arbre frequences of
             Inl e \<Rightarrow> Inl e
           | Inr arbre \<Rightarrow>
               (case generer_codes (Some arbre) of
                  Inl e \<Rightarrow> Inl e
                | Inr codes \<Rightarrow>
                    (case encoder texte codes of
                       Inl e \<Rightarrow> Inl e
                     | Inr texte_encode \<Rightarrow>
                         (case decoder texte_encode (Some arbre) of
                            Inl e \<Rightarrow> Inl e
                          | Inr texte_decode \<Rightarrow>
                              (case calculer_stats texte texte_encode of
                                 Inl e \<Rightarrow> Inl e
                               | Inr st \<Rightarrow>
                                   Inr (sauvegarder systeme texte_encode ''texte_encode.txt'',
                                        \<lparr>taille_lue = length texte,
                                         affichage_frequences = lignes_freq,
                                         affichage_codes = afficher_codes codes,
                                         decodage_correct = (texte = texte_decode),
                                         statistiques = st\<rparr>)))))))"

subsection \<open>The tree built from a text\<close>

lemma arbre_du_texte:
  assumes "texte \<noteq> []"
  shows "\<exists>r. construire_arbre (analyser_frequences texte) = Inr r \<and>
     construire_arbre_huffman (creer_noeuds_feuilles (calculer_frequences texte)) = Inr (Some r) \<and>
     inv_noeud r \<and> mset (feuilles r) = mset (analyser_frequences texte)"
proof -
  let ?f = "analyser_frequences texte"
  have cf: "calculer_frequences texte = ?f"
    by (simp add: calculer_frequences_analyser_form analyser_frequences_def)
  from assms have ne: "?f \<noteq> []" by (simp add: analyser_frequences_def first_occurrences_def)
  have pos: "\<forall>(c, n) \<in> set ?f. 0 < n"
    using analyser_frequences_positive by fastforce
  from ne pos obtain r where
    r: "boucle_fusion (heapify noeud_lt (creer_noeuds_feuilles ?f)) = Inr [r]"
       "inv_noeud r" "mset (feuilles r) = mset ?f"
    using construction_ok [of ?f] by auto
  then show ?thesis
    using ne by (simp add: construire_arbre_creer construire_arbre_huffman_def cf)
qed

lemma symboles_du_texte:
  assumes "mset (feuilles r) = mset (analyser_frequences texte)"
  shows "distinct (symboles r) \<and> set (symboles r) = set texte \<and> length (symboles r) = card (set texte)"
proof -
  have "mset (symboles r) = mset (first_occurrences texte)"
    using arg_cong [OF assms, of "image_mset fst"]
    by (simp add: symboles_def analyser_frequences_def image_mset.compositionality comp_def)
  then show ?thesis
    by (metis distinct_first_occurrences set_first_occurrences distinct_card mset_eq_setD
        mset_eq_length mset_eq_imp_distinct_iff)
qed

lemma feuille_unique:
  "arbre_plein r \<Longrightarrow> length (feuilles r) = 1 \<Longrightarrow> \<exists>c f. r = Noeud (Some c) f None None"
proof (induction r rule: arbre_plein.induct)
  case (2 f g d)
  then show ?case using feuilles_non_vides [of g] feuilles_non_vides [of d] by (simp add: add_is_1)
qed auto

text \<open>
  One run of \<^verbatim>\<open>main\<close> on a text with two distinct symbols or more: the tree, its code
  table (the root-to-leaf paths), the encoding, and the agreement of both packages.
\<close>

lemma main_execution:
  assumes "1 < card (set texte)"
  shows "\<exists>r s st. construire_arbre (analyser_frequences texte) = Inr r \<and> inv_noeud r \<and>
    mset (feuilles r) = mset (analyser_frequences texte) \<and> distinct (symboles r) \<and>
    set (symboles r) = set texte \<and> s = concat (map (\<lambda>c. the (map_of (chemins r []) c)) texte) \<and>
    calculer_stats texte s = Inr st \<and> main texte = Inr (s, texte, True, st) \<and> encoder_texte texte = Inr s \<and>
    recuperer_arbre_huffman texte = Inr (Some r) \<and> generer_codes_huffman (Some r) = Inr (chemins r []) \<and>
    caractere r = None \<and> generer_codes (Some r) = Inr (chemins r []) \<and> encoder texte (chemins r []) = Inr s \<and>
    decoder s (Some r) = Inr texte"
proof -
  from assms have "texte \<noteq> []" by auto
  from arbre_du_texte [OF this] obtain r where
    r: "construire_arbre (analyser_frequences texte) = Inr r"
       "construire_arbre_huffman (creer_noeuds_feuilles (calculer_frequences texte)) = Inr (Some r)"
       "inv_noeud r" "mset (feuilles r) = mset (analyser_frequences texte)" by blast
  from symboles_du_texte [OF r(4)] have dist: "distinct (symboles r)"
    and sym: "set (symboles r) = set texte" and len: "length (symboles r) = card (set texte)"
    by simp_all
  from r(3) have plein: "arbre_plein r" and valide: "verifier_arbre_huffman (Some r)"
    by (simp_all add: inv_noeud_def verifier_arbre_huffman_iff)
  have interne: "caractere r = None"
  proof (rule ccontr)
    assume "caractere r \<noteq> None"
    then obtain c where "caractere r = Some c" by blast
    with plein have "r = Noeud (Some c) (frequence r) None None" by (rule arbre_plein_feuille_cases)
    then have "symboles r = [c]" by (metis feuilles.simps(1) list.simps(8,9) fst_conv symboles_def)
    with len assms show False by simp
  qed
  have gc: "generer_codes (Some r) = Inr (chemins r [])"
    using generer_codes_table [OF plein dist] code_ou_zero_chemins_interne [OF interne] by simp
  have gch: "generer_codes_huffman (Some r) = Inr (chemins r [])"
    by (rule generer_codes_huffman_table [OF valide dist])
  have "set texte \<subseteq> set (dict_keys (chemins r []))"
    using map_fst_chemins [of r "[]"] sym by (simp add: dict_keys_def)
  then obtain s where s: "encoder texte (chemins r []) = Inr s"
    by (simp add: encoder_result)
  from encoder_table_chemins [of "chemins r []" r texte s] s
  have s_def: "s = concat (map (\<lambda>c. the (map_of (chemins r []) c)) texte)"
    and cs: "\<forall>c \<in> set texte. (c, the (map_of (chemins r []) c)) \<in> set (chemins r [])" by simp_all
  with decoder_concat [OF plein interne, of texte "\<lambda>c. the (map_of (chemins r []) c)" "[]" "[]"]
  have dec: "decoder s (Some r) = Inr texte" by (simp add: decoder_def)
  from \<open>texte \<noteq> []\<close> obtain st where st: "calculer_stats texte s = Inr st"
    by (simp add: calculer_stats_def Let_def)
  have "main texte = Inr (s, texte, True, st)"
    by (simp add: main_def r(1) gc s dec st)
  moreover have rec: "recuperer_arbre_huffman texte = Inr (Some r)"
    by (simp add: recuperer_arbre_huffman_def r(2))
  moreover have "encoder_texte texte = Inr s"
    by (simp add: encoder_texte_def rec gch s)
  ultimately show ?thesis using r(1,3,4) dist sym s_def st gch interne gc s dec by blast
qed

text \<open>
  The length of an encoding is the sum over the code table of the number of occurrences
  of each symbol times the length of its code.
\<close>

lemma longueur_code_texte:
  assumes "distinct (map fst T)" and "set texte \<subseteq> set (map fst T)"
  shows "int (length (concat (map (\<lambda>c. the (map_of T c)) texte))) =
    sum_list (map (\<lambda>(c, p). int (count_list texte c) * int (length p)) T)"
proof -
  let ?f = "\<lambda>c. int (count_list texte c) * int (length (the (map_of T c)))"
  have "int (length (concat (map (\<lambda>c. the (map_of T c)) texte))) =
      int (\<Sum>c \<in> set texte. count_list texte c * length (the (map_of T c)))"
    by (simp add: length_concat comp_def sum_list_map_eq_sum_count)
  also have "\<dots> = (\<Sum>c \<in> set texte. ?f c)" by simp
  also have "\<dots> = (\<Sum>c \<in> set (map fst T). ?f c)"
    using assms(2) by (intro sum.mono_neutral_left) (auto simp: count_list_0_iff)
  also have "\<dots> = sum_list (map ?f (map fst T))"
    by (simp only: sum_list_distinct_conv_sum_set [OF assms(1)])
  also have "\<dots> = sum_list (map (\<lambda>(c, p). int (count_list texte c) * int (length p))
      (map (\<lambda>k. (k, the (map_of T k))) (map fst T)))"
    by (simp add: comp_def)
  also have "\<dots> = sum_list (map (\<lambda>(c, p). int (count_list texte c) * int (length p)) T)"
    using dict_rebuild [of T] assms(1) by (simp add: dict_keys_def)
  finally show ?thesis .
qed

text \<open>
  A text with one distinct symbol: the tree is one leaf, its code is empty in
  \<^verbatim>\<open>generer_codes_huffman\<close>, and \<^verbatim>\<open>encoder_texte\<close> returns the empty encoding.
\<close>

lemma feuille_du_texte:
  assumes "texte \<noteq> []" and "card (set texte) = 1"
  shows "\<exists>c f. construire_arbre (analyser_frequences texte) = Inr (Noeud (Some c) f None None) \<and>
    recuperer_arbre_huffman texte = Inr (Some (Noeud (Some c) f None None)) \<and>
    set texte = {c} \<and> 0 < f"
proof -
  from arbre_du_texte [OF assms(1)] obtain r where
    r: "construire_arbre (analyser_frequences texte) = Inr r"
       "construire_arbre_huffman (creer_noeuds_feuilles (calculer_frequences texte)) = Inr (Some r)"
       "inv_noeud r" "mset (feuilles r) = mset (analyser_frequences texte)" by blast
  from symboles_du_texte [OF r(4)] assms(2)
  have sym: "set (symboles r) = set texte" and "length (feuilles r) = 1"
    by (simp_all add: symboles_def)
  with r(3) obtain c f where rf: "r = Noeud (Some c) f None None"
    using feuille_unique [of r] by (auto simp: inv_noeud_def)
  with sym have "set texte = {c}" by (simp add: symboles_def)
  moreover from r(3) rf have "0 < f" by (simp add: inv_noeud_def)
  ultimately show ?thesis
    using r(1,2) rf by (simp add: recuperer_arbre_huffman_def)
qed

lemma encoder_feuille_zero:
  assumes "set texte = {c}"
  shows "encoder texte [(c, ''0'')] = Inr (concat (map (\<lambda>_. ''0'') texte))"
proof -
  have m0: "map (\<lambda>x. the (map_of [(c, ''0'')] x)) texte = map (\<lambda>_. ''0'') texte"
    using assms by (intro map_cong) auto
  show ?thesis
    unfolding encoder_result [of texte "[(c, ''0'')]"] m0 [symmetric]
    using assms by (simp add: dict_keys_def)
qed

lemma encoder_texte_feuille:
  assumes "texte \<noteq> []" and "card (set texte) = 1"
  shows "encoder_texte texte = Inr []"
proof -
  from feuille_du_texte [OF assms] obtain c f where
    r: "recuperer_arbre_huffman texte = Inr (Some (Noeud (Some c) f None None))"
       "set texte = {c}" "0 < f" by blast
  have m1: "map (\<lambda>x. the (map_of [(c, [])] x)) texte = map (\<lambda>_. []) texte"
    using r(2) by (intro map_cong) auto
  have "encoder texte [(c, [])] = Inr []"
    unfolding encoder_result [of texte "[(c, [])]"] m1
    using r(2) by (simp add: dict_keys_def)
  then show ?thesis
    using r(3) by (simp add: encoder_texte_def r(1) generer_codes_huffman_def est_feuille_def)
qed

subsection \<open>End-to-end properties\<close>

text \<open>
  C1. On a text with at least two distinct symbols, \<^verbatim>\<open>main\<close> of
  \<^verbatim>\<open>src/huffman/main.py\<close> decodes the encoding back to the text and reports
  \<^verbatim>\<open>"Decodage correct" (with an accented e)\<close>; the top-level \<^verbatim>\<open>encoder_texte\<close> produces the same
  encoding.
\<close>

theorem main_decodage_correct:
  assumes "1 < card (set texte)"
  shows "\<exists>s st. main texte = Inr (s, texte, True, st) \<and> encoder_texte texte = Inr s"
  using main_execution [OF assms] by blast

theorem main_decodage_correct_witness:
  "1 < card (set ''aabbc'') \<and>
   (\<exists>s st. main ''aabbc'' = Inr (s, ''aabbc'', True, st) \<and> encoder_texte ''aabbc'' = Inr s)"
  using main_decodage_correct [of "''aabbc''"] by simp

text \<open>
  The fixture of the spec, run through the model: the frequencies \<open>{a:2, b:2, c:1}\<close>
  give the codes \<open>a = 0\<close>, \<open>c = 10\<close>, \<open>b = 11\<close> (CPython's heap order decides
  the ties) and an 8-bit encoding, which decodes back.
\<close>

lemma main_aabbc:
  "main ''aabbc'' = Inr (''00111110'', ''aabbc'', True,
     \<lparr>original = 40, compresse = 8, taux = 1 / 5, gain = 4 / 5\<rparr>)"
  by code_simp

text \<open>
  C12. On a non-empty text with a single distinct symbol, the tree is one leaf:
  \<^verbatim>\<open>main\<close> crashes with \<^verbatim>\<open>AttributeError\<close> in the decoder (the leaf has no
  child to move to), and \<^verbatim>\<open>encoder_texte\<close> returns the empty encoding.
\<close>

theorem main_symbole_unique:
  assumes "texte \<noteq> []" and "card (set texte) = 1"
  shows "main texte = Inl AttributeError \<and> encoder_texte texte = Inr []"
proof -
  from feuille_du_texte [OF assms] obtain c f where
    r: "construire_arbre (analyser_frequences texte) = Inr (Noeud (Some c) f None None)"
       "set texte = {c}" "0 < f" by blast
  have enc0: "encoder texte [(c, ''0'')] = Inr (concat (map (\<lambda>_. ''0'') texte))"
    using r(2) by (rule encoder_feuille_zero)
  from assms(1) have dec:
    "decoder (map (\<lambda>_. CHR ''0'') texte) (Some (Noeud (Some c) f None None)) = Inl AttributeError"
    by (cases texte) (simp_all add: decoder_def)
  have "main texte = Inl AttributeError"
    using r(3) by (simp add: main_def r(1) generer_codes_def code_ou_zero_def enc0 dec)
  with encoder_texte_feuille [OF assms] show ?thesis by blast
qed

theorem main_symbole_unique_witness:
  "''xxxx'' \<noteq> [] \<and> card (set ''xxxx'') = 1 \<and>
   main ''xxxx'' = Inl AttributeError \<and> encoder_texte ''xxxx'' = Inr []"
  using main_symbole_unique [of "''xxxx''"] by simp

text \<open>
  The encoding of \<^verbatim>\<open>main\<close> has as many bits as the weighted path length of the tree,
  when the leaves carry the occurrence counts.
\<close>

lemma main_longueur_ponderee:
  assumes "1 < card (set texte)"
  shows "\<exists>r s st rest. main texte = Inr (s, texte, True, st) \<and> calculer_stats texte s = Inr st \<and>
    construire_arbre (analyser_frequences texte) = Inr r \<and>
    boucle_fusion (heapify noeud_lt (creer_noeuds_feuilles (analyser_frequences texte))) = Inr (r # rest) \<and>
    int (length s) = longueur_ponderee r \<and> arbre_plein r \<and> mset (feuilles r) = mset (analyser_frequences texte)"
proof -
  from main_execution [OF assms] obtain r s st where
    r: "construire_arbre (analyser_frequences texte) = Inr r" "inv_noeud r"
    "mset (feuilles r) = mset (analyser_frequences texte)" "distinct (symboles r)"
    "set (symboles r) = set texte" "s = concat (map (\<lambda>c. the (map_of (chemins r []) c)) texte)"
    "calculer_stats texte s = Inr st" "main texte = Inr (s, texte, True, st)" by blast
  have plein: "arbre_plein r" using r(2) by (simp add: inv_noeud_def)
  have w: "\<forall>(c, f) \<in> set (feuilles r). f = int (count_list texte c)"
  proof (intro ballI, clarify)
    fix c f assume "(c, f) \<in> set (feuilles r)"
    then have "(c, f) \<in> set (analyser_frequences texte)" using r(3) by (metis set_mset_mset)
    then show "f = int (count_list texte c)" by (auto simp: analyser_frequences_def)
  qed
  have "longueur_ponderee r =
      sum_list (map (\<lambda>(c, p). int (count_list texte c) * int (length p)) (chemins r []))"
    using lpp_chemins [OF plein w, of "[]"] by (simp add: longueur_ponderee_def)
  also have "\<dots> = int (length s)"
    using longueur_code_texte [of "chemins r []" texte] r(4,5,6) map_fst_chemins [of r "[]"] by simp
  finally have eq: "int (length s) = longueur_ponderee r" ..
  from r(1) obtain rest where
    "boucle_fusion (heapify noeud_lt (creer_noeuds_feuilles (analyser_frequences texte))) = Inr (r # rest)"
    by (auto simp: construire_arbre_creer split: sum.splits list.splits)
  with r(1,3,7,8) eq plein show ?thesis by blast
qed

text \<open>
  C18. The compression \<^verbatim>\<open>main\<close> achieves is optimal. On a text with two distinct
  symbols or more, the encoding has as many bits as the weighted path length of the tree
  built from the frequency table, and no full binary tree over the same table (no prefix
  code given by a tree) has a smaller weighted path length.
\<close>

theorem main_longueur_optimale:
  assumes "1 < card (set texte)"
  shows "\<exists>s r st. main texte = Inr (s, texte, True, st) \<and> construire_arbre (analyser_frequences texte) = Inr r \<and>
    int (length s) = longueur_ponderee r \<and>
    (\<forall>t. arbre_plein t \<and> mset (feuilles t) = mset (analyser_frequences texte) \<longrightarrow>
       int (length s) \<le> longueur_ponderee t)"
proof -
  from main_longueur_ponderee [OF assms] obtain r s st rest where
    r: "main texte = Inr (s, texte, True, st)" "construire_arbre (analyser_frequences texte) = Inr r"
    "boucle_fusion (heapify noeud_lt (creer_noeuds_feuilles (analyser_frequences texte))) = Inr (r # rest)"
    "int (length s) = longueur_ponderee r" by blast
  have d: "distinct (map fst (analyser_frequences texte))"
    using dict_keys_analyser_frequences [of texte] by (simp add: dict_keys_def)
  have "\<forall>t. arbre_plein t \<and> mset (feuilles t) = mset (analyser_frequences texte) \<longrightarrow>
       int (length s) \<le> longueur_ponderee t"
    using boucle_fusion_optimal [OF d r(3)] r(4) by simp
  with r show ?thesis by blast
qed

theorem main_longueur_optimale_witness:
  "1 < card (set ''aabbc'') \<and>
   (\<exists>s r st. main ''aabbc'' = Inr (s, ''aabbc'', True, st) \<and> construire_arbre (analyser_frequences ''aabbc'') = Inr r \<and>
      int (length s) = longueur_ponderee r)"
  using main_longueur_optimale [of "''aabbc''"] by auto

text \<open>
  C19. Bound on the statistics of \<^verbatim>\<open>calculer_stats\<close>: on a text with two to 256 distinct
  symbols, \<^verbatim>\<open>main\<close> never expands the text. The encoded size is at most the original
  8 bits per character, so the ratio is at most 1 and the gain is not negative. The
  256-symbol bound is the fixed-length code of 8 bits, with which the optimal tree is
  compared.
\<close>

theorem main_compression_bornee:
  assumes "1 < card (set texte)" and "card (set texte) \<le> 256"
  shows "\<exists>s st. main texte = Inr (s, texte, True, st) \<and> compresse st = length s \<and>
    original st = 8 * length texte \<and> compresse st \<le> original st \<and> taux st \<le> 1 \<and> 0 \<le> gain st"
proof -
  from main_longueur_ponderee [OF assms(1)] obtain r s st rest where
    r: "main texte = Inr (s, texte, True, st)" "calculer_stats texte s = Inr st"
    "boucle_fusion (heapify noeud_lt (creer_noeuds_feuilles (analyser_frequences texte))) = Inr (r # rest)"
    "int (length s) = longueur_ponderee r" by blast
  let ?f = "analyser_frequences texte"
  have d: "distinct (map fst ?f)"
    using dict_keys_analyser_frequences [of texte] by (simp add: dict_keys_def)
  from assms(1) have ne: "?f \<noteq> []" by (auto simp: analyser_frequences_def first_occurrences_def)
  have pos: "\<forall>(c, n) \<in> set ?f. 0 \<le> n" by (auto simp: analyser_frequences_def)
  have len: "length ?f \<le> 2 ^ 8"
    using assms(2) distinct_card [of "first_occurrences texte"] by (simp add: analyser_frequences_def)
  from equilibre_plein [OF ne] have t: "arbre_plein (equilibre ?f)" "mset (feuilles (equilibre ?f)) = mset ?f"
    by simp_all
  have "int (length s) \<le> longueur_ponderee (equilibre ?f)"
    using boucle_fusion_optimal [OF d r(3) t] r(4) by simp
  also have "\<dots> \<le> sum_list (map snd ?f) * 8"
    using equilibre_lpp [OF ne pos len, of 0] by (simp add: longueur_ponderee_def)
  also have "\<dots> = int (8 * length texte)"
    using sum_analyser_frequences [of texte] by simp
  finally have le: "length s \<le> 8 * length texte" by linarith
  from assms(1) have "texte \<noteq> []" by auto
  with r(2) have st: "compresse st = length s" "original st = 8 * length texte"
    "taux st = of_nat (length s) / of_nat (8 * length texte)" "gain st = 1 - taux st"
    by (auto simp: calculer_stats_def Let_def mult.commute)
  have "taux st \<le> 1" using le \<open>texte \<noteq> []\<close> st(3) by (simp add: divide_le_eq_1 of_nat_le_iff)
  with st le r(1) show ?thesis by auto
qed

theorem main_compression_bornee_witness:
  "1 < card (set ''aabbc'') \<and> card (set ''aabbc'') \<le> 256 \<and>
   (\<exists>s st. main ''aabbc'' = Inr (s, ''aabbc'', True, st) \<and> compresse st = length s \<and>
      original st = 40 \<and> compresse st \<le> original st \<and> taux st \<le> 1 \<and> 0 \<le> gain st)"
  using main_compression_bornee [of "''aabbc''"] by simp

text \<open>
  C20. The bound of C22 is tight. On a text of 257 distinct symbols (a Python string may
  hold any Unicode character), \<^verbatim>\<open>main\<close> produces an encoding longer than the
  8 bits per character it compares against. The printed ratio is then above 100 percent
  and the gain negative: some symbol gets a code of 9 bits or more.
\<close>

theorem main_expansion_257:
  assumes "distinct texte" and "length texte = 257"
  shows "\<exists>s st. main texte = Inr (s, texte, True, st) \<and> original st < compresse st \<and>
    1 < taux st \<and> gain st < 0"
proof -
  from assms have card: "card (set texte) = 257" by (simp add: distinct_card)
  then have "1 < card (set texte)" by simp
  from main_longueur_ponderee [OF this] obtain r s st rest where
    r: "main texte = Inr (s, texte, True, st)" "calculer_stats texte s = Inr st"
    "int (length s) = longueur_ponderee r" "arbre_plein r"
    "mset (feuilles r) = mset (analyser_frequences texte)" by blast
  have c1: "count_list xs c = 1" if "distinct xs" "c \<in> set xs" for xs :: "'a list" and c
    using that by (induction xs) auto
  have "first_occurrences texte = texte"
    using assms(1) by (simp add: first_occurrences_def distinct_remdups_id)
  then have f: "analyser_frequences texte = map (\<lambda>c. (c, 1)) texte"
    using c1 [OF assms(1)] by (simp add: analyser_frequences_def)
  have un: "\<forall>(c, f) \<in> set (feuilles r). f = 1"
  proof
    fix x assume "x \<in> set (feuilles r)"
    then have "x \<in> set (analyser_frequences texte)" using r(5) by (metis set_mset_mset)
    then show "case x of (c, f) \<Rightarrow> f = 1" using f by auto
  qed
  have "length (feuilles r) = 257"
    using arg_cong [OF r(5), of size] f assms(2) by simp
  with lpp_unitaire [OF r(4) un, of 8] r(3)
  have lt: "8 * length texte < length s" using assms(2) by (simp add: longueur_ponderee_def)
  from assms(2) have "texte \<noteq> []" by auto
  with r(2) have st: "compresse st = length s" "original st = 8 * length texte"
    "taux st = of_nat (length s) / of_nat (8 * length texte)" "gain st = 1 - taux st"
    by (auto simp: calculer_stats_def Let_def mult.commute)
  have "1 < taux st" using lt \<open>texte \<noteq> []\<close> st(3) by (simp add: less_divide_eq_1 of_nat_less_iff)
  with st lt r(1) show ?thesis by auto
qed

theorem main_expansion_257_witness:
  "distinct [0..<257] \<and> length [0..<257] = 257 \<and>
   (\<exists>s st. main [0..<257] = Inr (s, [0..<257], True, st) \<and> original st < compresse st \<and>
      1 < taux st \<and> gain st < 0)"
  using main_expansion_257 [of "[0..<257]"] by simp

subsection \<open>The script of \<^verbatim>\<open>src/encodage.py\<close>\<close>

text \<open>
  C25. The \<^verbatim>\<open>__main__\<close> block of \<^verbatim>\<open>src/encodage.py\<close>, on a text with at least two
  distinct symbols, passes its three assertions: it saves the encoding of
  \<^verbatim>\<open>encoder_texte\<close>, which is not empty, to \<^verbatim>\<open>texte_encode_compress\<close>\<open>\<acute>e\<close>\<^verbatim>\<open>.txt\<close>,
  with the sizes in bits that \<^verbatim>\<open>sauvegarder_texte_encode\<close> prints. Run over a file store
  whose \<^verbatim>\<open>test.txt\<close> holds the text, the script leaves the store with that file
  written and the same outcome.
\<close>

theorem encodage_main_succes:
  assumes "systeme ''test.txt'' = Some (Texte texte)" and "1 < card (set texte)"
  shows "\<exists>s. encoder_texte texte = Inr s \<and> s \<noteq> [] \<and>
    encodage_main texte = Inr \<lparr>fichier_ecrit = ''texte_encode_compress'' @ [CHR 0xE9] @ ''.txt'',
      contenu_ecrit = s, taille_original = length texte * 8, taille_encode = length s,
      compression_reussie = (length s < length texte * 8)\<rparr> \<and>
    encodage_script systeme =
      (sauvegarder systeme s (''texte_encode_compress'' @ [CHR 0xE9] @ ''.txt''), encodage_main texte)"
proof -
  from main_execution [OF assms(2)] obtain r s where
    r: "inv_noeud r" "set (symboles r) = set texte"
       "s = concat (map (\<lambda>c. the (map_of (chemins r []) c)) texte)"
       "encoder_texte texte = Inr s" "recuperer_arbre_huffman texte = Inr (Some r)"
       "generer_codes_huffman (Some r) = Inr (chemins r [])" "caractere r = None"
    by blast
  have cles: "set (dict_keys (chemins r [])) = set texte"
    using map_fst_chemins [of r "[]"] r(2) by (simp add: dict_keys_def)
  then have v1: "verifier_codes_caracteres (chemins r []) texte"
    by (simp add: verifier_codes_caracteres_iff)
  have v2: "verifier_propriete_prefixe (chemins r [])"
    using r(1) prefix_free_chemins [of r] by (simp add: verifier_propriete_prefixe_iff inv_noeud_def)
  from assms(2) obtain c rest where tc: "texte = c # rest" by (cases texte) auto
  with cles obtain p where "map_of (chemins r []) c = Some p"
    by (metis dict_keys_eq_dom domD list.set_intros(1))
  then have "(c, p) \<in> set (chemins r [])" and "the (map_of (chemins r []) c) = p"
    by (simp_all add: map_of_SomeD)
  with chemins_interne_non_vides [OF r(7)] have ne: "s \<noteq> []"
    using r(3) tc by auto
  have "encodage_main texte = Inr \<lparr>fichier_ecrit = ''texte_encode_compress'' @ [CHR 0xE9] @ ''.txt'',
      contenu_ecrit = s, taille_original = length texte * 8, taille_encode = length s,
      compression_reussie = (length s < length texte * 8)\<rparr>"
    using v1 v2 ne nom_texte_encode_compresse
    by (simp add: encodage_main_def r(4,5,6) sauvegarder_texte_encode_def verifier_texte_encode_non_vide_def Let_def)
  moreover have "encodage_script systeme =
      (sauvegarder systeme s (''texte_encode_compress'' @ [CHR 0xE9] @ ''.txt''), encodage_main texte)"
    by (simp add: encodage_script_encodage_main assms(1) r(4) nom_texte_encode_compresse)
  ultimately show ?thesis using r(4) ne by blast
qed

theorem encodage_main_succes_witness:
  "1 < card (set ''aabbc'') \<and> encoder_texte ''aabbc'' = Inr ''00111110'' \<and> ''00111110'' \<noteq> [] \<and>
   encodage_main ''aabbc'' = Inr \<lparr>fichier_ecrit = ''texte_encode_compress'' @ [CHR 0xE9] @ ''.txt'',
      contenu_ecrit = ''00111110'', taille_original = 40, taille_encode = 8,
      compression_reussie = True\<rparr> \<and>
   encodage_script [''test.txt'' \<mapsto> Texte ''aabbc''] =
     ([''test.txt'' \<mapsto> Texte ''aabbc'', ''texte_encode_compress'' @ [CHR 0xE9] @ ''.txt'' \<mapsto> Texte ''00111110''],
      encodage_main ''aabbc'')"
proof -
  have e: "encoder_texte ''aabbc'' = Inr ''00111110''" by code_simp
  show ?thesis
    using encodage_main_succes [of "[''test.txt'' \<mapsto> Texte ''aabbc'']" "''aabbc''"]
    by (simp add: e sauvegarder_def)
qed

text \<open>
  C26. The same script fails its third assertion (\<^verbatim>\<open>AssertionError\<close>: the encoded
  text is empty) on a text with a single distinct symbol, whose tree is one leaf with
  the empty code; on the empty text it stops with \<^verbatim>\<open>ValueError\<close> in
  \<^verbatim>\<open>generer_codes_huffman\<close>, before any assertion. Over the file store, the failed
  assertion comes after the write: the store is left with an empty compressed file. When
  \<^verbatim>\<open>test.txt\<close> is missing the script stops with \<^verbatim>\<open>FileNotFoundError\<close> and
  writes nothing.
\<close>

theorem encodage_main_echec:
  assumes "systeme ''test.txt'' = Some (Texte texte)" and "texte \<noteq> []" and "card (set texte) = 1"
  shows "encodage_main texte = Inl AssertionError \<and> encodage_main ([] :: string) = Inl ValueError \<and>
    encodage_script systeme =
      (sauvegarder systeme [] (''texte_encode_compress'' @ [CHR 0xE9] @ ''.txt''), Inl AssertionError) \<and>
    encodage_script (systeme(''test.txt'' := None)) = (systeme(''test.txt'' := None), Inl FileNotFoundError)"
proof -
  from feuille_du_texte [OF assms(2,3)] obtain c f where
    r: "recuperer_arbre_huffman texte = Inr (Some (Noeud (Some c) f None None))"
       "set texte = {c}" "0 < f" by blast
  have "encodage_main texte = Inl AssertionError"
    using r(2,3) encoder_texte_feuille [OF assms(2,3)]
    by (simp add: encodage_main_def r(1) generer_codes_huffman_def est_feuille_def
        verifier_codes_caracteres_iff dict_keys_def verifier_propriete_prefixe_iff
        prefix_free_def verifier_texte_encode_non_vide_def)
  moreover have "encodage_main ([] :: string) = Inl ValueError"
    by (simp add: encodage_main_def recuperer_arbre_huffman_def calculer_frequences_def
        construire_arbre_huffman_def heapify_def boucle_fusion_Nil generer_codes_huffman_def)
  moreover have "encodage_script systeme =
      (sauvegarder systeme [] (''texte_encode_compress'' @ [CHR 0xE9] @ ''.txt''), encodage_main texte)"
    using encoder_texte_feuille [OF assms(2,3)]
    by (simp add: encodage_script_encodage_main assms(1) nom_texte_encode_compresse)
  moreover have "encodage_script (systeme(''test.txt'' := None)) =
      (systeme(''test.txt'' := None), Inl FileNotFoundError)"
    by (simp add: encodage_script_encodage_main)
  ultimately show ?thesis by simp
qed

theorem encodage_main_echec_witness:
  "''xxx'' \<noteq> [] \<and> card (set ''xxx'') = 1 \<and>
   encodage_main ''xxx'' = Inl AssertionError \<and> encodage_main ([] :: string) = Inl ValueError \<and>
   encodage_script [''test.txt'' \<mapsto> Texte ''xxx''] =
     ([''test.txt'' \<mapsto> Texte ''xxx'', ''texte_encode_compress'' @ [CHR 0xE9] @ ''.txt'' \<mapsto> Texte []],
      Inl AssertionError) \<and>
   encodage_script Map.empty = (Map.empty, Inl FileNotFoundError)"
  using encodage_main_echec [of "[''test.txt'' \<mapsto> Texte ''xxx'']" "''xxx''"] by (simp add: sauvegarder_def)

subsection \<open>The web page of \<^verbatim>\<open>src/huffman/app.py\<close> against \<^verbatim>\<open>main\<close>\<close>

text \<open>
  C28. On a file with at least two distinct symbols the page and \<^verbatim>\<open>main\<close> agree: the
  page shows the sizes that \<^verbatim>\<open>calculer_stats\<close> computes for \<^verbatim>\<open>main\<close>'s encoding, its
  compression rate is \<^verbatim>\<open>main\<close>'s gain in percent, and the drawn tree has
  \<open>2k - 1\<close> vertices for \<open>k\<close> distinct symbols.
\<close>

theorem app_accord_main:
  assumes "1 < card (set texte)"
  shows "\<exists>a s st. app texte = Inr a \<and> main texte = Inr (s, texte, True, st) \<and>
    taille_encodee a = compresse st \<and> taille_originale a = original st \<and>
    taux_compression a = 100 * gain st \<and> length (sommets (graphe_arbre a)) = 2 * card (set texte) - 1"
proof -
  from main_execution [OF assms] obtain r s st where
    m: "construire_arbre (analyser_frequences texte) = Inr r" "inv_noeud r"
       "mset (feuilles r) = mset (analyser_frequences texte)" "set (symboles r) = set texte"
       "calculer_stats texte s = Inr st" "main texte = Inr (s, texte, True, st)"
       "generer_codes (Some r) = Inr (chemins r [])" "encoder texte (chemins r []) = Inr s"
    by blast
  from assms have ne: "texte \<noteq> []" by auto
  have "chemins r [] \<noteq> []"
    using m(4) ne map_fst_chemins [of r "[]"] by (auto simp: symboles_def)
  then obtain a where a: "app texte = Inr a"
    using app_succes [OF m(1) m(7) _ m(8) ne] by blast
  have f: "taille_encodee a = length s \<and> taille_originale a = length texte * 8 \<and>
      taux_compression a = (1 - of_nat (length s) / of_nat (length texte * 8)) * 100 \<and>
      graphe_arbre a = fst (visualiser_arbre r None [] (graphe_vide, 0))"
    using app_Inr [OF a]
  proof (elim exE conjE, goal_cases)
    case (1 arbre codes s')
    then show ?case using m(1,7,8) by simp
  qed
  have st: "compresse st = length s \<and> original st = length texte * 8 \<and>
      gain st = 1 - of_nat (length s) / of_nat (length texte * 8)"
    using m(5) ne by (auto simp: calculer_stats_def Let_def)
  have plein: "arbre_plein r" using m(2) by (simp add: inv_noeud_def)
  have "length (feuilles r) = card (set texte)"
    using symboles_du_texte [OF m(3)] by (simp add: symboles_def)
  then have "length (sommets (graphe_arbre a)) = 2 * card (set texte) - 1"
    using f visualiser_nb_sommets [of r] nb_noeuds_plein [OF plein] internes_feuilles [OF plein] by simp
  with a m(6) f st show ?thesis by (auto simp: mult.commute)
qed

theorem app_accord_main_witness:
  "1 < card (set ''aabbc'') \<and>
   (\<exists>a s st. app ''aabbc'' = Inr a \<and> main ''aabbc'' = Inr (s, ''aabbc'', True, st) \<and>
     taille_encodee a = compresse st \<and> taille_originale a = original st \<and>
     taux_compression a = 100 * gain st \<and> length (sommets (graphe_arbre a)) = 5)"
  using app_accord_main [of "''aabbc''"] by simp

text \<open>
  C29. Unlike \<^verbatim>\<open>main\<close> (C15), the page handles a file with a single distinct symbol:
  \<^verbatim>\<open>generer_codes\<close> of the huffman package gives the one leaf the code \<^verbatim>\<open>"0"\<close>, so
  the page shows one bit per character and a rate of 87.5 percent. An empty file makes
  \<^verbatim>\<open>construire_arbre\<close> raise \<^verbatim>\<open>IndexError\<close>.
\<close>

theorem app_symbole_unique:
  assumes "texte \<noteq> []" and "card (set texte) = 1"
  shows "\<exists>a. app texte = Inr a \<and> taille_encodee a = length texte \<and> taux_compression a = 175 / 2 \<and>
    longueur_min a = 1 \<and> longueur_max a = 1 \<and> app [] = Inl IndexError"
proof -
  from feuille_du_texte [OF assms] obtain c f where
    r: "construire_arbre (analyser_frequences texte) = Inr (Noeud (Some c) f None None)"
       "set texte = {c}" "0 < f" by blast
  have g: "generer_codes (Some (Noeud (Some c) f None None)) = Inr [(c, ''0'')]"
    by (simp add: generer_codes_def code_ou_zero_def)
  have e: "encoder texte [(c, ''0'')] = Inr (concat (map (\<lambda>_. ''0'') texte))"
    using r(2) by (rule encoder_feuille_zero)
  have l: "length (concat (map (\<lambda>_. ''0'') texte)) = length texte"
    by (induction texte) auto
  have n: "0 < length texte" using assms(1) by simp
  have "(1 - of_nat (length texte) / of_nat (length texte * 8)) * 100 = (175 / 2 :: rat)"
    using n by (simp add: field_simps)
  then have "app texte = Inr \<lparr>longueur_texte = length texte,
      tableau_frequences = map (\<lambda>(c, f). (affichage_car c, f))
        (take 10 (sort_key (\<lambda>(c, f). - f) (analyser_frequences texte))),
      autres_caracteres = (if 10 < length (analyser_frequences texte)
        then Some (length (analyser_frequences texte) - 10) else None),
      graphique = take 15 (sort_key (\<lambda>(c, f). - f) (analyser_frequences texte)),
      graphe_arbre = fst (visualiser_arbre (Noeud (Some c) f None None) None [] (graphe_vide, 0)),
      table_codes = [(affichage_car c, ''0'')], autres_codes = None,
      longueur_min = 1, longueur_max = 1, longueur_moyenne = 1,
      taille_originale = length texte * 8, taille_encodee = length texte,
      taux_compression = 175 / 2,
      apercu = take 500 (concat (map (\<lambda>_. ''0'') texte)) @
        (if 500 < length texte then ''...'' else [])\<rparr>"
    using n l by (simp add: app_def Let_def r(1) g e)
  moreover have "app [] = Inl IndexError"
    by (simp add: app_def analyser_frequences_def construire_arbre_def heapify_def boucle_fusion_Nil)
  ultimately show ?thesis by simp
qed

theorem app_symbole_unique_witness:
  "''xxxx'' \<noteq> [] \<and> card (set ''xxxx'') = 1 \<and>
   (\<exists>a. app ''xxxx'' = Inr a \<and> taille_encodee a = 4 \<and> taux_compression a = 175 / 2 \<and>
     longueur_min a = 1 \<and> longueur_max a = 1) \<and> app [] = Inl IndexError"
  using app_symbole_unique [of "''xxxx''"] by auto

text \<open>
  C36. On a file with \<open>k \<ge> 2\<close> distinct symbols, the code lengths the page reports are
  those of a full tree: the shortest code has at least one bit and at most \<open>log2 k\<close>
  bits (\<open>2 ^ min \<le> k\<close>), the longest at least \<open>log2 k\<close> bits (\<open>k \<le> 2 ^ max\<close>) and at
  most \<open>k - 1\<close>.
\<close>

theorem app_longueurs_codes:
  assumes "1 < card (set texte)"
  shows "\<exists>a. app texte = Inr a \<and> 1 \<le> longueur_min a \<and> longueur_max a \<le> card (set texte) - 1 \<and>
    2 ^ longueur_min a \<le> card (set texte) \<and> card (set texte) \<le> 2 ^ longueur_max a"
proof -
  from main_execution [OF assms] obtain r s where
    m: "construire_arbre (analyser_frequences texte) = Inr r" "inv_noeud r"
       "mset (feuilles r) = mset (analyser_frequences texte)" "set (symboles r) = set texte"
       "generer_codes (Some r) = Inr (chemins r [])" "encoder texte (chemins r []) = Inr s"
       "caractere r = None" "distinct (symboles r)"
    by blast
  from assms have ne: "texte \<noteq> []" by auto
  have plein: "arbre_plein r" using m(2) by (simp add: inv_noeud_def)
  let ?L = "map (\<lambda>(c, p). length p) (chemins r [])"
  have k: "length ?L = card (set texte)"
    using map_fst_chemins [of r "[]"] distinct_card [OF m(8)] m(4) by (metis length_map)
  then have Lne: "?L \<noteq> []" using assms by auto
  then have "chemins r [] \<noteq> []" by simp
  then obtain a where a: "app texte = Inr a"
    using app_succes [OF m(1) m(5) _ m(6) ne] by blast
  have mm: "longueur_min a = Min (set ?L) \<and> longueur_max a = Max (set ?L)"
    using app_Inr [OF a]
  proof (elim exE conjE, goal_cases)
    case (1 arbre codes s')
    then show ?case using m(1,5) by simp
  qed
  have "(\<Sum>l\<leftarrow>?L. (1/2 :: rat) ^ l) = 1"
    using kraft_chemins [OF plein, of "[]"] by (simp add: comp_def case_prod_unfold)
  from kraft_bornes [OF Lne this] k
  have b: "2 ^ Min (set ?L) \<le> card (set texte) \<and> card (set texte) \<le> 2 ^ Max (set ?L)" by simp
  have "length (feuilles r) = card (set texte)"
    using symboles_du_texte [OF m(3)] by (simp add: symboles_def)
  then have "\<forall>l \<in> set ?L. l \<le> card (set texte) - 1"
    using longueur_chemins_feuilles [OF plein] by fastforce
  then have mx: "Max (set ?L) \<le> card (set texte) - 1" using Lne by simp
  have "\<forall>l \<in> set ?L. 1 \<le> l"
    using chemins_interne_non_vides [OF m(7)] by (fastforce simp: Suc_le_eq)
  then have mn: "1 \<le> Min (set ?L)" using Lne by simp
  show ?thesis using a mm b mx mn by auto
qed

theorem app_longueurs_codes_witness:
  "1 < card (set ''aabbc'') \<and>
   (\<exists>a. app ''aabbc'' = Inr a \<and> 1 \<le> longueur_min a \<and> longueur_max a \<le> card (set ''aabbc'') - 1 \<and>
      2 ^ longueur_min a \<le> card (set ''aabbc'') \<and> card (set ''aabbc'') \<le> 2 ^ longueur_max a)"
proof -
  have c: "1 < card (set ''aabbc'')" by simp
  show ?thesis using c app_longueurs_codes [OF c] by blast
qed

subsection \<open>The encodings are bit strings\<close>

lemma dict_set_concat:
  "set (concat (map snd (dict_set d k v))) \<subseteq> set v \<union> set (concat (map snd d))"
proof (induction d)
  case (Cons e d)
  obtain k' v' where e: "e = (k', v')" by fastforce
  show ?case
  proof (cases "k' = k")
    case True
    then show ?thesis using e by auto
  next
    case False
    then have "set (concat (map snd (dict_set (e # d) k v))) =
        set v' \<union> set (concat (map snd (dict_set d k v)))" using e by simp
    with Cons.IH show ?thesis using e by auto
  qed
qed simp

lemma parcourir_noeud_bits:
  "set (concat (map snd T)) \<subseteq> {CHR ''0'', CHR ''1''} \<Longrightarrow> set q \<subseteq> {CHR ''0'', CHR ''1''} \<Longrightarrow>
   set (concat (map snd (parcourir_noeud m q T))) \<subseteq> {CHR ''0'', CHR ''1''}"
proof (induction m q T rule: parcourir_noeud.induct)
  case (2 c f g d q T)
  show ?case
  proof (cases "est_feuille (Noeud c f g d) \<and> c \<noteq> None")
    case True
    then show ?thesis
      using dict_set_concat [of T "the c" q] 2(3,4) by (simp del: dict_set.simps) blast
  next
    case False
    have "set (concat (map snd (parcourir_noeud g (q @ ''0'') T))) \<subseteq> {CHR ''0'', CHR ''1''}"
      using "2.IH"(1) [OF False] 2(3,4) by simp
    moreover have "parcourir_noeud (Some (Noeud c f g d)) q T =
        parcourir_noeud d (q @ ''1'') (parcourir_noeud g (q @ ''0'') T)"
      by (simp only: parcourir_noeud.simps if_not_P [OF False])
    ultimately show ?thesis using "2.IH"(2) [OF False] 2(4) by simp
  qed
qed simp

lemma parcourir_bits:
  "set (concat (map snd T)) \<subseteq> {CHR ''0'', CHR ''1''} \<Longrightarrow> set q \<subseteq> {CHR ''0'', CHR ''1''} \<Longrightarrow>
   parcourir m q T = Inr T' \<Longrightarrow> set (concat (map snd T')) \<subseteq> {CHR ''0'', CHR ''1''}"
proof (induction m q T arbitrary: T' rule: parcourir.induct)
  case (2 c f g d q T)
  show ?case
  proof (cases c)
    case (Some car)
    have "set (code_ou_zero q) \<subseteq> {CHR ''0'', CHR ''1''}" using 2(4) by (simp add: code_ou_zero_def)
    moreover have "T' = dict_set T car (code_ou_zero q)" using Some 2(5) by simp
    ultimately show ?thesis
      using dict_set_concat [of T car "code_ou_zero q"] 2(3) by (simp del: dict_set.simps) blast
  next
    case None
    with 2(5) obtain T1 where T1: "parcourir g (q @ ''0'') T = Inr T1" "parcourir d (q @ ''1'') T1 = Inr T'"
      by (auto split: sum.splits)
    have "set (concat (map snd T1)) \<subseteq> {CHR ''0'', CHR ''1''}"
      using "2.IH"(1) [OF None _ _ T1(1)] 2(3,4) by simp
    then show ?thesis using "2.IH"(2) [OF None T1(1) _ _ T1(2)] 2(4) by simp
  qed
qed simp

lemma encoder_bits:
  "set (concat (map snd codes)) \<subseteq> {CHR ''0'', CHR ''1''} \<Longrightarrow> encoder texte codes = Inr s \<Longrightarrow>
   set s \<subseteq> {CHR ''0'', CHR ''1''}"
proof (induction texte arbitrary: s)
  case (Cons c texte)
  then obtain p s' where p: "map_of codes c = Some p" "encoder texte codes = Inr s'" "s = p @ s'"
    by (auto split: option.splits sum.splits)
  from p(1) have "p \<in> set (map snd codes)" by (force dest: map_of_SomeD)
  then have "set p \<subseteq> set (concat (map snd codes))" by auto
  with Cons.prems(1) Cons.IH [OF Cons.prems(1) p(2)] p(3) show ?case by auto
qed simp

text \<open>
  C34. Both encoders write only the characters \<^verbatim>\<open>'0'\<close> and \<^verbatim>\<open>'1'\<close>: the encoding
  returned by the top-level \<^verbatim>\<open>encoder_texte\<close> and the one \<^verbatim>\<open>main\<close> decodes, whatever the
  text.
\<close>

theorem flux_binaire:
  "(encoder_texte texte = Inr s \<longrightarrow> set s \<subseteq> {CHR ''0'', CHR ''1''}) \<and>
   (main texte = Inr (s', texte_decode, ok, st) \<longrightarrow> set s' \<subseteq> {CHR ''0'', CHR ''1''})"
proof (intro conjI impI)
  assume h: "encoder_texte texte = Inr s"
  then obtain racine table where
    r: "generer_codes_huffman racine = Inr table" "encoder texte table = Inr s"
    by (auto simp: encoder_texte_def split: sum.splits)
  from r(1) have "table = parcourir_noeud racine [] []"
    by (simp add: generer_codes_huffman_def split: if_splits)
  then have "set (concat (map snd table)) \<subseteq> {CHR ''0'', CHR ''1''}"
    using parcourir_noeud_bits [of "[]" "[]" racine] by simp
  then show "set s \<subseteq> {CHR ''0'', CHR ''1''}" using r(2) by (rule encoder_bits)
next
  assume h: "main texte = Inr (s', texte_decode, ok, st)"
  then obtain arbre codes where
    r: "generer_codes (Some arbre) = Inr codes" "encoder texte codes = Inr s'"
    by (auto simp: main_def Let_def split: sum.splits)
  from r(1) have "set (concat (map snd codes)) \<subseteq> {CHR ''0'', CHR ''1''}"
    using parcourir_bits [of "[]" "[]" "Some arbre" codes] by (simp add: generer_codes_def)
  then show "set s' \<subseteq> {CHR ''0'', CHR ''1''}" using r(2) by (rule encoder_bits)
qed

theorem flux_binaire_witness:
  "encoder_texte ''aabbc'' = Inr ''00111110'' \<and>
   main ''aabbc'' = Inr (''00111110'', ''aabbc'', True,
     \<lparr>original = 40, compresse = 8, taux = 1 / 5, gain = 4 / 5\<rparr>) \<and>
   set ''00111110'' \<subseteq> {CHR ''0'', CHR ''1''}"
proof -
  have e: "encoder_texte ''aabbc'' = Inr ''00111110''" by code_simp
  show ?thesis
    using flux_binaire [of "''aabbc''" "''00111110''" "''00111110''" "''aabbc''" True
        "\<lparr>original = 40, compresse = 8, taux = 1 / 5, gain = 4 / 5\<rparr>"] e main_aabbc
    by simp
qed


subsection \<open>The program over the file store\<close>

text \<open>
  Each step raises one kind of exception only: the heap \<^verbatim>\<open>IndexError\<close>, the tree walks
  \<^verbatim>\<open>AttributeError\<close>, the code table lookup \<^verbatim>\<open>KeyError\<close>, the statistics
  \<^verbatim>\<open>ZeroDivisionError\<close>. \<open>programme_main\<close> is \<open>main\<close> on the contents of
  \<^verbatim>\<open>test.txt\<close>, followed by the write of the encoding.
\<close>

lemma heappop_erreur: "heappop lt heap = Inl e \<Longrightarrow> e = IndexError"
  by (simp add: heappop_def Let_def split: if_splits)

lemma boucle_fusion_erreur: "boucle_fusion heap = Inl e \<Longrightarrow> e = IndexError"
proof (induction heap rule: boucle_fusion.induct)
  case (1 heap)
  show ?case
  proof (cases "1 < length heap")
    case True
    with "1.prems" show ?thesis
      using "1.IH" [OF True] heappop_erreur
      by (auto simp: boucle_fusion.simps [of heap] split: sum.splits prod.splits)
  next
    case False
    with "1.prems" show ?thesis by (simp add: boucle_fusion.simps [of heap])
  qed
qed

lemma construire_arbre_erreur: "construire_arbre frequences = Inl e \<Longrightarrow> e = IndexError"
  using boucle_fusion_erreur by (auto simp: construire_arbre_def split: sum.splits list.splits)

lemma parcourir_erreur: "parcourir m q T = Inl e \<Longrightarrow> e = AttributeError"
  by (induction m q T rule: parcourir.induct) (auto split: option.splits sum.splits)

lemma encoder_erreur: "encoder texte codes = Inl e \<Longrightarrow> e = KeyError"
  by (simp add: encoder_result split: if_splits)

lemma decoder_boucle_erreur: "decoder_boucle racine noeud bs acc = Inl e \<Longrightarrow> e = AttributeError"
  by (induction racine noeud bs acc rule: decoder_boucle.induct) (auto simp: Let_def split: option.splits)

lemma calculer_stats_erreur: "calculer_stats texte s = Inl e \<Longrightarrow> e = ZeroDivisionError"
  by (simp add: calculer_stats_def Let_def split: if_splits)

lemma programme_main_main:
  "programme_main systeme =
     (case lire_fichier_huffman systeme ''test.txt'' of
        Inl e \<Rightarrow> Inl e
      | Inr texte \<Rightarrow>
          (case main texte of
             Inl e \<Rightarrow> Inl e
           | Inr (texte_encode, texte_decode, ok, st) \<Rightarrow>
               Inr (sauvegarder systeme texte_encode ''texte_encode.txt'',
                    \<lparr>taille_lue = length texte,
                     affichage_frequences = afficher_frequences_huffman (analyser_frequences texte),
                     affichage_codes = afficher_codes (projr (generer_codes
                        (Some (projr (construire_arbre (analyser_frequences texte)))))),
                     decodage_correct = ok, statistiques = st\<rparr>)))"
  by (simp add: programme_main_def main_def Let_def split: sum.splits)

text \<open>
  C13. The exceptions of the pipeline. On the empty text \<^verbatim>\<open>main\<close> raises
  \<^verbatim>\<open>IndexError\<close> in \<^verbatim>\<open>construire_arbre\<close>, and \<^verbatim>\<open>encoder_texte\<close> raises
  \<^verbatim>\<open>ValueError\<close> in \<^verbatim>\<open>generer_codes_huffman\<close> (the tree is \<^verbatim>\<open>None\<close>);
  the program of \<^verbatim>\<open>src/huffman/main.py\<close> raises \<^verbatim>\<open>IndexError\<close> on an empty
  \<^verbatim>\<open>test.txt\<close>. On any file store it raises \<^verbatim>\<open>FileNotFoundError\<close> exactly when
  \<^verbatim>\<open>test.txt\<close> is missing, \<^verbatim>\<open>UnicodeDecodeError\<close> exactly when it is not valid
  UTF-8, and on a readable \<^verbatim>\<open>test.txt\<close> only one of \<^verbatim>\<open>IndexError\<close> (heap),
  \<^verbatim>\<open>AttributeError\<close> (tree walk), \<^verbatim>\<open>KeyError\<close> (code table) and
  \<^verbatim>\<open>ZeroDivisionError\<close> (statistics).
\<close>

theorem programme_main_erreurs:
  "main [] = Inl IndexError \<and> encoder_texte [] = Inl ValueError \<and>
   programme_main (systeme(''test.txt'' \<mapsto> Texte [])) = Inl IndexError \<and>
   (case programme_main systeme of
      Inl e \<Rightarrow> (case systeme ''test.txt'' of
                   None \<Rightarrow> e = FileNotFoundError
                 | Some Octets_non_utf8 \<Rightarrow> e = UnicodeDecodeError
                 | Some (Texte _) \<Rightarrow> e \<in> {IndexError, AttributeError, KeyError, ZeroDivisionError})
    | Inr _ \<Rightarrow> (\<exists>t. systeme ''test.txt'' = Some (Texte t)))"
proof -
  have vide: "main [] = Inl IndexError"
    by (simp add: main_def analyser_frequences_def construire_arbre_def heapify_def boucle_fusion_Nil
        calculer_frequences_def)
  have "encoder_texte [] = Inl ValueError"
    by (simp add: encoder_texte_def recuperer_arbre_huffman_def calculer_frequences_def
        construire_arbre_huffman_def generer_codes_huffman_def)
  moreover have "programme_main (systeme(''test.txt'' \<mapsto> Texte [])) = Inl IndexError"
    by (simp add: programme_main_main vide)
  moreover have "case programme_main systeme of
      Inl e \<Rightarrow> (case systeme ''test.txt'' of
                   None \<Rightarrow> e = FileNotFoundError
                 | Some Octets_non_utf8 \<Rightarrow> e = UnicodeDecodeError
                 | Some (Texte _) \<Rightarrow> e \<in> {IndexError, AttributeError, KeyError, ZeroDivisionError})
    | Inr _ \<Rightarrow> (\<exists>t. systeme ''test.txt'' = Some (Texte t))"
  proof (cases "systeme ''test.txt''")
    case None
    then show ?thesis by (simp add: programme_main_main)
  next
    case (Some c)
    show ?thesis
    proof (cases c)
      case (Texte texte)
      with Some show ?thesis
        by (auto dest!: construire_arbre_erreur parcourir_erreur encoder_erreur decoder_boucle_erreur
            calculer_stats_erreur simp: programme_main_def generer_codes_def decoder_def Let_def
            split: sum.splits)
    next
      case Octets_non_utf8
      with Some show ?thesis by (simp add: programme_main_main)
    qed
  qed
  ultimately show ?thesis using vide by blast
qed

text \<open>
  C23. Round trip through the file store: when \<^verbatim>\<open>test.txt\<close> holds a text with two
  distinct symbols or more, the program of \<^verbatim>\<open>src/huffman/main.py\<close> succeeds, reports a
  correct decoding and the size it read, and leaves a store in which
  \<^verbatim>\<open>texte_encode.txt\<close> reads back as the encoding, \<^verbatim>\<open>test.txt\<close> still reads
  as the text, and the encoding read back decodes with the tree to the text.
\<close>

theorem programme_main_fichiers:
  assumes "systeme ''test.txt'' = Some (Texte texte)" and "1 < card (set texte)"
  shows "\<exists>s r sortie. programme_main systeme = Inr (sauvegarder systeme s ''texte_encode.txt'', sortie) \<and>
    decodage_correct sortie \<and> taille_lue sortie = length texte \<and>
    lire_fichier (sauvegarder systeme s ''texte_encode.txt'') ''texte_encode.txt'' = Inr s \<and>
    lire_fichier (sauvegarder systeme s ''texte_encode.txt'') ''test.txt'' = Inr texte \<and>
    construire_arbre (analyser_frequences texte) = Inr r \<and> decoder s (Some r) = Inr texte"
proof -
  from main_execution [OF assms(2)] obtain r s st where
    "construire_arbre (analyser_frequences texte) = Inr r" "main texte = Inr (s, texte, True, st)"
    "decoder s (Some r) = Inr texte" by blast
  with assms(1) show ?thesis by (auto simp: programme_main_main)
qed

theorem programme_main_fichiers_witness:
  "\<exists>s r sortie. programme_main [''test.txt'' \<mapsto> Texte ''aabbc''] =
      Inr (sauvegarder [''test.txt'' \<mapsto> Texte ''aabbc''] s ''texte_encode.txt'', sortie) \<and>
    decodage_correct sortie \<and> taille_lue sortie = length ''aabbc'' \<and>
    lire_fichier (sauvegarder [''test.txt'' \<mapsto> Texte ''aabbc''] s ''texte_encode.txt'') ''texte_encode.txt'' = Inr s \<and>
    lire_fichier (sauvegarder [''test.txt'' \<mapsto> Texte ''aabbc''] s ''texte_encode.txt'') ''test.txt'' = Inr ''aabbc'' \<and>
    construire_arbre (analyser_frequences ''aabbc'') = Inr r \<and> decoder s (Some r) = Inr ''aabbc''"
  using programme_main_fichiers [of "[''test.txt'' \<mapsto> Texte ''aabbc'']" "''aabbc''"] by simp

end
